(* ===== verification/Prelude.thy ===== *)
theory Prelude
  imports Main "HOL-Library.Word" "HOL-Library.List_Lexorder" "HOL-Library.Char_ord"
begin

section \<open>Prelude: bytes, strings and fallible results\<close>

text \<open>
  Types and helpers that every component shares. Rust bytes are 8-bit words; a Rust \<open>String\<close> or
  \<open>&str\<close> is its sequence of UTF-8 bytes, one HOL character per byte (so \<open>length\<close> is Rust's
  \<open>len()\<close>, and \<open>as_bytes\<close> is \<open>str_bytes\<close>). A fallible function returns a sum: \<open>Inl\<close> is
  Rust's \<open>Err\<close>, \<open>Inr\<close> is \<open>Ok\<close>. The string methods are those of the Rust standard library the code
  calls, on the byte sequence.
\<close>

type_synonym byte = "8 word"
type_synonym bytes = "8 word list"
type_synonym u16 = "16 word"
type_synonym u32 = "32 word"
type_synonym u64 = "64 word"

named_theorems res_simps \<open>how the fallible combinators succeed and fail\<close>

subsection \<open>Results\<close>

text \<open>The \<open>?\<close> operator and \<open>Result::and_then\<close> (\<open>and_then\<close>), \<open>Result::map_err\<close>, \<open>Option::ok_or\<close>.\<close>

definition and_then :: "'e + 'a \<Rightarrow> ('a \<Rightarrow> 'e + 'b) \<Rightarrow> 'e + 'b" where
  "and_then r f = (case r of Inl e \<Rightarrow> Inl e | Inr a \<Rightarrow> f a)"

definition map_err :: "('e \<Rightarrow> 'f) \<Rightarrow> 'e + 'a \<Rightarrow> 'f + 'a" where
  "map_err g r = (case r of Inl e \<Rightarrow> Inl (g e) | Inr a \<Rightarrow> Inr a)"

definition ok_or :: "'e \<Rightarrow> 'a option \<Rightarrow> 'e + 'a" where
  "ok_or e x = (case x of None \<Rightarrow> Inl e | Some a \<Rightarrow> Inr a)"

definition is_ok :: "'e + 'a \<Rightarrow> bool" where
  "is_ok r = (case r of Inl _ \<Rightarrow> False | Inr _ \<Rightarrow> True)"

lemma and_then_simps [simp]:
  "and_then (Inl e) f = Inl e"
  "and_then (Inr a) f = f a"
  by (simp_all add: and_then_def)

lemma and_then_Inr_iff [res_simps]:
  "and_then r f = Inr b \<longleftrightarrow> (\<exists>a. r = Inr a \<and> f a = Inr b)"
  by (cases r) simp_all

lemma map_err_simps [simp]:
  "map_err g (Inl e) = Inl (g e)"
  "map_err g (Inr a) = Inr a"
  by (simp_all add: map_err_def)

lemma map_err_Inr_iff [res_simps]: "map_err g r = Inr b \<longleftrightarrow> r = Inr b"
  by (cases r) simp_all

lemma ok_or_simps [simp]:
  "ok_or e None = Inl e"
  "ok_or e (Some a) = Inr a"
  by (simp_all add: ok_or_def)

lemma ok_or_Inr_iff [res_simps]: "ok_or e x = Inr a \<longleftrightarrow> x = Some a"
  by (cases x) simp_all

lemma is_ok_simps [simp]: "is_ok (Inr a)" "\<not> is_ok (Inl e)"
  by (simp_all add: is_ok_def)

lemma is_ok_iff: "is_ok r \<longleftrightarrow> (\<exists>a. r = Inr a)"
  by (cases r) simp_all

text \<open>A loop whose body may return early with an error.\<close>

fun try_fold :: "('a \<Rightarrow> 'b \<Rightarrow> 'e + 'b) \<Rightarrow> 'a list \<Rightarrow> 'b \<Rightarrow> 'e + 'b" where
  "try_fold f [] b = Inr b"
| "try_fold f (x # xs) b = and_then (f x b) (try_fold f xs)"

lemma try_fold_invariant:
  assumes "try_fold f xs b = Inr c" and "P b"
    and "\<And>x b c. x \<in> set xs \<Longrightarrow> P b \<Longrightarrow> f x b = Inr c \<Longrightarrow> P c"
  shows "P c"
  using assms by (induction xs arbitrary: b) (auto simp: and_then_Inr_iff)

subsection \<open>Strings as byte sequences\<close>

definition str_bytes :: "string \<Rightarrow> bytes" where
  "str_bytes s = map of_char s"

lemma length_str_bytes [simp]: "length (str_bytes s) = length s"
  by (simp add: str_bytes_def)

lemma str_bytes_Nil [simp]: "str_bytes [] = []"
  by (simp add: str_bytes_def)

lemma str_bytes_append [simp]: "str_bytes (s @ t) = str_bytes s @ str_bytes t"
  by (simp add: str_bytes_def)

lemma unat_of_char_byte [simp]: "unat (of_char c :: byte) = (of_char c :: nat)"
proof -
  have "unat (of_nat (of_char c) :: byte) = (of_char c :: nat) mod 2 ^ LENGTH(8)"
    by (rule unat_of_nat)
  then show ?thesis by (simp add: of_nat_of_char)
qed

lemma of_char_byte_eq [simp]: "(of_char c :: byte) = of_char d \<longleftrightarrow> c = d"
proof
  assume "(of_char c :: byte) = of_char d"
  then have "unat (of_char c :: byte) = unat (of_char d :: byte)" by (rule arg_cong)
  then have "(of_char c :: nat) = of_char d" by simp
  then have "char_of (of_char c :: nat) = char_of (of_char d :: nat)" by (rule arg_cong)
  then show "c = d" by simp
qed simp

lemma str_bytes_eq_iff [simp]: "str_bytes s = str_bytes t \<longleftrightarrow> s = t"
  unfolding str_bytes_def by (rule inj_map_eq_map) (simp add: inj_def)

text \<open>\<open>str::starts_with\<close>, \<open>strip_prefix\<close>, and \<open>find\<close> of one character.\<close>

fun strip_prefix :: "string \<Rightarrow> string \<Rightarrow> string option" where
  "strip_prefix [] s = Some s"
| "strip_prefix (p # ps) [] = None"
| "strip_prefix (p # ps) (c # cs) = (if p = c then strip_prefix ps cs else None)"

definition starts_with :: "string \<Rightarrow> string \<Rightarrow> bool" where
  "starts_with s p = (strip_prefix p s \<noteq> None)"

lemma strip_prefix_Some_iff: "strip_prefix p s = Some r \<longleftrightarrow> s = p @ r"
  by (induction p s rule: strip_prefix.induct) auto

lemma strip_prefix_append [simp]: "strip_prefix p (p @ r) = Some r"
  by (simp add: strip_prefix_Some_iff)

lemma starts_with_iff: "starts_with s p \<longleftrightarrow> (\<exists>r. s = p @ r)"
  by (auto simp: starts_with_def strip_prefix_Some_iff)

lemma starts_with_append [simp]: "starts_with (p @ r) p"
  by (simp add: starts_with_iff)

fun find_char :: "char \<Rightarrow> string \<Rightarrow> nat option" where
  "find_char c [] = None"
| "find_char c (x # xs) = (if x = c then Some 0 else map_option Suc (find_char c xs))"

text \<open>
  \<open>str::replace\<close> with a non-empty pattern (the code replaces \<open>{sha256}\<close>): leftmost
  non-overlapping occurrences, never rescanning what was inserted.
\<close>

function (sequential) str_replace :: "string \<Rightarrow> string \<Rightarrow> string \<Rightarrow> string" where
  "str_replace pat rep [] = []"
| "str_replace pat rep (c # cs) =
     (if pat \<noteq> [] \<and> starts_with (c # cs) pat
      then rep @ str_replace pat rep (drop (length pat) (c # cs))
      else c # str_replace pat rep cs)"
  by pat_completeness auto
termination
  by (relation "measure (\<lambda>(pat, rep, s). length s)") auto

text \<open>\<open>trim_end_matches\<close> and \<open>trim_start_matches\<close> of one character, and of the pattern of two.\<close>

definition trim_end_char :: "char \<Rightarrow> string \<Rightarrow> string" where
  "trim_end_char c s = rev (dropWhile (\<lambda>x. x = c) (rev s))"

definition trim_start_char :: "char \<Rightarrow> string \<Rightarrow> string" where
  "trim_start_char c s = dropWhile (\<lambda>x. x = c) s"

fun trim_start_pair :: "char \<Rightarrow> char \<Rightarrow> string \<Rightarrow> string" where
  "trim_start_pair a b (x # y # s) =
     (if x = a \<and> y = b then trim_start_pair a b s else x # y # s)"
| "trim_start_pair a b s = s"

text \<open>
  \<open>str::trim\<close>: the Unicode \<open>White_Space\<close> characters, by their UTF-8 encodings (one, two or three
  bytes), are removed from both ends.
\<close>

definition ws1 :: "nat \<Rightarrow> bool" where
  "ws1 a = (9 \<le> a \<and> a \<le> 13 \<or> a = 32)"

definition ws2 :: "nat \<Rightarrow> nat \<Rightarrow> bool" where
  "ws2 a b = (a = 194 \<and> (b = 133 \<or> b = 160))"

definition ws3 :: "nat \<Rightarrow> nat \<Rightarrow> nat \<Rightarrow> bool" where
  "ws3 a b c = (a = 225 \<and> b = 154 \<and> c = 128
     \<or> a = 226 \<and> b = 128 \<and> (128 \<le> c \<and> c \<le> 138 \<or> c = 168 \<or> c = 169 \<or> c = 175)
     \<or> a = 226 \<and> b = 129 \<and> c = 159 \<or> a = 227 \<and> b = 128 \<and> c = 128)"

function trim_start :: "string \<Rightarrow> string" where
  "trim_start s =
     (case s of [] \<Rightarrow> []
      | a # r1 \<Rightarrow> if ws1 (of_char a) then trim_start r1 else
        (case r1 of [] \<Rightarrow> s
         | b # r2 \<Rightarrow> if ws2 (of_char a) (of_char b) then trim_start r2 else
           (case r2 of [] \<Rightarrow> s
            | c # r3 \<Rightarrow> if ws3 (of_char a) (of_char b) (of_char c) then trim_start r3 else s)))"
  by pat_completeness auto
termination
  by (relation "measure length") auto

function trim_end_rev :: "string \<Rightarrow> string" where
  "trim_end_rev s =
     (case s of [] \<Rightarrow> []
      | a # r1 \<Rightarrow> if ws1 (of_char a) then trim_end_rev r1 else
        (case r1 of [] \<Rightarrow> s
         | b # r2 \<Rightarrow> if ws2 (of_char b) (of_char a) then trim_end_rev r2 else
           (case r2 of [] \<Rightarrow> s
            | c # r3 \<Rightarrow> if ws3 (of_char c) (of_char b) (of_char a) then trim_end_rev r3 else s)))"
  by pat_completeness auto
termination
  by (relation "measure length") auto

declare trim_start.simps [simp del] trim_end_rev.simps [simp del]

definition str_trim :: "string \<Rightarrow> string" where
  "str_trim s = rev (trim_end_rev (rev (trim_start s)))"

subsection \<open>ASCII classes and hexadecimal\<close>

definition is_ascii_graphic :: "char \<Rightarrow> bool" where
  "is_ascii_graphic c = (33 \<le> (of_char c :: nat) \<and> (of_char c :: nat) \<le> 126)"

definition is_ascii_hexdigit :: "char \<Rightarrow> bool" where
  "is_ascii_hexdigit c = (c \<in> set ''0123456789abcdefABCDEF'')"

text \<open>\<open>to_ascii_lowercase\<close> of one byte, lifted to strings.\<close>

definition ascii_lower :: "char \<Rightarrow> char" where
  "ascii_lower c = (if 65 \<le> (of_char c :: nat) \<and> (of_char c :: nat) \<le> 90
                    then char_of ((of_char c :: nat) + 32) else c)"

definition str_lower :: "string \<Rightarrow> string" where
  "str_lower s = map ascii_lower s"

definition eq_ignore_ascii_case :: "string \<Rightarrow> string \<Rightarrow> bool" where
  "eq_ignore_ascii_case s t = (str_lower s = str_lower t)"

text \<open>One lowercase hexadecimal digit, and the \<open>{:02x}\<close> format of a byte.\<close>

definition hex_digit :: "nat \<Rightarrow> char" where
  "hex_digit n = ''0123456789abcdef'' ! (n mod 16)"

definition hex_byte :: "byte \<Rightarrow> string" where
  "hex_byte b = [hex_digit (unat b div 16), hex_digit (unat b mod 16)]"

definition hex_lower :: "bytes \<Rightarrow> string" where
  "hex_lower bs = concat (map hex_byte bs)"

text \<open>A number in decimal, as \<open>{}\<close> prints it.\<close>

fun decimal :: "nat \<Rightarrow> string" where
  "decimal n = (if n < 10 then [hex_digit n] else decimal (n div 10) @ [hex_digit (n mod 10)])"

declare decimal.simps [simp del]

lemma length_hex_byte [simp]: "length (hex_byte b) = 2"
  by (simp add: hex_byte_def)

lemma length_hex_lower [simp]: "length (hex_lower bs) = 2 * length bs"
  by (induction bs) (simp_all add: hex_lower_def)

text \<open>A string whose ends are printable ASCII is its own trim.\<close>

lemma graphic_not_space:
  assumes "is_ascii_graphic c"
  shows "\<not> ws1 (of_char c)" "\<not> ws2 (of_char c) n" "\<not> ws2 n (of_char c)"
    "\<not> ws3 (of_char c) n k" "\<not> ws3 n k (of_char c)"
  using assms by (simp_all add: is_ascii_graphic_def ws1_def ws2_def ws3_def)

lemma trim_start_graphic: "is_ascii_graphic c \<Longrightarrow> trim_start (c # s) = c # s"
  by (subst trim_start.simps) (simp add: graphic_not_space split: list.split)

lemma trim_end_rev_graphic: "is_ascii_graphic c \<Longrightarrow> trim_end_rev (c # s) = c # s"
  by (subst trim_end_rev.simps) (simp add: graphic_not_space split: list.split)

lemma str_trim_Nil [simp]: "str_trim [] = []"
  by (simp add: str_trim_def trim_start.simps trim_end_rev.simps)

lemma str_trim_graphic:
  assumes "\<forall>c \<in> set s. is_ascii_graphic c"
  shows "str_trim s = s"
proof (cases s)
  case (Cons c cs)
  with assms have "trim_start s = s" by (simp add: trim_start_graphic)
  moreover obtain d ds where rs: "rev s = d # ds" using Cons by (cases "rev s") auto
  then have "d \<in> set s" by (metis list.set_intros(1) set_rev)
  with assms rs have "trim_end_rev (rev s) = rev s" by (simp add: trim_end_rev_graphic)
  ultimately show ?thesis by (simp add: str_trim_def)
qed simp

subsection \<open>UTF-8\<close>

text \<open>
  The encodings \<open>String::from_utf8\<close> and \<open>read_to_string\<close> accept: shortest forms only, no
  surrogates, nothing above U+10FFFF.
\<close>

definition between :: "nat \<Rightarrow> nat \<Rightarrow> nat \<Rightarrow> bool" where
  "between lo n up = (lo \<le> n \<and> n \<le> up)"

definition lead2 :: "nat \<Rightarrow> nat \<Rightarrow> bool" where
  "lead2 a b = (between 0xC2 a 0xDF \<and> between 0x80 b 0xBF)"

definition lead3 :: "nat \<Rightarrow> nat \<Rightarrow> nat \<Rightarrow> bool" where
  "lead3 a b c = (between 0x80 c 0xBF \<and>
     (a = 0xE0 \<and> between 0xA0 b 0xBF \<or> a = 0xED \<and> between 0x80 b 0x9F
      \<or> (between 0xE1 a 0xEC \<or> between 0xEE a 0xEF) \<and> between 0x80 b 0xBF))"

definition lead4 :: "nat \<Rightarrow> nat \<Rightarrow> nat \<Rightarrow> nat \<Rightarrow> bool" where
  "lead4 a b c d = (between 0x80 c 0xBF \<and> between 0x80 d 0xBF \<and>
     (a = 0xF0 \<and> between 0x90 b 0xBF \<or> a = 0xF4 \<and> between 0x80 b 0x8F
      \<or> between 0xF1 a 0xF3 \<and> between 0x80 b 0xBF))"

fun valid_utf8 :: "nat list \<Rightarrow> bool" where
  "valid_utf8 [] = True"
| "valid_utf8 (a # r) =
     (if a < 0x80 then valid_utf8 r
      else (case r of
          b # r2 \<Rightarrow> if lead2 a b then valid_utf8 r2 else
            (case r2 of
               c # r3 \<Rightarrow> if lead3 a b c then valid_utf8 r3 else
                 (case r3 of d # r4 \<Rightarrow> lead4 a b c d \<and> valid_utf8 r4 | [] \<Rightarrow> False)
             | [] \<Rightarrow> False)
        | [] \<Rightarrow> False))"

definition string_from_utf8 :: "bytes \<Rightarrow> string option" where
  "string_from_utf8 b = (if valid_utf8 (map unat b) then Some (map (\<lambda>x. char_of (unat x)) b) else None)"

lemma string_from_utf8_bytes: "string_from_utf8 b = Some s \<Longrightarrow> str_bytes s = b"
proof -
  assume "string_from_utf8 b = Some s"
  then have s: "s = map (\<lambda>x. char_of (unat x)) b" by (auto simp: string_from_utf8_def split: if_splits)
  have "of_char (char_of (unat x) :: char) = x" for x :: byte
  proof -
    have "unat x < 256" by (rule order.strict_trans2[OF unsigned_less]) simp
    then have same: "(of_char (char_of (unat x) :: char) :: nat) = unat x" by (simp only: of_char_of mod_less)
    have "(of_char (char_of (unat x) :: char) :: byte) = of_nat (of_char (char_of (unat x) :: char) :: nat)"
      by (rule of_nat_of_char[symmetric])
    also have "\<dots> = of_nat (unat x)" by (simp only: same)
    also have "\<dots> = x" by simp
    finally show ?thesis .
  qed
  then show ?thesis by (simp add: s str_bytes_def comp_def map_idI)
qed

lemma valid_utf8_ascii: "\<forall>n \<in> set ns. n < 0x80 \<Longrightarrow> valid_utf8 ns"
  by (induction ns) auto

lemma string_from_utf8_ascii:
  assumes "\<forall>c \<in> set s. (of_char c :: nat) < 0x80"
  shows "string_from_utf8 (str_bytes s) = Some s"
proof -
  have "valid_utf8 (map unat (str_bytes s))"
    using assms by (intro valid_utf8_ascii) (auto simp: str_bytes_def)
  then show ?thesis by (simp add: string_from_utf8_def str_bytes_def comp_def)
qed

end
