(* ===== verification/Effects.thy ===== *)
theory Effects
  imports Prelude
begin

section \<open>Fallible, state-passing computations\<close>

text \<open>
  Code that calls the network, the file system, the TPM or the kernel is a function from the state
  of the world to a result and the next state. The combinators below are Rust's \<open>Ok(x)\<close>, an early
  \<open>return Err(e)\<close>, and \<open>?\<close>. Two locales hold what their users share: a frame relation that every
  step of a computation keeps (only network requests were made, only these files changed), and the
  loop that tries mirrors in order until one succeeds.
\<close>

type_synonym ('s, 'e, 'a) act = "'s \<Rightarrow> ('e + 'a) \<times> 's"

definition ret :: "'a \<Rightarrow> ('s, 'e, 'a) act" where
  "ret a s = (Inr a, s)"

definition throw :: "'e \<Rightarrow> ('s, 'e, 'a) act" where
  "throw e s = (Inl e, s)"

definition lift :: "'e + 'a \<Rightarrow> ('s, 'e, 'a) act" where
  "lift r s = (r, s)"

definition then_do :: "('s, 'e, 'a) act \<Rightarrow> ('a \<Rightarrow> ('s, 'e, 'b) act) \<Rightarrow> ('s, 'e, 'b) act" where
  "then_do m f s = (case m s of (Inl e, s') \<Rightarrow> (Inl e, s') | (Inr a, s') \<Rightarrow> f a s')"

lemma act_simps [simp]:
  "ret a s = (Inr a, s)"
  "throw e s = (Inl e, s)"
  "lift r s = (r, s)"
  by (simp_all add: ret_def throw_def lift_def)

lemma then_do_ret [simp]: "then_do (ret a) f = f a"
  by (rule ext) (simp add: then_do_def)

lemma then_do_throw [simp]: "then_do (throw e) f = throw e"
  by (rule ext) (simp add: then_do_def)

lemma then_do_lift [simp]: "then_do (lift (Inr a)) f = f a" "then_do (lift (Inl e)) f = throw e"
  by (rule ext, simp add: then_do_def)+

lemma then_do_Inr_iff [res_simps]:
  "then_do m f s = (Inr b, s') \<longleftrightarrow> (\<exists>a s1. m s = (Inr a, s1) \<and> f a s1 = (Inr b, s'))"
  by (auto simp: then_do_def split: prod.splits sum.splits)

lemma then_do_Inl_iff:
  "then_do m f s = (Inl e, s') \<longleftrightarrow>
     m s = (Inl e, s') \<or> (\<exists>a s1. m s = (Inr a, s1) \<and> f a s1 = (Inl e, s'))"
  by (auto simp: then_do_def split: prod.splits sum.splits)

lemma then_do_stepI: "m s = (Inr a, s1) \<Longrightarrow> then_do m f s = f a s1"
  by (simp add: then_do_def)

lemma then_do_failI: "m s = (Inl e, s1) \<Longrightarrow> then_do m f s = (Inl e, s1)"
  by (simp add: then_do_def)

text \<open>A run that succeeded, taken apart step by step.\<close>

named_theorems run_elims \<open>elimination rules for successful runs\<close>

lemma then_do_InrE [run_elims]:
  assumes "then_do m f s = (Inr b, s')"
  obtains a s1 where "m s = (Inr a, s1)" and "f a s1 = (Inr b, s')"
  using assms by (auto simp: then_do_Inr_iff)

lemma lift_InrE [run_elims]:
  assumes "lift r s = (Inr a, s')"
  obtains "r = Inr a" and "s' = s"
  using assms by simp

lemma ret_InrE [run_elims]:
  assumes "ret x s = (Inr a, s')"
  obtains "a = x" and "s' = s"
  using assms by simp

lemma throw_InrE [run_elims]: "throw e s = (Inr a, s') \<Longrightarrow> P"
  by simp

lemma guard_InrE [run_elims]:
  assumes "(if c then throw e else m) s = (Inr a, s')"
  obtains "\<not> c" and "m s = (Inr a, s')"
  using assms by (simp split: if_splits)

lemma case_prod_InrE [run_elims]:
  assumes "(case p of (x, y) \<Rightarrow> m x y) s = (Inr a, s')"
  obtains x y where "p = (x, y)" and "m x y s = (Inr a, s')"
  using assms by (simp split: prod.splits)

subsection \<open>Frame relations\<close>

text \<open>
  \<open>keeps R m\<close>: whatever \<open>m\<close> returns, the state it leaves is related to the state it started in.
\<close>

definition keeps :: "('s \<Rightarrow> 's \<Rightarrow> bool) \<Rightarrow> ('s, 'e, 'a) act \<Rightarrow> bool" where
  "keeps R m \<longleftrightarrow> (\<forall>s r s'. m s = (r, s') \<longrightarrow> R s s')"

lemma keepsI: "(\<And>s r s'. m s = (r, s') \<Longrightarrow> R s s') \<Longrightarrow> keeps R m"
  by (simp add: keeps_def)

lemma keepsD: "keeps R m \<Longrightarrow> m s = (r, s') \<Longrightarrow> R s s'"
  by (simp add: keeps_def)

locale frame_relation =
  fixes R :: "'s \<Rightarrow> 's \<Rightarrow> bool"
  assumes refl: "R s s"
    and trans: "R s t \<Longrightarrow> R t u \<Longrightarrow> R s u"
begin

lemma keeps_ret: "keeps R (ret a)"
  and keeps_throw: "keeps R (throw e)"
  and keeps_lift: "keeps R (lift r)"
  by (auto intro!: keepsI simp: refl)

lemma keeps_then_do:
  assumes "keeps R m" and "\<And>a. keeps R (f a)"
  shows "keeps R (then_do m f)"
proof (rule keepsI)
  fix s r s'
  assume run: "then_do m f s = (r, s')"
  show "R s s'"
  proof (cases "m s")
    case (Pair x s1)
    with assms(1) have step: "R s s1" by (rule keepsD)
    show ?thesis
    proof (cases x)
      case (Inl e)
      with run Pair step show ?thesis by (simp add: then_do_def)
    next
      case (Inr a)
      with run Pair have "f a s1 = (r, s')" by (simp add: then_do_def)
      with assms(2) have "R s1 s'" by (rule keepsD)
      with step show ?thesis by (rule trans)
    qed
  qed
qed

lemmas keeps_intros = keeps_ret keeps_throw keeps_lift keeps_then_do

end

subsection \<open>Errors that a run avoids\<close>

text \<open>\<open>avoids X m\<close>: whatever state \<open>m\<close> starts in, an error that it returns is not in \<open>X\<close>.\<close>

definition avoids :: "'e set \<Rightarrow> ('s, 'e, 'a) act \<Rightarrow> bool" where
  "avoids X m \<longleftrightarrow> (\<forall>s e s'. m s = (Inl e, s') \<longrightarrow> e \<notin> X)"

named_theorems avoids_intros \<open>which errors the steps of a run avoid\<close>

lemma avoidsI: "(\<And>s e s'. m s = (Inl e, s') \<Longrightarrow> e \<notin> X) \<Longrightarrow> avoids X m"
  by (simp add: avoids_def)

lemma avoidsD: "avoids X m \<Longrightarrow> m s = (Inl e, s') \<Longrightarrow> e \<notin> X"
  unfolding avoids_def by blast

lemma avoids_ret [avoids_intros]: "avoids X (ret a)"
  and avoids_throw [avoids_intros]: "e \<notin> X \<Longrightarrow> avoids X (throw e)"
  and avoids_lift: "(\<And>e. r = Inl e \<Longrightarrow> e \<notin> X) \<Longrightarrow> avoids X (lift r)"
  by (auto intro!: avoidsI)

lemma avoids_result [simp]: "avoids X (Pair (Inr a))" "avoids X (Pair (Inl e)) \<longleftrightarrow> e \<notin> X"
  "avoids X (lift (Inr a))" "avoids X (lift (Inl e)) \<longleftrightarrow> e \<notin> X"
  by (auto simp: avoids_def)

text \<open>The next step may use that the one before it succeeded.\<close>

lemma avoids_then_do:
  assumes "avoids X m" and "\<And>a s s'. m s = (Inr a, s') \<Longrightarrow> avoids X (f a)"
  shows "avoids X (then_do m f)"
proof (rule avoidsI)
  fix s e s'
  assume "then_do m f s = (Inl e, s')"
  then show "e \<notin> X"
    unfolding then_do_Inl_iff using avoidsD[OF assms(1)] avoidsD[OF assms(2)] by blast
qed

lemma avoids_then_do' [avoids_intros]: "avoids X m \<Longrightarrow> (\<And>a. avoids X (f a)) \<Longrightarrow> avoids X (then_do m f)"
  by (rule avoids_then_do)

lemma ok_or_Inl: "ok_or e x = Inl d \<Longrightarrow> d = e"
  by (cases x) (simp_all add: ok_or_def)

lemma map_err_Inl: "map_err f r = Inl d \<Longrightarrow> \<exists>e. d = f e"
  by (cases r) (auto simp: map_err_def)

lemma avoids_ok_or [avoids_intros]: "e \<notin> X \<Longrightarrow> avoids X (lift (ok_or e x))"
  by (rule avoids_lift) (auto dest: ok_or_Inl)

lemma avoids_map_err [avoids_intros]: "(\<And>e. f e \<notin> X) \<Longrightarrow> avoids X (lift (map_err f r))"
  by (rule avoids_lift) (auto dest: map_err_Inl)

subsection \<open>Computations that may not return\<close>

text \<open>
  A loop that need not end makes its result an \<open>option\<close>; \<open>None\<close> is a run that never returns.
\<close>

type_synonym ('s, 'e, 'a) pact = "'s \<Rightarrow> (('e + 'a) \<times> 's) option"

definition may :: "('s, 'e, 'a) act \<Rightarrow> ('s, 'e, 'a) pact" where
  "may m s = Some (m s)"

definition then_may :: "('s, 'e, 'a) pact \<Rightarrow> ('a \<Rightarrow> ('s, 'e, 'b) pact) \<Rightarrow> ('s, 'e, 'b) pact" where
  "then_may m f s =
     (case m s of
        None \<Rightarrow> None
      | Some (r, s') \<Rightarrow> (case r of Inl e \<Rightarrow> Some (Inl e, s') | Inr a \<Rightarrow> f a s'))"

lemma may_iff [res_simps]: "may m s = Some x \<longleftrightarrow> m s = x"
  by (auto simp: may_def)

lemma then_may_Inr_iff [res_simps]:
  "then_may m f s = Some (Inr b, s') \<longleftrightarrow> (\<exists>a s1. m s = Some (Inr a, s1) \<and> f a s1 = Some (Inr b, s'))"
  by (auto simp: then_may_def split: option.splits sum.splits)

lemma then_may_stepI: "m s = Some (Inr a, s1) \<Longrightarrow> then_may m f s = f a s1"
  by (simp add: then_may_def)

definition pkeeps :: "('s \<Rightarrow> 's \<Rightarrow> bool) \<Rightarrow> ('s, 'e, 'a) pact \<Rightarrow> bool" where
  "pkeeps R m \<longleftrightarrow> (\<forall>s r s'. m s = Some (r, s') \<longrightarrow> R s s')"

lemma pkeepsI: "(\<And>s r s'. m s = Some (r, s') \<Longrightarrow> R s s') \<Longrightarrow> pkeeps R m"
  by (simp add: pkeeps_def)

lemma pkeepsD: "pkeeps R m \<Longrightarrow> m s = Some (r, s') \<Longrightarrow> R s s'"
  by (simp add: pkeeps_def)

lemma pkeeps_may: "keeps R m \<Longrightarrow> pkeeps R (may m)"
  by (auto intro!: pkeepsI simp: may_iff dest: keepsD)

lemma pkeeps_mono: "pkeeps R m \<Longrightarrow> (\<And>s t. R s t \<Longrightarrow> S s t) \<Longrightarrow> pkeeps S m"
  by (auto simp: pkeeps_def)

text \<open>The same of the runs that end in an error only.\<close>

definition fail_keeps :: "('s \<Rightarrow> 's \<Rightarrow> bool) \<Rightarrow> ('s, 'e, 'a) pact \<Rightarrow> bool" where
  "fail_keeps R m \<longleftrightarrow> (\<forall>s e s'. m s = Some (Inl e, s') \<longrightarrow> R s s')"

lemma fail_keepsI: "(\<And>s e s'. m s = Some (Inl e, s') \<Longrightarrow> R s s') \<Longrightarrow> fail_keeps R m"
  by (simp add: fail_keeps_def)

lemma fail_keepsD: "fail_keeps R m \<Longrightarrow> m s = Some (Inl e, s') \<Longrightarrow> R s s'"
  by (simp add: fail_keeps_def)

lemma pkeeps_fail_keeps: "pkeeps R m \<Longrightarrow> fail_keeps R m"
  by (simp add: fail_keeps_def pkeeps_def)

context frame_relation
begin

lemma fail_keeps_then_may:
  assumes "pkeeps R m" and "\<And>a. fail_keeps R (f a)"
  shows "fail_keeps R (then_may m f)"
proof (rule fail_keepsI)
  fix s e s'
  assume run: "then_may m f s = Some (Inl e, s')"
  then obtain x s1 where x: "m s = Some (x, s1)" by (auto simp: then_may_def split: option.splits)
  with assms(1) have step: "R s s1" by (rule pkeepsD)
  show "R s s'"
  proof (cases x)
    case (Inl e')
    with run x step show ?thesis by (simp add: then_may_def)
  next
    case (Inr a)
    with run x have "f a s1 = Some (Inl e, s')" by (simp add: then_may_def)
    with assms(2) have "R s1 s'" by (rule fail_keepsD)
    with step show ?thesis by (rule trans)
  qed
qed

lemma pkeeps_ret: "pkeeps R (may (ret a))"
  and pkeeps_lift: "pkeeps R (may (lift r))"
  by (auto intro: pkeeps_may keeps_ret keeps_lift)

lemma pkeeps_then_may:
  assumes "pkeeps R m" and "\<And>a. pkeeps R (f a)"
  shows "pkeeps R (then_may m f)"
proof (rule pkeepsI)
  fix s r s'
  assume run: "then_may m f s = Some (r, s')"
  then obtain x s1 where x: "m s = Some (x, s1)" by (auto simp: then_may_def split: option.splits)
  with assms(1) have step: "R s s1" by (rule pkeepsD)
  show "R s s'"
  proof (cases x)
    case (Inl e)
    with run x step show ?thesis by (simp add: then_may_def)
  next
    case (Inr a)
    with run x have "f a s1 = Some (r, s')" by (simp add: then_may_def)
    with assms(2) have "R s1 s'" by (rule pkeepsD)
    with step show ?thesis by (rule trans)
  qed
qed

end

subsection \<open>First success over a list of mirrors\<close>

text \<open>
  The code writes the same loop for plain downloads, payload candidates and manifests: remember the
  last error, try the next URL, return the first success; with no URL left, return the last error or
  a fixed one.
\<close>

locale first_success =
  fixes attempt :: "'u \<Rightarrow> ('s, 'e, 'a) act"
    and search :: "'e option \<Rightarrow> 'u list \<Rightarrow> ('s, 'e, 'a) act"
    and none_given :: "'e"
  assumes search_Nil: "search prev [] s = (Inl (case prev of None \<Rightarrow> none_given | Some e \<Rightarrow> e), s)"
    and search_Cons: "search prev (u # us) s =
      (case attempt u s of (Inr a, s') \<Rightarrow> (Inr a, s') | (Inl e, s') \<Rightarrow> search (Some e) us s')"
begin

text \<open>A success is the success of one of the mirrors, and every earlier one had failed.\<close>

lemma success_from:
  "search prev us s = (Inr a, s') \<Longrightarrow> \<exists>u \<in> set us. \<exists>s1. attempt u s1 = (Inr a, s')"
proof (induction us arbitrary: prev s)
  case Nil
  then show ?case by (simp add: search_Nil)
next
  case (Cons u us)
  then show ?case by (fastforce simp: search_Cons split: prod.splits sum.splits)
qed

text \<open>If one of the mirrors succeeds in every state, so does the search.\<close>

lemma some_mirror_works:
  assumes "u \<in> set us" and "\<And>s. \<exists>a s'. attempt u s = (Inr a, s')"
  shows "\<exists>a s'. search prev us s = (Inr a, s')"
  using assms(1)
proof (induction us arbitrary: prev s)
  case Nil
  then show ?case by simp
next
  case (Cons v us)
  show ?case
  proof (cases "attempt v s")
    case (Pair x s1)
    show ?thesis
    proof (cases x)
      case (Inl e)
      with Pair assms(2)[of s] Cons.prems have "u \<in> set us" by auto
      with Cons.IH Pair Inl show ?thesis by (simp add: search_Cons)
    next
      case (Inr a)
      with Pair show ?thesis by (simp add: search_Cons)
    qed
  qed
qed

text \<open>What a search fails with is what a mirror failed with, or what it was given.\<close>

lemma search_avoids:
  assumes "\<And>u. avoids X (attempt u)" and "none_given \<notin> X" and "\<And>e. prev = Some e \<Longrightarrow> e \<notin> X"
  shows "avoids X (search prev us)"
proof (rule avoidsI)
  fix s e s'
  assume "search prev us s = (Inl e, s')"
  then show "e \<notin> X"
    using assms(3)
  proof (induction us arbitrary: prev s)
    case Nil
    then show ?case using assms(2) by (auto simp: search_Nil split: option.splits)
  next
    case (Cons u us)
    obtain r s1 where step: "attempt u s = (r, s1)" by fastforce
    show ?case
    proof (cases r)
      case (Inl d)
      with step have "d \<notin> X" using avoidsD[OF assms(1)] by blast
      moreover have "search (Some d) us s1 = (Inl e, s')" using Cons.prems(1) step Inl by (simp add: search_Cons)
      ultimately show ?thesis using Cons.IH by blast
    next
      case (Inr a)
      with Cons.prems(1) step show ?thesis by (simp add: search_Cons)
    qed
  qed
qed

text \<open>If every mirror fails in every state, so does the search.\<close>

lemma all_mirrors_fail:
  assumes "\<And>u s. u \<in> set us \<Longrightarrow> \<exists>e s'. attempt u s = (Inl e, s')"
  shows "\<exists>e s'. search prev us s = (Inl e, s')"
  using assms
proof (induction us arbitrary: prev s)
  case Nil
  then show ?case by (simp add: search_Nil)
next
  case (Cons v us)
  obtain e s1 where "attempt v s = (Inl e, s1)" using Cons.prems[of v s] by auto
  with Cons show ?case by (simp add: search_Cons)
qed

text \<open>The first mirror's success is the result; nothing after it is tried.\<close>

lemma head_success: "attempt u s = (Inr a, s') \<Longrightarrow> search prev (u # us) s = (Inr a, s')"
  by (simp add: search_Cons)

lemma head_failure: "attempt u s = (Inl e, s') \<Longrightarrow> search prev (u # us) s = search (Some e) us s'"
  by (simp add: search_Cons)

end

locale framed_search = first_success attempt search none_given + frame_relation R
  for attempt :: "'u \<Rightarrow> ('s, 'e, 'a) act" and search none_given and R :: "'s \<Rightarrow> 's \<Rightarrow> bool" +
  assumes attempt_keeps: "keeps R (attempt u)"
begin

lemma search_keeps: "keeps R (search prev us)"
proof (rule keepsI)
  fix s r s'
  assume "search prev us s = (r, s')"
  then show "R s s'"
  proof (induction us arbitrary: prev s)
    case Nil
    then show ?case by (simp add: search_Nil refl)
  next
    case (Cons u us)
    obtain x s1 where step: "attempt u s = (x, s1)" by fastforce
    then have "R s s1" by (rule keepsD[OF attempt_keeps])
    with Cons step show ?case by (cases x) (auto simp: search_Cons refl intro: trans)
  qed
qed

end

end
