(* ===== verification/Ordered_Map.thy ===== *)
theory Ordered_Map
  imports Prelude
begin

section \<open>Ordered maps: Rust's \<open>BTreeMap\<close>\<close>

text \<open>
  \<open>std::collections::BTreeMap\<close> as the code uses it: \<open>serde_json\<close> objects (built without the
  \<open>preserve_order\<close> feature, so \<open>Map<String, Value>\<close> is a \<open>BTreeMap\<close>), the entries of the cpio
  builder and its table of file contents. The interface is a locale over any map with a sorted
  list of entries; the model is an association list with strictly increasing keys. Keys that are
  strings are compared bytewise, as Rust compares \<open>String\<close>s (List_Lexorder over Char_ord).
\<close>

locale ordered_map =
  fixes lookup :: "'m \<Rightarrow> 'k::linorder \<Rightarrow> 'v option"
    and insert :: "'k \<Rightarrow> 'v \<Rightarrow> 'm \<Rightarrow> 'm"
    and delete :: "'k \<Rightarrow> 'm \<Rightarrow> 'm"
    and empty :: "'m"
    and entries :: "'m \<Rightarrow> ('k \<times> 'v) list"
    and ok :: "'m \<Rightarrow> bool"
  assumes ok_empty: "ok empty"
    and ok_insert: "ok m \<Longrightarrow> ok (insert k v m)"
    and ok_delete: "ok m \<Longrightarrow> ok (delete k m)"
    and lookup_empty: "lookup empty k = None"
    and lookup_insert: "ok m \<Longrightarrow> lookup (insert k v m) j = (if j = k then Some v else lookup m j)"
    and lookup_delete: "ok m \<Longrightarrow> lookup (delete k m) j = (if j = k then None else lookup m j)"
    and entries_iff: "ok m \<Longrightarrow> (k, v) \<in> set (entries m) \<longleftrightarrow> lookup m k = Some v"
    and entries_sorted: "ok m \<Longrightarrow> sorted_wrt (<) (map fst (entries m))"
begin

lemma keys_eq: "ok m \<Longrightarrow> set (map fst (entries m)) = {k. lookup m k \<noteq> None}"
  by (auto simp: image_iff entries_iff) (metis entries_iff fst_conv)

lemma entries_by_key:
  assumes "ok m"
  shows "entries m = map (\<lambda>k. (k, the (lookup m k))) (map fst (entries m))"
proof -
  have "\<And>p. p \<in> set (entries m) \<Longrightarrow> p = (fst p, the (lookup m (fst p)))"
    using assms by (metis entries_iff option.sel prod.collapse)
  then show ?thesis by (simp add: map_idI comp_def)
qed

text \<open>Two maps that answer every lookup alike have the same entries in the same order.\<close>

lemma entries_cong:
  assumes "ok m" and "ok m'" and "\<And>k. lookup m k = lookup m' k"
  shows "entries m = entries m'"
proof -
  have "map fst (entries m) = map fst (entries m')"
    by (rule strict_sorted_equal) (use assms in \<open>simp_all add: entries_sorted keys_eq del: set_map\<close>)
  then have "map (\<lambda>k. (k, the (lookup m k))) (map fst (entries m))
           = map (\<lambda>k. (k, the (lookup m' k))) (map fst (entries m'))"
    using assms(3) by simp
  then show ?thesis using assms(1,2) by (metis entries_by_key)
qed

lemma insert_commute:
  "ok m \<Longrightarrow> j \<noteq> k \<Longrightarrow> entries (insert j u (insert k v m)) = entries (insert k v (insert j u m))"
  by (rule entries_cong) (auto simp: ok_insert lookup_insert)

lemma insert_again: "ok m \<Longrightarrow> entries (insert k u (insert k v m)) = entries (insert k u m)"
  by (rule entries_cong) (auto simp: ok_insert lookup_insert)

text \<open>A batch of insertions: the later ones win, key by key.\<close>

lemma ok_fold: "ok m \<Longrightarrow> ok (fold (\<lambda>(k, v). insert k v) kvs m)"
  by (induction kvs arbitrary: m) (auto simp: ok_insert)

lemma lookup_fold:
  "ok m \<Longrightarrow> lookup (fold (\<lambda>(k, v). insert k v) kvs m) j
     = (case map_of (rev kvs) j of Some v \<Rightarrow> Some v | None \<Rightarrow> lookup m j)"
proof (induction kvs arbitrary: m)
  case Nil
  then show ?case by simp
next
  case (Cons p kvs)
  obtain k v where "p = (k, v)" by fastforce
  with Cons show ?case
    by (auto simp: ok_insert lookup_insert map_add_def map_of_append split: option.splits)
qed

text \<open>The order in which distinct keys arrive does not matter.\<close>

lemma fold_order_irrelevant:
  assumes "ok m" and "distinct (map fst kvs)" and "distinct (map fst kvs')"
    and "set kvs = set kvs'"
  shows "entries (fold (\<lambda>(k, v). insert k v) kvs m) = entries (fold (\<lambda>(k, v). insert k v) kvs' m)"
proof (rule entries_cong)
  fix j
  have "map_of (rev kvs) = map_of (rev kvs')"
    by (rule map_of_eqI) (use assms in \<open>auto simp: rev_map[symmetric] map_of_eq_Some_iff\<close>)
  then show "lookup (fold (\<lambda>(k, v). insert k v) kvs m) j = lookup (fold (\<lambda>(k, v). insert k v) kvs' m) j"
    using assms(1) by (simp add: lookup_fold)
qed (use assms(1) in \<open>simp_all add: ok_fold\<close>)

end

subsection \<open>The model: strictly sorted association lists\<close>

type_synonym ('k, 'v) btree = "('k \<times> 'v) list"

definition bt_get :: "('k, 'v) btree \<Rightarrow> 'k \<Rightarrow> 'v option" where
  "bt_get m k = map_of m k"

fun bt_insert :: "'k::linorder \<Rightarrow> 'v \<Rightarrow> ('k, 'v) btree \<Rightarrow> ('k, 'v) btree" where
  "bt_insert k v [] = [(k, v)]"
| "bt_insert k v ((j, u) # m) =
     (if k < j then (k, v) # (j, u) # m
      else if k = j then (k, v) # m
      else (j, u) # bt_insert k v m)"

definition bt_remove :: "'k \<Rightarrow> ('k, 'v) btree \<Rightarrow> ('k, 'v) btree" where
  "bt_remove k m = filter (\<lambda>p. fst p \<noteq> k) m"

definition bt_ok :: "('k::linorder, 'v) btree \<Rightarrow> bool" where
  "bt_ok m = sorted_wrt (<) (map fst m)"

lemma bt_get_simps [simp]:
  "bt_get [] k = None"
  "bt_get ((j, v) # m) k = (if k = j then Some v else bt_get m k)"
  by (simp_all add: bt_get_def)

lemma bt_ok_simps [simp]:
  "bt_ok []"
  "bt_ok ((k, v) # m) \<longleftrightarrow> (\<forall>p \<in> set m. k < fst p) \<and> bt_ok m"
  by (simp_all add: bt_ok_def)

lemma bt_get_insert [simp]: "bt_get (bt_insert k v m) j = (if j = k then Some v else bt_get m j)"
  by (induction k v m rule: bt_insert.induct) auto

lemma set_bt_insert: "set (bt_insert k v m) \<subseteq> Set.insert (k, v) (set m)"
  by (induction k v m rule: bt_insert.induct) auto

lemma bt_ok_insert [simp]: "bt_ok m \<Longrightarrow> bt_ok (bt_insert k v m)"
proof (induction k v m rule: bt_insert.induct)
  case (2 k v j u m)
  then show ?case using set_bt_insert[of k v m] by (fastforce dest: order.strict_trans)
qed simp

lemma bt_get_None_iff: "bt_get m k = None \<longleftrightarrow> k \<notin> fst ` set m"
  by (simp add: bt_get_def map_of_eq_None_iff)

lemma bt_get_remove [simp]: "bt_get (bt_remove k m) j = (if j = k then None else bt_get m j)"
  by (induction m) (auto simp: bt_remove_def)

lemma bt_ok_remove [simp]: "bt_ok m \<Longrightarrow> bt_ok (bt_remove k m)"
  unfolding bt_ok_def bt_remove_def by (induction m) auto

lemma bt_ok_distinct: "bt_ok m \<Longrightarrow> distinct (map fst m)"
  unfolding bt_ok_def by (simp add: strict_sorted_iff)

lemma bt_get_iff: "bt_ok m \<Longrightarrow> bt_get m k = Some v \<longleftrightarrow> (k, v) \<in> set m"
  by (simp add: bt_get_def bt_ok_distinct)

lemma bt_get_in_set: "bt_get m k = Some v \<Longrightarrow> (k, v) \<in> set m"
  by (simp add: bt_get_def map_of_SomeD)

interpretation btree: ordered_map bt_get bt_insert bt_remove "[]" "\<lambda>m. m" bt_ok
  by unfold_locales (auto simp: bt_get_iff bt_ok_def[symmetric] simp flip: bt_ok_def)

text \<open>The shape the proofs use: a sorted list is determined by its lookups.\<close>

lemma btree_eqI: "bt_ok m \<Longrightarrow> bt_ok m' \<Longrightarrow> (\<And>k. bt_get m k = bt_get m' k) \<Longrightarrow> m = m'"
  by (rule btree.entries_cong)

lemma bt_insert_id: "bt_ok m \<Longrightarrow> bt_get m k = Some v \<Longrightarrow> bt_insert k v m = m"
  by (rule btree_eqI) auto

lemma bt_insert_remove: "bt_ok m \<Longrightarrow> bt_insert k v (bt_remove k m) = bt_insert k v m"
  by (rule btree_eqI) auto

end
