(* ===== verification/Json.thy ===== *)
theory Json
  imports Ordered_Map
begin

section \<open>JSON documents: \<open>serde_json::Value\<close>\<close>

text \<open>
  The tree that \<open>serde_json\<close> hands to the code. A \<open>Value\<close> keeps its objects as \<open>BTreeMap\<close>s
  (strictly sorted keys: \<open>wf_json\<close>). The same type also carries a document as it is written,
  with its keys in document order and possibly repeated, which is what a typed deserializer sees
  when it reads text; \<open>to_value\<close> builds the \<open>Value\<close> of such a document (later keys replace
  earlier ones, as \<open>Map::insert\<close> does). The code never looks into a number.
\<close>

datatype json_number = PosInt u64 | NegInt u64 | Float u64

datatype json =
    JNull
  | JBool bool
  | JNum json_number
  | JStr string
  | JArr "json list"
  | JObj "(string \<times> json) list"

type_synonym fields = "(string \<times> json) list"

subsection \<open>Well-formed values, and the value of a document\<close>

fun wf_json :: "json \<Rightarrow> bool" and wf_values :: "json list \<Rightarrow> bool" and wf_fields :: "fields \<Rightarrow> bool" where
  "wf_json (JArr xs) = wf_values xs"
| "wf_json (JObj m) = (bt_ok m \<and> wf_fields m)"
| "wf_json _ = True"
| "wf_values [] = True"
| "wf_values (x # xs) = (wf_json x \<and> wf_values xs)"
| "wf_fields [] = True"
| "wf_fields ((k, v) # m) = (wf_json v \<and> wf_fields m)"

definition btree_of :: "('k::linorder \<times> 'v) list \<Rightarrow> ('k, 'v) btree" where
  "btree_of kvs = fold (\<lambda>(k, v). bt_insert k v) kvs []"

fun to_value :: "json \<Rightarrow> json" and to_values :: "json list \<Rightarrow> json list"
  and to_fields :: "fields \<Rightarrow> fields" where
  "to_value (JArr xs) = JArr (to_values xs)"
| "to_value (JObj m) = JObj (btree_of (to_fields m))"
| "to_value j = j"
| "to_values [] = []"
| "to_values (x # xs) = to_value x # to_values xs"
| "to_fields [] = []"
| "to_fields ((k, v) # m) = (k, to_value v) # to_fields m"

lemma wf_values_iff: "wf_values xs \<longleftrightarrow> (\<forall>x \<in> set xs. wf_json x)"
  by (induction xs) auto

lemma wf_fields_iff: "wf_fields m \<longleftrightarrow> (\<forall>p \<in> set m. wf_json (snd p))"
  by (induction m) auto

lemma wf_fields_get: "wf_fields m \<Longrightarrow> bt_get m k = Some v \<Longrightarrow> wf_json v"
  by (metis wf_fields_iff bt_get_in_set snd_conv)

lemma wf_fields_insert [simp]: "wf_fields m \<Longrightarrow> wf_json v \<Longrightarrow> wf_fields (bt_insert k v m)"
  using set_bt_insert[of k v m] by (fastforce simp: wf_fields_iff)

lemma wf_fields_remove [simp]: "wf_fields m \<Longrightarrow> wf_fields (bt_remove k m)"
  by (auto simp: wf_fields_iff bt_remove_def)

lemma bt_ok_btree_of [simp]: "bt_ok (btree_of kvs)"
  unfolding btree_of_def by (rule btree.ok_fold) simp

lemma bt_get_btree_of: "bt_get (btree_of kvs) k = map_of (rev kvs) k"
  unfolding btree_of_def by (simp add: btree.lookup_fold split: option.splits)

lemma map_of_rev_distinct: "bt_ok m \<Longrightarrow> map_of (rev m) = map_of m"
  by (rule map_of_eqI) (auto simp: bt_ok_distinct rev_map[symmetric] image_iff
      intro: bt_ok_distinct)

lemma btree_of_id: "bt_ok m \<Longrightarrow> btree_of m = m"
proof (rule btree_eqI)
  fix k assume "bt_ok m"
  then show "bt_get (btree_of m) k = bt_get m k"
    by (simp add: bt_get_btree_of map_of_rev_distinct) (simp add: bt_get_def)
qed simp_all

lemma set_btree_of: "set (btree_of kvs) \<subseteq> set kvs"
proof -
  have "set (fold (\<lambda>(k, v). bt_insert k v) kvs acc) \<subseteq> set acc \<union> set kvs" for acc
    by (induction kvs arbitrary: acc) (use set_bt_insert in \<open>fastforce+\<close>)
  from this[of "[]"] show ?thesis by (simp add: btree_of_def)
qed

lemma wf_fields_btree_of: "wf_fields kvs \<Longrightarrow> wf_fields (btree_of kvs)"
  using set_btree_of[of kvs] by (auto simp: wf_fields_iff)

lemma wf_to_value:
  "wf_json (to_value j)" and "wf_values (to_values js)" and "wf_fields (to_fields m)"
  by (induction j and js and m rule: to_value_to_values_to_fields.induct)
     (simp_all add: wf_fields_btree_of)

lemma to_value_id:
  "wf_json j \<Longrightarrow> to_value j = j" and "wf_values js \<Longrightarrow> to_values js = js"
  and "wf_fields m \<Longrightarrow> to_fields m = m"
  by (induction j and js and m rule: to_value_to_values_to_fields.induct)
     (simp_all add: btree_of_id)

subsection \<open>Object access\<close>

text \<open>\<open>Value::get\<close> with a string key: \<open>None\<close> on anything that is not an object.\<close>

fun get :: "json \<Rightarrow> string \<Rightarrow> json option" where
  "get (JObj m) k = bt_get m k"
| "get _ k = None"

text \<open>
  \<open>Map::insert\<close> on an object. A mutable reference into an object (\<open>get_mut\<close>, \<open>as_object_mut\<close>)
  is modelled by writing the changed member back: \<open>set_member\<close>.
\<close>

fun set_member :: "string \<Rightarrow> json \<Rightarrow> json \<Rightarrow> json" where
  "set_member k v (JObj m) = JObj (bt_insert k v m)"
| "set_member k v j = j"

fun is_object :: "json \<Rightarrow> bool" where
  "is_object (JObj m) = True"
| "is_object _ = False"

fun as_str :: "json \<Rightarrow> string option" where
  "as_str (JStr s) = Some s"
| "as_str _ = None"

lemma is_object_iff: "is_object j \<longleftrightarrow> (\<exists>m. j = JObj m)"
  by (cases j) simp_all

lemma get_Some_object: "get j k = Some v \<Longrightarrow> \<exists>m. j = JObj m"
  by (cases j) simp_all

lemma get_set_member [simp]:
  "is_object j \<Longrightarrow> get (set_member k v j) i = (if i = k then Some v else get j i)"
  by (cases j) auto

lemma is_object_set_member [simp]: "is_object (set_member k v j) = is_object j"
  by (cases j) simp_all

lemma wf_set_member [simp]: "wf_json j \<Longrightarrow> wf_json v \<Longrightarrow> wf_json (set_member k v j)"
  by (cases j) auto

lemma wf_get: "wf_json j \<Longrightarrow> get j k = Some v \<Longrightarrow> wf_json v"
  by (cases j) (auto intro: wf_fields_get)

text \<open>A path of keys into nested objects.\<close>

fun get_path :: "json \<Rightarrow> string list \<Rightarrow> json option" where
  "get_path j [] = Some j"
| "get_path j (k # ks) = (case get j k of None \<Rightarrow> None | Some v \<Rightarrow> get_path v ks)"

lemma get_path_append:
  "get_path j (ks @ ls) = (case get_path j ks of None \<Rightarrow> None | Some v \<Rightarrow> get_path v ls)"
  by (induction j ks rule: get_path.induct) (auto split: option.splits)

text \<open>Two well-formed objects with the same members are the same object.\<close>

lemma object_eqI:
  assumes "bt_ok m" and "bt_ok m'" and "\<And>k. get (JObj m) k = get (JObj m') k"
  shows "m = m'"
  by (rule btree_eqI) (use assms in simp_all)

end
