(* ===== verification/Deps.thy ===== *)
theory Deps
  imports Json
begin

section \<open>Third-party code: the parameters of the model\<close>

text \<open>
  The crates the sources call are not part of the repository, so the model takes them as functions:
  \<open>sha2\<close>, \<open>hex\<close>, \<open>base64\<close> (the \<open>STANDARD\<close> engine), \<open>ed25519_compact\<close> and the parser and printers
  of \<open>serde_json\<close>. Every definition that uses one takes the record \<open>deps\<close>. What the code relies on
  is documented behaviour of these crates, written below as one predicate each; a theorem that
  needs one names it as a hypothesis, and its witness gives concrete functions that satisfy it.
\<close>

record deps =
  sha256_digest :: "bytes \<Rightarrow> bytes"
  hex_encode :: "bytes \<Rightarrow> string"
  b64_encode :: "bytes \<Rightarrow> string"
  b64_decode :: "string \<Rightarrow> bytes option"
  ed_public :: "bytes \<Rightarrow> bytes"
  ed_sign :: "bytes \<Rightarrow> bytes \<Rightarrow> bytes"
  ed_pk_from_slice :: "bytes \<Rightarrow> bytes option"
  ed_sig_from_slice :: "bytes \<Rightarrow> bytes option"
  ed_verify :: "bytes \<Rightarrow> bytes \<Rightarrow> bytes \<Rightarrow> bool"
  json_parse :: "bytes \<Rightarrow> json option"
  json_typed :: "bytes \<Rightarrow> json option"
  json_compact :: "json \<Rightarrow> bytes"
  json_pretty :: "json \<Rightarrow> bytes"

text \<open>
  \<open>ed_public seed\<close> and \<open>ed_sign seed msg\<close> are \<open>KeyPair::from_seed(seed)\<close>'s public key and its
  deterministic signature; \<open>ed_verify pk msg sig\<close> is \<open>PublicKey::verify\<close>; \<open>json_parse\<close> reads a
  document, keys in the order written, and \<open>json_typed\<close> does so for a typed deserializer, which only
  scans the values it ignores (so it may accept a document \<open>json_parse\<close> rejects); \<open>json_compact\<close> and \<open>json_pretty\<close> are \<open>to_vec\<close> and
  \<open>to_vec_pretty\<close>.
\<close>

definition sha256_law :: "deps \<Rightarrow> bool" where
  "sha256_law D \<longleftrightarrow> (\<forall>m. length (sha256_digest D m) = 32)"

definition hex_law :: "deps \<Rightarrow> bool" where
  "hex_law D \<longleftrightarrow> (\<forall>b. hex_encode D b = hex_lower b)"

definition b64_alphabet :: "string" where
  "b64_alphabet = ''ABCDEFGHIJKLMNOPQRSTUVWXYZabcdefghijklmnopqrstuvwxyz0123456789+/=''"

definition b64_law :: "deps \<Rightarrow> bool" where
  "b64_law D \<longleftrightarrow> (\<forall>b. b64_decode D (b64_encode D b) = Some b
                    \<and> set (b64_encode D b) \<subseteq> set b64_alphabet)"

definition ed_slice_law :: "deps \<Rightarrow> bool" where
  "ed_slice_law D \<longleftrightarrow>
     (\<forall>b. ed_pk_from_slice D b = (if length b = 32 then Some b else None)
        \<and> ed_sig_from_slice D b = (if length b = 64 then Some b else None))"

definition ed_sign_law :: "deps \<Rightarrow> bool" where
  "ed_sign_law D \<longleftrightarrow>
     (\<forall>seed m. length (ed_public D seed) = 32 \<and> length (ed_sign D seed m) = 64
             \<and> ed_verify D (ed_public D seed) m (ed_sign D seed m))"

text \<open>
  A printed value reads back as itself, also with a line feed after it. Two values do not: without the
  \<open>float_roundtrip\<close> feature a float may lose its last bit, and the parser refuses 128 objects and
  arrays inside one another. So the law is stated for one value at a time (\<open>prints_back\<close>) and assumed
  for those without floats that are less deep (\<open>printable\<close>). It speaks of Rust's strings, which are
  UTF-8, as the printed text is.
\<close>

fun no_float :: "json \<Rightarrow> bool" and no_float_values :: "json list \<Rightarrow> bool"
  and no_float_fields :: "fields \<Rightarrow> bool" where
  "no_float (JNum (Float w)) = False"
| "no_float (JArr xs) = no_float_values xs"
| "no_float (JObj m) = no_float_fields m"
| "no_float _ = True"
| "no_float_values [] = True"
| "no_float_values (x # xs) = (no_float x \<and> no_float_values xs)"
| "no_float_fields [] = True"
| "no_float_fields ((k, v) # m) = (no_float v \<and> no_float_fields m)"

fun nesting :: "json \<Rightarrow> nat" and nesting_values :: "json list \<Rightarrow> nat" and nesting_fields :: "fields \<Rightarrow> nat" where
  "nesting (JArr xs) = Suc (nesting_values xs)"
| "nesting (JObj m) = Suc (nesting_fields m)"
| "nesting _ = 0"
| "nesting_values [] = 0"
| "nesting_values (x # xs) = max (nesting x) (nesting_values xs)"
| "nesting_fields [] = 0"
| "nesting_fields ((k, v) # m) = max (nesting v) (nesting_fields m)"

definition printable :: "json \<Rightarrow> bool" where
  "printable v \<longleftrightarrow> no_float v \<and> nesting v < 128"

definition prints_back :: "deps \<Rightarrow> json \<Rightarrow> bool" where
  "prints_back D v \<longleftrightarrow>
     json_parse D (json_compact D v) = Some v \<and> json_parse D (json_pretty D v) = Some v
     \<and> json_typed D (json_compact D v) = Some v \<and> json_typed D (json_pretty D v) = Some v
     \<and> json_parse D (json_pretty D v @ [0x0A]) = Some v \<and> json_typed D (json_pretty D v @ [0x0A]) = Some v"

definition json_law :: "deps \<Rightarrow> bool" where
  "json_law D \<longleftrightarrow> (\<forall>v. wf_json v \<longrightarrow> printable v \<longrightarrow> prints_back D v \<and> string_from_utf8 (json_pretty D v @ [0x0A]) \<noteq> None)"

text \<open>All the laws at once, for the statements that go through every crate.\<close>

definition crate_laws :: "deps \<Rightarrow> bool" where
  "crate_laws D \<longleftrightarrow> sha256_law D \<and> hex_law D \<and> b64_law D \<and> ed_slice_law D \<and> ed_sign_law D \<and> json_law D"

lemma crate_lawsD:
  assumes "crate_laws D"
  shows "sha256_law D" "hex_law D" "b64_law D" "ed_slice_law D" "ed_sign_law D" "json_law D"
  using assms by (simp_all add: crate_laws_def)

text \<open>Reading a \<open>serde_json::Value\<close> from bytes.\<close>

definition value_from_slice :: "deps \<Rightarrow> bytes \<Rightarrow> json option" where
  "value_from_slice D b = map_option to_value (json_parse D b)"

lemma wf_value_from_slice: "value_from_slice D b = Some v \<Longrightarrow> wf_json v"
  by (auto simp: value_from_slice_def wf_to_value)

lemma value_roundtrip:
  assumes "prints_back D v" and "wf_json v"
  shows "value_from_slice D (json_compact D v) = Some v"
    and "value_from_slice D (json_pretty D v) = Some v"
    and "value_from_slice D (json_pretty D v @ [0x0A]) = Some v"
  using assms by (simp_all add: prints_back_def value_from_slice_def to_value_id)

end
