(* ===== verification/Metadata.thy ===== *)
theory Metadata
  imports Deps
begin

section \<open>The \<open>metadata\<close> crate: types and admission rules\<close>

text \<open>
  \<open>crates/metadata/src/lib.rs\<close>: the \<open>_stage1\<close> / \<open>_stage2\<close> documents as the code types them, and
  the validation both the verifier (stage1) and the emitter (deploy) run. The error values stand
  for the code's message strings, which \<open>meta_error_text\<close> gives.
\<close>

subsection \<open>Types\<close>

datatype url_list = UrlList (urls: "string list")

record payload =
  p_url :: url_list
  p_sha256 :: "string option"
  p_ed25519 :: "string option"
  p_sig_url :: "url_list option"
  p_args :: "string list option"
  p_args_url :: "url_list option"
  p_args_sig_url :: "url_list option"

record manifest_ref =
  m_url :: url_list
  m_ed25519 :: string
  m_sig_url :: "url_list option"
  m_sha256 :: "string option"

datatype entry = Payload_Entry payload | Manifest_Entry manifest_ref

record arch_config =
  ac_entry :: entry
  ac_resolved_manifests :: "manifest_ref list"

record stage_config =
  sc_aarch64 :: "arch_config option"
  sc_x86_64 :: "arch_config option"

record user_data =
  ud_stage1 :: "stage_config option"
  ud_stage2 :: "stage_config option"

datatype profile = Stage0 | Stage1

datatype admit =
    Admit_Sha256 string
  | Admit_Ed25519 string "url_list option" "url_list option" "url_list option"
      \<comment> \<open>\<open>pubkey\<close>, \<open>sig_url\<close>, \<open>args_url\<close>, \<open>args_sig_url\<close>\<close>

datatype meta_error =
    Bad_Url | Bad_Sig_Url | Bad_Args_Url | Bad_Args_Sig_Url | Args_Sig_Needs_Args
  | Both_Modes | No_Mode | Args_Need_Ed25519 | Bad_Sha256 | Pubkey_Length | Pubkey_Base64
  | Bad_Manifest_Url | Bad_Manifest_Sig_Url | Bad_Manifest_Sha256

fun meta_error_text :: "meta_error \<Rightarrow> string" where
  "meta_error_text Bad_Url =
     ''url must be a non-empty http(s):// URL (or list of them), printable ASCII''"
| "meta_error_text Bad_Sig_Url = ''sig_url must be http(s):// URL(s), printable ASCII''"
| "meta_error_text Bad_Args_Url = ''args_url must be http(s):// URL(s), printable ASCII''"
| "meta_error_text Bad_Args_Sig_Url = ''args_sig_url must be http(s):// URL(s), printable ASCII''"
| "meta_error_text Args_Sig_Needs_Args = ''args_sig_url requires args_url''"
| "meta_error_text Both_Modes = ''specify only one of sha256 / ed25519''"
| "meta_error_text No_Mode = ''payload must specify one of sha256 / ed25519''"
| "meta_error_text Args_Need_Ed25519 = ''args_url requires ed25519 signed mode''"
| "meta_error_text Bad_Sha256 = ''sha256 must be exactly 64 hex characters''"
| "meta_error_text Pubkey_Length = ''ed25519 pubkey must decode to 32 bytes''"
| "meta_error_text Pubkey_Base64 = ''ed25519 pubkey must be base64''"
| "meta_error_text Bad_Manifest_Url =
     ''manifest url must be a non-empty http(s):// URL (or list), printable ASCII''"
| "meta_error_text Bad_Manifest_Sig_Url =
     ''manifest sig_url must be http(s):// URL(s), printable ASCII''"
| "meta_error_text Bad_Manifest_Sha256 = ''manifest sha256 must be exactly 64 hex characters''"

text \<open>\<open>StageConfig::for_this_arch\<close>, with the architecture the crate was compiled for.\<close>

datatype arch = Aarch64 | X86_64 | Other_Arch

fun for_this_arch :: "arch \<Rightarrow> stage_config \<Rightarrow> arch_config option" where
  "for_this_arch Aarch64 s = sc_aarch64 s"
| "for_this_arch X86_64 s = sc_x86_64 s"
| "for_this_arch Other_Arch s = None"

subsection \<open>Validation\<close>

definition ok_url :: "string \<Rightarrow> bool \<Rightarrow> bool" where
  "ok_url s allow_https =
     ((starts_with s ''http://'' \<or> (allow_https \<and> starts_with s ''https://''))
      \<and> list_all is_ascii_graphic s)"

definition ok_list :: "url_list \<Rightarrow> bool \<Rightarrow> bool" where
  "ok_list l allow_https = (urls l \<noteq> [] \<and> list_all (\<lambda>s. ok_url s allow_https) (urls l))"

definition ok_sha256 :: "string \<Rightarrow> bool" where
  "ok_sha256 hex = (length hex = 64 \<and> list_all is_ascii_hexdigit hex)"

definition ok_pubkey :: "deps \<Rightarrow> string \<Rightarrow> meta_error + unit" where
  "ok_pubkey D s =
     (case b64_decode D (str_trim s) of
        Some b \<Rightarrow> if length b = 32 then Inr () else Inl Pubkey_Length
      | None \<Rightarrow> Inl Pubkey_Base64)"

text \<open>\<open>Option::is_some_and(|l| !ok_list(l, allow_https))\<close>.\<close>

definition bad_list :: "url_list option \<Rightarrow> bool \<Rightarrow> bool" where
  "bad_list ul allow_https = (case ul of None \<Rightarrow> False | Some l \<Rightarrow> \<not> ok_list l allow_https)"

definition admission :: "deps \<Rightarrow> payload \<Rightarrow> profile \<Rightarrow> meta_error + admit" where
  "admission D p profile =
     (let allow_https = (profile = Stage1) in
      if \<not> ok_list (p_url p) allow_https then Inl Bad_Url
      else if bad_list (p_sig_url p) allow_https then Inl Bad_Sig_Url
      else if bad_list (p_args_url p) allow_https then Inl Bad_Args_Url
      else if bad_list (p_args_sig_url p) allow_https then Inl Bad_Args_Sig_Url
      else if p_args_sig_url p \<noteq> None \<and> p_args_url p = None then Inl Args_Sig_Needs_Args
      else (case (p_sha256 p, p_ed25519 p) of
              (Some _, Some _) \<Rightarrow> Inl Both_Modes
            | (None, None) \<Rightarrow> Inl No_Mode
            | (Some hex, None) \<Rightarrow>
                if p_args_url p \<noteq> None then Inl Args_Need_Ed25519
                else if \<not> ok_sha256 hex then Inl Bad_Sha256
                else Inr (Admit_Sha256 hex)
            | (None, Some pubkey) \<Rightarrow>
                and_then (ok_pubkey D pubkey) (\<lambda>_.
                  Inr (Admit_Ed25519 pubkey (p_sig_url p) (p_args_url p) (p_args_sig_url p)))))"

definition manifest_validate :: "deps \<Rightarrow> manifest_ref \<Rightarrow> profile \<Rightarrow> meta_error + unit" where
  "manifest_validate D m profile =
     (let allow_https = (profile = Stage1) in
      if \<not> ok_list (m_url m) allow_https then Inl Bad_Manifest_Url
      else if bad_list (m_sig_url m) allow_https then Inl Bad_Manifest_Sig_Url
      else if (case m_sha256 m of None \<Rightarrow> False | Some h \<Rightarrow> \<not> ok_sha256 h) then Inl Bad_Manifest_Sha256
      else ok_pubkey D (m_ed25519 m))"

definition arch_validate :: "deps \<Rightarrow> arch_config \<Rightarrow> profile \<Rightarrow> meta_error + unit" where
  "arch_validate D ac profile =
     (case ac_entry ac of
        Payload_Entry p \<Rightarrow> and_then (admission D p profile) (\<lambda>_. Inr ())
      | Manifest_Entry m \<Rightarrow> manifest_validate D m profile)"

subsection \<open>What validation accepts\<close>

text \<open>The same rules, as the documents state them: one declarative predicate per variant.\<close>

definition url_allowed :: "profile \<Rightarrow> string \<Rightarrow> bool" where
  "url_allowed profile u \<longleftrightarrow>
     (\<forall>c \<in> set u. 33 \<le> (of_char c :: nat) \<and> (of_char c :: nat) \<le> 126)
     \<and> ((\<exists>r. u = ''http://'' @ r) \<or> profile = Stage1 \<and> (\<exists>r. u = ''https://'' @ r))"

definition list_allowed :: "profile \<Rightarrow> url_list \<Rightarrow> bool" where
  "list_allowed profile l \<longleftrightarrow> urls l \<noteq> [] \<and> (\<forall>u \<in> set (urls l). url_allowed profile u)"

definition opt_list_allowed :: "profile \<Rightarrow> url_list option \<Rightarrow> bool" where
  "opt_list_allowed profile ul \<longleftrightarrow> (\<forall>l. ul = Some l \<longrightarrow> list_allowed profile l)"

definition key_allowed :: "deps \<Rightarrow> string \<Rightarrow> bool" where
  "key_allowed D k \<longleftrightarrow> (\<exists>b. b64_decode D (str_trim k) = Some b \<and> length b = 32)"

definition payload_allowed :: "deps \<Rightarrow> profile \<Rightarrow> payload \<Rightarrow> bool" where
  "payload_allowed D profile p \<longleftrightarrow>
     list_allowed profile (p_url p) \<and> opt_list_allowed profile (p_sig_url p)
     \<and> opt_list_allowed profile (p_args_url p) \<and> opt_list_allowed profile (p_args_sig_url p)
     \<and> (p_args_url p = None \<longrightarrow> p_args_sig_url p = None)
     \<and> ((\<exists>h. p_sha256 p = Some h \<and> ok_sha256 h \<and> p_ed25519 p = None \<and> p_args_url p = None)
        \<or> (\<exists>k. p_ed25519 p = Some k \<and> key_allowed D k \<and> p_sha256 p = None))"

definition manifest_allowed :: "deps \<Rightarrow> profile \<Rightarrow> manifest_ref \<Rightarrow> bool" where
  "manifest_allowed D profile m \<longleftrightarrow>
     list_allowed profile (m_url m) \<and> opt_list_allowed profile (m_sig_url m)
     \<and> (\<forall>h. m_sha256 m = Some h \<longrightarrow> ok_sha256 h) \<and> key_allowed D (m_ed25519 m)"

lemma ok_url_iff: "ok_url u (profile = Stage1) \<longleftrightarrow> url_allowed profile u"
  by (auto simp: ok_url_def url_allowed_def starts_with_iff list_all_iff is_ascii_graphic_def)

lemma ok_list_iff: "ok_list l (profile = Stage1) \<longleftrightarrow> list_allowed profile l"
  by (simp add: ok_list_def list_allowed_def list_all_iff ok_url_iff)

lemma bad_list_iff: "bad_list ul (profile = Stage1) \<longleftrightarrow> \<not> opt_list_allowed profile ul"
  by (cases ul) (simp_all add: bad_list_def opt_list_allowed_def ok_list_iff)

lemma ok_pubkey_Inr_iff: "ok_pubkey D k = Inr u \<longleftrightarrow> key_allowed D k"
  by (auto simp: ok_pubkey_def key_allowed_def split: option.splits)

text \<open>Admission succeeds with a mode exactly on the allowed payloads, and the mode is the pin.\<close>

definition mode_of :: "payload \<Rightarrow> admit" where
  "mode_of p = (case p_sha256 p of
      Some h \<Rightarrow> Admit_Sha256 h
    | None \<Rightarrow> Admit_Ed25519 (the (p_ed25519 p)) (p_sig_url p) (p_args_url p) (p_args_sig_url p))"

lemma admission_Inr_iff:
  "admission D p profile = Inr mode \<longleftrightarrow> payload_allowed D profile p \<and> mode = mode_of p"
  unfolding admission_def Let_def ok_list_iff bad_list_iff payload_allowed_def mode_of_def
  by (cases "p_sha256 p"; cases "p_ed25519 p") (auto simp: and_then_Inr_iff ok_pubkey_Inr_iff)

lemma manifest_validate_Inr_iff:
  "manifest_validate D m profile = Inr u \<longleftrightarrow> manifest_allowed D profile m"
  unfolding manifest_validate_def Let_def ok_list_iff bad_list_iff manifest_allowed_def
  by (auto simp: ok_pubkey_Inr_iff split: option.splits)

lemma arch_validate_Inr_iff:
  "arch_validate D ac profile = Inr u \<longleftrightarrow>
     (case ac_entry ac of Payload_Entry p \<Rightarrow> payload_allowed D profile p
                        | Manifest_Entry m \<Rightarrow> manifest_allowed D profile m)"
  by (auto simp: arch_validate_def and_then_Inr_iff admission_Inr_iff manifest_validate_Inr_iff
      split: entry.splits)

text \<open>The http-only profile accepts no more than the other.\<close>

lemma url_allowed_mono: "url_allowed Stage0 u \<Longrightarrow> url_allowed Stage1 u"
  by (auto simp: url_allowed_def)

lemma list_allowed_mono: "list_allowed Stage0 l \<Longrightarrow> list_allowed Stage1 l"
  by (auto simp: list_allowed_def url_allowed_mono)

lemma payload_allowed_mono: "payload_allowed D Stage0 p \<Longrightarrow> payload_allowed D Stage1 p"
  unfolding payload_allowed_def opt_list_allowed_def by (auto simp: list_allowed_mono)

lemma manifest_allowed_mono: "manifest_allowed D Stage0 m \<Longrightarrow> manifest_allowed D Stage1 m"
  unfolding manifest_allowed_def opt_list_allowed_def by (auto simp: list_allowed_mono)

end
