(* ===== verification/Metadata_Wire.thy ===== *)
theory Metadata_Wire
  imports Metadata "HOL-Library.Monad_Syntax"
begin

section \<open>The \<open>metadata\<close> crate: the wire format\<close>

text \<open>
  How the types of \<open>crates/metadata/src/lib.rs\<close> are read from and written to JSON, as their serde
  attributes say: \<open>rename\<close>, \<open>default\<close>, \<open>skip_serializing_if\<close>, the hand-written \<open>UrlList\<close>, the
  externally tagged \<open>Entry\<close> and its \<open>flatten\<close> in \<open>ArchConfig\<close>. \<open>None\<close> is a serde error.

  The derive rules used: a struct is read from an object (a field given twice is an error, an
  unknown field is ignored) or from an array of its fields in order; a missing \<open>default\<close> field takes
  its default; \<open>null\<close> is \<open>None\<close> for an \<open>Option\<close>; a flattened externally tagged enum takes the first
  member, in the order met, whose key names a variant; a struct with a flattened part is read from
  an object only.
\<close>

subsection \<open>Readers\<close>

fun de_string :: "json \<Rightarrow> string option" where
  "de_string (JStr s) = Some s"
| "de_string _ = None"

definition de_list :: "(json \<Rightarrow> 'a option) \<Rightarrow> json \<Rightarrow> 'a list option" where
  "de_list de j = (case j of JArr xs \<Rightarrow> those (map de xs) | _ \<Rightarrow> None)"

definition de_option :: "(json \<Rightarrow> 'a option) \<Rightarrow> json \<Rightarrow> 'a option option" where
  "de_option de j = (if j = JNull then Some None else map_option Some (de j))"

definition struct_fields :: "string list \<Rightarrow> json \<Rightarrow> (string \<Rightarrow> json option) option" where
  "struct_fields names j =
     (case j of
        JObj kvs \<Rightarrow> if distinct (filter (\<lambda>k. k \<in> set names) (map fst kvs)) then Some (bt_get kvs) else None
      | JArr xs \<Rightarrow> if length xs \<le> length names then Some (map_of (zip names xs)) else None
      | _ \<Rightarrow> None)"

definition required :: "(json \<Rightarrow> 'a option) \<Rightarrow> json option \<Rightarrow> 'a option" where
  "required de f = (case f of None \<Rightarrow> None | Some j \<Rightarrow> de j)"

definition or_default :: "'a \<Rightarrow> (json \<Rightarrow> 'a option) \<Rightarrow> json option \<Rightarrow> 'a option" where
  "or_default d de f = (case f of None \<Rightarrow> Some d | Some j \<Rightarrow> de j)"

definition opt_field :: "(json \<Rightarrow> 'a option) \<Rightarrow> json option \<Rightarrow> 'a option option" where
  "opt_field de = or_default None (de_option de)"

text \<open>\<open>OneOrMany\<close>: a string, else an array of strings.\<close>

definition de_url_list :: "json \<Rightarrow> url_list option" where
  "de_url_list j = (case j of JStr s \<Rightarrow> Some (UrlList [s]) | _ \<Rightarrow> map_option UrlList (de_list de_string j))"

definition payload_names :: "string list" where
  "payload_names = [''url'', ''sha256'', ''ed25519'', ''sig_url'', ''args'', ''args_url'', ''args_sig_url'']"

definition de_payload :: "json \<Rightarrow> payload option" where
  "de_payload j = do {
     f \<leftarrow> struct_fields payload_names j;
     url \<leftarrow> required de_url_list (f ''url'');
     sha256 \<leftarrow> opt_field de_string (f ''sha256'');
     ed25519 \<leftarrow> opt_field de_string (f ''ed25519'');
     sig_url \<leftarrow> opt_field de_url_list (f ''sig_url'');
     args \<leftarrow> opt_field (de_list de_string) (f ''args'');
     args_url \<leftarrow> opt_field de_url_list (f ''args_url'');
     args_sig_url \<leftarrow> opt_field de_url_list (f ''args_sig_url'');
     Some \<lparr>p_url = url, p_sha256 = sha256, p_ed25519 = ed25519, p_sig_url = sig_url, p_args = args,
           p_args_url = args_url, p_args_sig_url = args_sig_url\<rparr> }"

definition manifest_names :: "string list" where
  "manifest_names = [''url'', ''ed25519'', ''sig_url'', ''sha256'']"

definition de_manifest_ref :: "json \<Rightarrow> manifest_ref option" where
  "de_manifest_ref j = do {
     f \<leftarrow> struct_fields manifest_names j;
     url \<leftarrow> required de_url_list (f ''url'');
     ed25519 \<leftarrow> required de_string (f ''ed25519'');
     sig_url \<leftarrow> opt_field de_url_list (f ''sig_url'');
     sha256 \<leftarrow> opt_field de_string (f ''sha256'');
     Some \<lparr>m_url = url, m_ed25519 = ed25519, m_sig_url = sig_url, m_sha256 = sha256\<rparr> }"

definition is_variant :: "string \<Rightarrow> bool" where
  "is_variant k = (k = ''payload'' \<or> k = ''manifest'')"

definition de_entry :: "fields \<Rightarrow> entry option" where
  "de_entry kvs =
     (case find (\<lambda>p. is_variant (fst p)) kvs of
        None \<Rightarrow> None
      | Some (k, v) \<Rightarrow>
          if k = ''payload'' then map_option Payload_Entry (de_payload v)
          else map_option Manifest_Entry (de_manifest_ref v))"

definition de_arch_config :: "json \<Rightarrow> arch_config option" where
  "de_arch_config j =
     (case j of
        JObj kvs \<Rightarrow> do {
          f \<leftarrow> struct_fields [''resolved_manifests''] j;
          entry \<leftarrow> de_entry kvs;
          resolved \<leftarrow> or_default [] (de_list de_manifest_ref) (f ''resolved_manifests'');
          Some \<lparr>ac_entry = entry, ac_resolved_manifests = resolved\<rparr> }
      | _ \<Rightarrow> None)"

definition de_stage_config :: "json \<Rightarrow> stage_config option" where
  "de_stage_config j = do {
     f \<leftarrow> struct_fields [''aarch64'', ''x86_64''] j;
     aarch64 \<leftarrow> opt_field de_arch_config (f ''aarch64'');
     x86_64 \<leftarrow> opt_field de_arch_config (f ''x86_64'');
     Some \<lparr>sc_aarch64 = aarch64, sc_x86_64 = x86_64\<rparr> }"

definition de_user_data :: "json \<Rightarrow> user_data option" where
  "de_user_data j = do {
     f \<leftarrow> struct_fields [''_stage1'', ''_stage2''] j;
     stage1 \<leftarrow> opt_field de_stage_config (f ''_stage1'');
     stage2 \<leftarrow> opt_field de_stage_config (f ''_stage2'');
     Some \<lparr>ud_stage1 = stage1, ud_stage2 = stage2\<rparr> }"

text \<open>\<open>serde_json::from_slice\<close> into a \<open>Vec<String>\<close>, and into a \<open>UserData\<close>.\<close>

definition strings_from_slice :: "deps \<Rightarrow> bytes \<Rightarrow> string list option" where
  "strings_from_slice D b = Option.bind (json_typed D b) (de_list de_string)"

definition user_data_from_slice :: "deps \<Rightarrow> bytes \<Rightarrow> user_data option" where
  "user_data_from_slice D b = Option.bind (json_typed D b) de_user_data"

subsection \<open>Writers (\<open>serde_json::to_value\<close>)\<close>

definition ser_url_list :: "url_list \<Rightarrow> json" where
  "ser_url_list l = (case urls l of [one] \<Rightarrow> JStr one | many \<Rightarrow> JArr (map JStr many))"

definition member :: "string \<Rightarrow> json \<Rightarrow> fields" where
  "member k j = [(k, j)]"

text \<open>\<open>skip_serializing_if = "Option::is_none"\<close>.\<close>

definition opt_member :: "string \<Rightarrow> ('a \<Rightarrow> json) \<Rightarrow> 'a option \<Rightarrow> fields" where
  "opt_member k ser x = (case x of None \<Rightarrow> [] | Some a \<Rightarrow> [(k, ser a)])"

definition ser_strings :: "string list \<Rightarrow> json" where
  "ser_strings xs = JArr (map JStr xs)"

definition ser_payload :: "payload \<Rightarrow> json" where
  "ser_payload p = JObj (btree_of
     (member ''url'' (ser_url_list (p_url p))
      @ opt_member ''sha256'' JStr (p_sha256 p)
      @ opt_member ''ed25519'' JStr (p_ed25519 p)
      @ opt_member ''sig_url'' ser_url_list (p_sig_url p)
      @ opt_member ''args'' ser_strings (p_args p)
      @ opt_member ''args_url'' ser_url_list (p_args_url p)
      @ opt_member ''args_sig_url'' ser_url_list (p_args_sig_url p)))"

definition ser_manifest_ref :: "manifest_ref \<Rightarrow> json" where
  "ser_manifest_ref m = JObj (btree_of
     (member ''url'' (ser_url_list (m_url m))
      @ member ''ed25519'' (JStr (m_ed25519 m))
      @ opt_member ''sig_url'' ser_url_list (m_sig_url m)
      @ opt_member ''sha256'' JStr (m_sha256 m)))"

definition ser_manifest_refs :: "manifest_ref list \<Rightarrow> json" where
  "ser_manifest_refs ms = JArr (map ser_manifest_ref ms)"

fun ser_entry :: "entry \<Rightarrow> fields" where
  "ser_entry (Payload_Entry p) = member ''payload'' (ser_payload p)"
| "ser_entry (Manifest_Entry m) = member ''manifest'' (ser_manifest_ref m)"

definition ser_arch_config :: "arch_config \<Rightarrow> json" where
  "ser_arch_config ac = JObj (btree_of
     (ser_entry (ac_entry ac)
      @ (if ac_resolved_manifests ac = [] then []
         else member ''resolved_manifests'' (ser_manifest_refs (ac_resolved_manifests ac)))))"

definition ser_stage_config :: "stage_config \<Rightarrow> json" where
  "ser_stage_config s = JObj (btree_of
     (opt_member ''aarch64'' ser_arch_config (sc_aarch64 s)
      @ opt_member ''x86_64'' ser_arch_config (sc_x86_64 s)))"

definition ser_user_data :: "user_data \<Rightarrow> json" where
  "ser_user_data u = JObj (btree_of
     (opt_member ''_stage1'' ser_stage_config (ud_stage1 u)
      @ opt_member ''_stage2'' ser_stage_config (ud_stage2 u)))"

subsection \<open>Round trips\<close>

text \<open>
  A type whose writer never produces \<open>null\<close> and whose reader inverts its writer. The laws carry over
  to optional fields and arrays, once for every such type.
\<close>

locale wire_codec =
  fixes ser :: "'a \<Rightarrow> json" and de :: "json \<Rightarrow> 'a option"
  assumes de_ser: "de (ser x) = Some x"
    and ser_not_null: "ser x \<noteq> JNull"
    and ser_wf: "wf_json (ser x)"
    and ser_no_float: "no_float (ser x)"
begin

lemma ser_inject: "ser x = ser y \<longleftrightarrow> x = y"
  by (metis de_ser option.inject)

lemma de_list_ser: "de_list de (JArr (map ser xs)) = Some xs"
  by (induction xs) (simp_all add: de_list_def de_ser)

lemma opt_field_ser: "opt_field de (map_option ser x) = Some x"
  by (cases x) (simp_all add: opt_field_def or_default_def de_option_def de_ser ser_not_null)

lemma required_ser: "required de (Some (ser x)) = Some x"
  by (simp add: required_def de_ser)

lemma wf_opt_member: "wf_fields (opt_member k ser x)"
  by (cases x) (simp_all add: opt_member_def ser_wf)

lemma no_float_opt_member: "no_float_fields (opt_member k ser x)"
  by (cases x) (simp_all add: opt_member_def ser_no_float)

lemma wf_array: "wf_json (JArr (map ser xs))"
  by (simp add: wf_values_iff ser_wf)

lemma no_float_array: "no_float (JArr (map ser xs))"
  by (induction xs) (simp_all add: ser_no_float)

end

subsubsection \<open>Reading the members of a written object\<close>

named_theorems wire_simps \<open>reading back what a writer wrote\<close>

definition written :: "fields \<Rightarrow> string \<Rightarrow> json option" where
  "written kvs k = map_of (rev kvs) k"

lemma written_opt_member [wire_simps]:
  "written (opt_member k ser x) j = (if j = k then map_option ser x else None)"
  by (cases x) (simp_all add: opt_member_def written_def)

lemma written_member [wire_simps]: "written (member k v) j = (if j = k then Some v else None)"
  by (simp add: member_def written_def)

lemma written_Nil [wire_simps]: "written [] j = None"
  by (simp add: written_def)

definition or_earlier :: "'a option \<Rightarrow> 'a option \<Rightarrow> 'a option" where
  "or_earlier x y = (case x of Some v \<Rightarrow> Some v | None \<Rightarrow> y)"

lemma or_earlier_simps [wire_simps]:
  "or_earlier None y = y" "or_earlier x None = x" "or_earlier (Some v) y = Some v"
  by (cases x; simp add: or_earlier_def)+

lemma written_append [wire_simps]:
  "written (xs @ ys) k = or_earlier (written ys k) (written xs k)"
  by (simp add: written_def or_earlier_def map_add_def split: option.split)

lemma bt_get_written [wire_simps]: "bt_get (btree_of kvs) k = written kvs k"
  by (simp add: bt_get_btree_of written_def)

lemma struct_fields_object: "bt_ok m \<Longrightarrow> struct_fields names (JObj m) = Some (bt_get m)"
  by (simp add: struct_fields_def bt_ok_distinct)

lemma struct_fields_written [wire_simps]:
  "struct_fields names (JObj (btree_of kvs)) = Some (written kvs)"
  by (simp add: struct_fields_object bt_get_written fun_eq_iff)

lemma no_float_fields_iff: "no_float_fields m \<longleftrightarrow> (\<forall>p \<in> set m. no_float (snd p))"
  by (induction m) auto

lemma no_float_append [simp]:
  "no_float_fields (xs @ ys) \<longleftrightarrow> no_float_fields xs \<and> no_float_fields ys"
  by (auto simp: no_float_fields_iff)

lemma wf_fields_append [simp]: "wf_fields (xs @ ys) \<longleftrightarrow> wf_fields xs \<and> wf_fields ys"
  by (auto simp: wf_fields_iff)

lemma no_float_insert: "no_float_fields m \<Longrightarrow> no_float v \<Longrightarrow> no_float_fields (bt_insert k v m)"
  using set_bt_insert[of k v m] by (fastforce simp: no_float_fields_iff)

lemma no_float_btree_of: "no_float_fields kvs \<Longrightarrow> no_float_fields (btree_of kvs)"
  using set_btree_of[of kvs] by (auto simp: no_float_fields_iff)

lemma written_object:
  assumes "wf_fields kvs" and "no_float_fields kvs"
  shows "wf_json (JObj (btree_of kvs))" and "no_float (JObj (btree_of kvs))"
  using assms by (simp_all add: wf_fields_btree_of no_float_btree_of)

lemma member_fields [simp]:
  "wf_fields (member k v) \<longleftrightarrow> wf_json v"
  "no_float_fields (member k v) \<longleftrightarrow> no_float v"
  by (simp_all add: member_def)

interpretation string_wire: wire_codec JStr de_string
  by unfold_locales simp_all

lemmas string_facts =
  string_wire.opt_field_ser string_wire.required_ser string_wire.wf_opt_member
  string_wire.no_float_opt_member string_wire.de_list_ser

interpretation strings_wire: wire_codec ser_strings "de_list de_string"
  by unfold_locales
     (simp_all add: ser_strings_def string_wire.de_list_ser string_wire.wf_array
       string_wire.no_float_array del: wf_json.simps no_float.simps)

interpretation url_list_wire: wire_codec ser_url_list de_url_list
proof
  fix x :: url_list
  obtain us where x: "x = UrlList us" by (cases x) simp
  show "de_url_list (ser_url_list x) = Some x"
    by (cases us rule: remdups_adj.cases)
       (use string_wire.de_list_ser[of us] in \<open>simp_all add: x ser_url_list_def de_url_list_def\<close>)
  show "ser_url_list x \<noteq> JNull"
    by (cases us rule: remdups_adj.cases) (simp_all add: x ser_url_list_def)
  show "wf_json (ser_url_list x)"
    by (cases us rule: remdups_adj.cases) (auto simp: x ser_url_list_def wf_values_iff)
  show "no_float (ser_url_list x)"
    by (cases us rule: remdups_adj.cases)
       (use string_wire.no_float_array[of us] in \<open>simp_all add: x ser_url_list_def\<close>)
qed

lemmas field_facts =
  string_facts strings_wire.opt_field_ser strings_wire.wf_opt_member strings_wire.no_float_opt_member
  url_list_wire.opt_field_ser url_list_wire.required_ser url_list_wire.wf_opt_member
  url_list_wire.no_float_opt_member url_list_wire.ser_wf url_list_wire.ser_no_float

interpretation payload_wire: wire_codec ser_payload de_payload
proof
  fix x :: payload
  show "de_payload (ser_payload x) = Some x"
    unfolding de_payload_def ser_payload_def
    by (simp add: wire_simps field_facts)
  show "wf_json (ser_payload x)" "no_float (ser_payload x)"
    unfolding ser_payload_def by (rule written_object; simp add: field_facts)+
qed (simp add: ser_payload_def)

interpretation manifest_ref_wire: wire_codec ser_manifest_ref de_manifest_ref
proof
  fix x :: manifest_ref
  show "de_manifest_ref (ser_manifest_ref x) = Some x"
    unfolding de_manifest_ref_def ser_manifest_ref_def
    by (simp add: wire_simps field_facts)
  show "wf_json (ser_manifest_ref x)" "no_float (ser_manifest_ref x)"
    unfolding ser_manifest_ref_def by (rule written_object; simp add: field_facts)+
qed (simp add: ser_manifest_ref_def)

subsubsection \<open>The union in a \<open>Value\<close>\<close>

text \<open>
  A \<open>Value\<close> keeps its members sorted, and \<open>manifest\<close> sorts before \<open>payload\<close>: where both keys are
  present the manifest is the variant taken.
\<close>

definition de_variant :: "json option \<Rightarrow> json option \<Rightarrow> entry option" where
  "de_variant manifest payload =
     (case manifest of
        Some v \<Rightarrow> map_option Manifest_Entry (de_manifest_ref v)
      | None \<Rightarrow> (case payload of
          Some v \<Rightarrow> map_option Payload_Entry (de_payload v)
        | None \<Rightarrow> None))"

lemma find_variant:
  "bt_ok m \<Longrightarrow> find (\<lambda>p. is_variant (fst p)) m =
     (case bt_get m ''manifest'' of
        Some v \<Rightarrow> Some (''manifest'', v)
      | None \<Rightarrow> map_option (Pair ''payload'') (bt_get m ''payload''))"
proof (induction m)
  case Nil
  then show ?case by simp
next
  case (Cons p m)
  obtain k v where p: "p = (k, v)" by fastforce
  have manifest_first: "''manifest'' < (''payload'' :: string)" by (simp add: less_char_def)
  show ?case
  proof (cases "k = ''payload''")
    case True
    have "''manifest'' \<notin> fst ` set m"
    proof
      assume "''manifest'' \<in> fst ` set m"
      then obtain b where "(''manifest'', b) \<in> set m" by auto
      moreover from True Cons.prems p have "\<forall>q \<in> set m. ''payload'' < fst q" by simp
      ultimately have "''payload'' < fst (''manifest'', b)" by (rule bspec[rotated])
      then have "''payload'' < (''manifest'' :: string)" by (simp only: fst_conv)
      with manifest_first show False by (rule order.asym)
    qed
    then have "bt_get m ''manifest'' = None" by (simp add: bt_get_None_iff)
    with p True show ?thesis by (simp add: is_variant_def)
  next
    case False
    with Cons p show ?thesis by (auto simp: is_variant_def split: option.split)
  qed
qed

lemma de_entry_value:
  "bt_ok m \<Longrightarrow> de_entry m = de_variant (bt_get m ''manifest'') (bt_get m ''payload'')"
  by (auto simp: de_entry_def find_variant de_variant_def split: option.splits)

lemma de_arch_config_value:
  "bt_ok m \<Longrightarrow> de_arch_config (JObj m) = do {
     entry \<leftarrow> de_variant (bt_get m ''manifest'') (bt_get m ''payload'');
     resolved \<leftarrow> or_default [] (de_list de_manifest_ref) (bt_get m ''resolved_manifests'');
     Some \<lparr>ac_entry = entry, ac_resolved_manifests = resolved\<rparr> }"
  by (simp add: de_arch_config_def struct_fields_object de_entry_value)

lemmas ref_facts = manifest_ref_wire.ser_wf manifest_ref_wire.ser_no_float
  manifest_ref_wire.wf_array manifest_ref_wire.no_float_array manifest_ref_wire.de_list_ser
  payload_wire.ser_wf payload_wire.ser_no_float payload_wire.de_ser manifest_ref_wire.de_ser

interpretation arch_config_wire: wire_codec ser_arch_config de_arch_config
proof
  fix x :: arch_config
  show "de_arch_config (ser_arch_config x) = Some x"
    by (cases "ac_entry x")
       (simp_all add: ser_arch_config_def de_arch_config_value ser_manifest_refs_def
         de_variant_def or_default_def ref_facts wire_simps)
  show "wf_json (ser_arch_config x)" "no_float (ser_arch_config x)"
    unfolding ser_arch_config_def
    by (rule written_object; cases "ac_entry x"; simp add: ref_facts ser_manifest_refs_def
        del: wf_json.simps no_float.simps)+
qed (simp add: ser_arch_config_def)

interpretation stage_config_wire: wire_codec ser_stage_config de_stage_config
proof
  fix x :: stage_config
  show "de_stage_config (ser_stage_config x) = Some x"
    by (simp add: de_stage_config_def ser_stage_config_def wire_simps arch_config_wire.opt_field_ser)
  show "wf_json (ser_stage_config x)" "no_float (ser_stage_config x)"
    unfolding ser_stage_config_def
    by (rule written_object; simp add: arch_config_wire.wf_opt_member arch_config_wire.no_float_opt_member)+
qed (simp add: ser_stage_config_def)

interpretation user_data_wire: wire_codec ser_user_data de_user_data
proof
  fix x :: user_data
  show "de_user_data (ser_user_data x) = Some x"
    by (simp add: de_user_data_def ser_user_data_def wire_simps stage_config_wire.opt_field_ser)
  show "wf_json (ser_user_data x)" "no_float (ser_user_data x)"
    unfolding ser_user_data_def
    by (rule written_object; simp add: stage_config_wire.wf_opt_member stage_config_wire.no_float_opt_member)+
qed (simp add: ser_user_data_def)

subsection \<open>How deep a written document is\<close>

lemma nesting_le:
  "nesting_values xs \<le> n \<longleftrightarrow> (\<forall>x \<in> set xs. nesting x \<le> n)"
  "nesting_fields m \<le> n \<longleftrightarrow> (\<forall>p \<in> set m. nesting (snd p) \<le> n)"
  by (induction xs; auto) (induction m; auto)

lemma nesting_object: "(\<forall>p \<in> set kvs. nesting (snd p) \<le> n) \<Longrightarrow> nesting (JObj (btree_of kvs)) \<le> Suc n"
  using set_btree_of[of kvs] by (auto simp: nesting_le)

lemma nesting_opt_member: "(\<And>x. nesting (ser x) \<le> n) \<Longrightarrow> \<forall>p \<in> set (opt_member k ser x). nesting (snd p) \<le> n"
  by (auto simp: opt_member_def split: option.splits)

lemma nesting_strings: "nesting (JArr (map JStr xs)) \<le> Suc 0"
  by (induction xs) auto

lemma nesting_urls: "nesting (ser_url_list l) \<le> Suc 0" "nesting (ser_strings xs) \<le> Suc 0"
  using nesting_strings[of "urls l"] nesting_strings[of xs]
  by (auto simp: ser_url_list_def ser_strings_def split: list.split)

lemma nesting_refs: "nesting (ser_payload p) \<le> 2" "nesting (ser_manifest_ref m) \<le> 2"
proof -
  have s: "nesting (JStr x) \<le> Suc 0" for x by simp
  note member = nesting_opt_member[of ser_url_list, OF nesting_urls(1)] nesting_opt_member[of ser_strings, OF nesting_urls(2)]
    nesting_opt_member[of JStr, OF s] nesting_urls
  have two: "(2::nat) = Suc (Suc 0)" by simp
  show "nesting (ser_payload p) \<le> 2" "nesting (ser_manifest_ref m) \<le> 2"
    unfolding ser_payload_def ser_manifest_ref_def two
    by (rule nesting_object; simp add: ball_Un member member_def)+
qed

lemma nesting_arch_config: "nesting (ser_arch_config ac) \<le> 4"
proof -
  have refs: "nesting (ser_payload p) \<le> 3" "nesting (ser_manifest_ref m) \<le> 3" for p m
    using nesting_refs(1)[of p] nesting_refs(2)[of m] by linarith+
  have "nesting_values (map ser_manifest_ref ms) \<le> 2" for ms
    by (simp add: nesting_le nesting_refs)
  then have "nesting (ser_manifest_refs ms) \<le> 3" for ms
    by (simp add: ser_manifest_refs_def)
  with refs have "\<forall>p \<in> set (ser_entry (ac_entry ac)
      @ (if ac_resolved_manifests ac = [] then []
         else member ''resolved_manifests'' (ser_manifest_refs (ac_resolved_manifests ac)))). nesting (snd p) \<le> 3"
    by (cases "ac_entry ac") (simp_all add: member_def ball_Un)
  from nesting_object[OF this] show ?thesis by (simp add: ser_arch_config_def)
qed

end
