(* ===== verification/Cpio.thy ===== *)
theory Cpio
  imports Ordered_Map
begin

unbundle bit_operations_syntax

section \<open>mkuki: the newc cpio writer\<close>

text \<open>
  \<open>crates/mkuki/src/cpio.rs\<close>: entries keyed by their normalized path, rendered in bytewise order
  with sequential inodes and no times or owners. Directory walking (\<open>walkdir\<close> and the file system)
  and tar reading (the \<open>tar\<close> crate) are not part of the sources: what they yield is the input here,
  item by item, with each call that can fail as an \<open>option\<close>. \<open>u32\<close> and \<open>u64\<close> arithmetic is on words.
\<close>

definition S_IFREG :: u32 where "S_IFREG = 0x8000"
definition S_IFDIR :: u32 where "S_IFDIR = 0x4000"
definition S_IFLNK :: u32 where "S_IFLNK = 0xA000"
definition S_IFCHR :: u32 where "S_IFCHR = 0x2000"
definition S_IFBLK :: u32 where "S_IFBLK = 0x6000"
definition S_IFIFO :: u32 where "S_IFIFO = 0x1000"

record centry =
  e_name :: string
  e_mode :: u32
  e_nlink :: u32
  e_rdevmajor :: u32
  e_rdevminor :: u32
  e_data :: bytes

type_synonym builder = "(string, centry) btree"

definition new_builder :: builder where
  "new_builder = []"

text \<open>\<open>Entry::new\<close>, \<open>Entry::dev\<close> and \<open>Entry::dev_split\<close>.\<close>

definition entry_new :: "string \<Rightarrow> u32 \<Rightarrow> u32 \<Rightarrow> bytes \<Rightarrow> centry" where
  "entry_new name mode nlink data =
     \<lparr>e_name = name, e_mode = mode, e_nlink = nlink, e_rdevmajor = 0, e_rdevminor = 0, e_data = data\<rparr>"

definition dev_major :: "u64 \<Rightarrow> u32" where
  "dev_major rdev = ucast ((drop_bit 8 rdev AND 0xfff) OR (drop_bit 32 rdev AND NOT 0xfff))"

definition dev_minor :: "u64 \<Rightarrow> u32" where
  "dev_minor rdev = ucast ((rdev AND 0xff) OR (drop_bit 12 rdev AND NOT 0xff))"

definition entry_dev_split :: "string \<Rightarrow> u32 \<Rightarrow> u32 \<Rightarrow> u32 \<Rightarrow> centry" where
  "entry_dev_split name mode major minor =
     \<lparr>e_name = name, e_mode = mode, e_nlink = 1, e_rdevmajor = major, e_rdevminor = minor, e_data = []\<rparr>"

definition entry_dev :: "string \<Rightarrow> u32 \<Rightarrow> u64 \<Rightarrow> centry" where
  "entry_dev name mode rdev =
     \<lparr>e_name = name, e_mode = mode, e_nlink = 1, e_rdevmajor = dev_major rdev,
      e_rdevminor = dev_minor rdev, e_data = []\<rparr>"

definition insert_entry :: "centry \<Rightarrow> builder \<Rightarrow> builder" where
  "insert_entry e b = bt_insert (e_name e) e b"

definition add_entry :: "centry option \<Rightarrow> builder \<Rightarrow> builder" where
  "add_entry e b = (case e of None \<Rightarrow> b | Some e' \<Rightarrow> insert_entry e' b)"

text \<open>\<open>normalize\<close>: \<open>None\<close> for the root.\<close>

definition normalize_path :: "string \<Rightarrow> string option" where
  "normalize_path path =
     (let p = trim_end_char CHR ''/'' (trim_start_char CHR ''/'' (trim_start_pair CHR ''.'' CHR ''/'' path))
      in if p = [] \<or> p = ''.'' then None else Some p)"

subsection \<open>Directory trees\<close>

datatype node_kind =
    Node_Symlink "string option"   \<comment> \<open>\<open>read_link\<close>, \<open>None\<close> if it fails\<close>
  | Node_Dir
  | Node_File "bytes option"       \<comment> \<open>\<open>fs::read\<close>\<close>
  | Node_Char u64
  | Node_Block u64
  | Node_Fifo
  | Node_Other

text \<open>
  What the sorted walk yields: an error, or a path relative to the root with its mode and kind
  (\<open>None\<close>: \<open>symlink_metadata\<close> fails).
\<close>

datatype walked = Walk_Error | Walked string "(u32 \<times> node_kind) option"

datatype cpio_error =
    Walk_Failed | Metadata_Failed | Read_Failed | Tar_Failed | Tar_Entry_Failed | Tar_Path_Failed
  | Tar_Header_Failed | Symlink_Without_Target | Hardlink_Without_Target | No_Entries

definition perms_of :: "u32 \<Rightarrow> u32" where
  "perms_of mode = mode AND 0xfff"

definition dir_entry :: "string \<Rightarrow> u32 \<Rightarrow> node_kind \<Rightarrow> cpio_error + centry option" where
  "dir_entry name mode kind =
     (let perms = perms_of mode in
      case kind of
        Node_Symlink target \<Rightarrow>
          (case target of None \<Rightarrow> Inl Read_Failed
           | Some t \<Rightarrow> Inr (Some (entry_new name (S_IFLNK OR 0x1ff) 1 (str_bytes t))))
      | Node_Dir \<Rightarrow> Inr (Some (entry_new name (S_IFDIR OR perms) 2 []))
      | Node_File data \<Rightarrow>
          (case data of None \<Rightarrow> Inl Read_Failed
           | Some d \<Rightarrow> Inr (Some (entry_new name (S_IFREG OR perms) 1 d)))
      | Node_Char rdev \<Rightarrow> Inr (Some (entry_dev name (S_IFCHR OR perms) rdev))
      | Node_Block rdev \<Rightarrow> Inr (Some (entry_dev name (S_IFBLK OR perms) rdev))
      | Node_Fifo \<Rightarrow> Inr (Some (entry_new name (S_IFIFO OR perms) 1 []))
      | Node_Other \<Rightarrow> Inr None)"

fun add_dir :: "walked list \<Rightarrow> builder \<Rightarrow> cpio_error + builder" where
  "add_dir [] b = Inr b"
| "add_dir (Walk_Error # ws) b = Inl Walk_Failed"
| "add_dir (Walked rel md # ws) b =
     (case normalize_path rel of
        None \<Rightarrow> add_dir ws b
      | Some name \<Rightarrow>
          (case md of
             None \<Rightarrow> Inl Metadata_Failed
           | Some (mode, kind) \<Rightarrow>
               and_then (dir_entry name mode kind) (\<lambda>e.
                 add_dir ws (add_entry e b))))"

subsection \<open>Tar streams\<close>

datatype link_name = Link_Error | Link_Missing | Link_To string

datatype tar_kind =
    Tar_Directory
  | Tar_Symlink link_name
  | Tar_Link link_name
  | Tar_Char "u32 option option" "u32 option option"   \<comment> \<open>outer \<open>None\<close>: the field does not parse\<close>
  | Tar_Block "u32 option option" "u32 option option"
  | Tar_Fifo
  | Tar_Regular "bytes option"                          \<comment> \<open>\<open>Regular\<close> and \<open>Continuous\<close>\<close>
  | Tar_Other

text \<open>An entry of the stream: its path and mode (\<open>None\<close>: they do not parse) and its kind.\<close>

datatype tar_item = Tar_Bad | Tar_Item "string option" "u32 option" tar_kind

definition dev_number :: "u32 option option \<Rightarrow> cpio_error + u32" where
  "dev_number d = (case d of None \<Rightarrow> Inl Tar_Header_Failed | Some n \<Rightarrow> Inr (case n of None \<Rightarrow> 0 | Some k \<Rightarrow> k))"

type_synonym file_table = "(string, bytes) btree"

text \<open>The entry built for one item, and the table of file contents after it.\<close>

definition tar_entry ::
    "string \<Rightarrow> u32 \<Rightarrow> tar_kind \<Rightarrow> file_table \<Rightarrow> cpio_error + centry option \<times> file_table" where
  "tar_entry name perms kind table =
     (case kind of
        Tar_Directory \<Rightarrow> Inr (Some (entry_new name (S_IFDIR OR perms) 2 []), table)
      | Tar_Symlink l \<Rightarrow>
          (case l of Link_Error \<Rightarrow> Inl Tar_Header_Failed | Link_Missing \<Rightarrow> Inl Symlink_Without_Target
           | Link_To target \<Rightarrow> Inr (Some (entry_new name (S_IFLNK OR 0x1ff) 1 (str_bytes target)), table))
      | Tar_Link l \<Rightarrow>
          (case l of Link_Error \<Rightarrow> Inl Tar_Header_Failed | Link_Missing \<Rightarrow> Inl Hardlink_Without_Target
           | Link_To target \<Rightarrow>
               (let tgt = (case normalize_path target of None \<Rightarrow> target | Some t \<Rightarrow> t);
                    data = (case bt_get table tgt of None \<Rightarrow> [] | Some d \<Rightarrow> d)
                in Inr (Some (entry_new name (S_IFREG OR perms) 1 data), table)))
      | Tar_Char major minor \<Rightarrow>
          and_then (dev_number major) (\<lambda>ma. and_then (dev_number minor) (\<lambda>mi.
            Inr (Some (entry_dev_split name (S_IFCHR OR perms) ma mi), table)))
      | Tar_Block major minor \<Rightarrow>
          and_then (dev_number major) (\<lambda>ma. and_then (dev_number minor) (\<lambda>mi.
            Inr (Some (entry_dev_split name (S_IFBLK OR perms) ma mi), table)))
      | Tar_Fifo \<Rightarrow> Inr (Some (entry_new name (S_IFIFO OR perms) 1 []), table)
      | Tar_Regular data \<Rightarrow>
          (case data of None \<Rightarrow> Inl Read_Failed
           | Some d \<Rightarrow> Inr (Some (entry_new name (S_IFREG OR perms) 1 d), bt_insert name d table))
      | Tar_Other \<Rightarrow> Inr (None, table))"

fun add_tar_items :: "tar_item list \<Rightarrow> file_table \<Rightarrow> builder \<Rightarrow> cpio_error + builder" where
  "add_tar_items [] table b = Inr b"
| "add_tar_items (Tar_Bad # ts) table b = Inl Tar_Entry_Failed"
| "add_tar_items (Tar_Item path mode kind # ts) table b =
     (case path of None \<Rightarrow> Inl Tar_Path_Failed
      | Some p \<Rightarrow>
        (case normalize_path p of
           None \<Rightarrow> add_tar_items ts table b
         | Some name \<Rightarrow>
           (case mode of None \<Rightarrow> Inl Tar_Header_Failed
            | Some m \<Rightarrow>
                and_then (tar_entry name (perms_of m) kind table) (\<lambda>(e, table').
                  add_tar_items ts table' (add_entry e b)))))"

text \<open>\<open>add_tar\<close> of what the \<open>tar\<close> crate reads; \<open>None\<close> where it cannot start.\<close>

definition add_tar :: "tar_item list option \<Rightarrow> builder \<Rightarrow> cpio_error + builder" where
  "add_tar items b = and_then (ok_or Tar_Failed items) (\<lambda>ts. add_tar_items ts [] b)"

subsection \<open>Rendering\<close>

text \<open>\<open>{v:08x}\<close>.\<close>

definition hex8 :: "u32 \<Rightarrow> string" where
  "hex8 v = map (\<lambda>i. hex_digit (unat v div 16 ^ i)) [7, 6, 5, 4, 3, 2, 1, 0]"

definition write_hex8 :: "bytes \<Rightarrow> u32 \<Rightarrow> bytes" where
  "write_hex8 out v = out @ str_bytes (hex8 v)"

lemma pad4_measure: "n mod 4 \<noteq> 0 \<Longrightarrow> (4 - Suc n mod 4) mod 4 < (4 - n mod 4) mod (4::nat)"
proof -
  assume "n mod 4 \<noteq> 0"
  then have "n mod 4 = 1 \<or> n mod 4 = 2 \<or> n mod 4 = 3" by auto
  then show ?thesis by (auto simp: mod_Suc)
qed

function pad4 :: "bytes \<Rightarrow> bytes" where
  "pad4 out = (if length out mod 4 = 0 then out else pad4 (out @ [0]))"
  by pat_completeness auto
termination
proof (relation "measure (\<lambda>out. (4 - length out mod 4) mod 4)")
  fix out :: bytes
  assume "length out mod 4 \<noteq> 0"
  then show "(out @ [0], out) \<in> measure (\<lambda>out. (4 - length out mod 4) mod 4)"
    unfolding in_measure length_append_singleton by (rule pad4_measure)
qed simp

declare pad4.simps [simp del]

definition entry_fields :: "centry \<Rightarrow> u32 \<Rightarrow> u32 list" where
  "entry_fields e ino =
     [ino, e_mode e, 0, 0, e_nlink e, 0, of_nat (length (e_data e)), 0, 0, e_rdevmajor e,
      e_rdevminor e, of_nat (length (e_name e)) + 1, 0]"

definition write_entry :: "bytes \<Rightarrow> centry \<Rightarrow> u32 \<Rightarrow> bytes" where
  "write_entry out e ino =
     (let out = out @ str_bytes ''070701'';
          out = fold (\<lambda>field out. write_hex8 out field) (entry_fields e ino) out;
          out = pad4 (out @ str_bytes (e_name e) @ [0])
      in pad4 (out @ e_data e))"

definition write_trailer :: "bytes \<Rightarrow> bytes" where
  "write_trailer out =
     (let name = ''TRAILER!!!'';
          out = out @ str_bytes ''070701'';
          out = fold (\<lambda>field out. write_hex8 out field)
                  [0, 0, 0, 0, 1, 0, 0, 0, 0, 0, 0, of_nat (length name) + 1, 0] out
      in pad4 (out @ str_bytes name @ [0]))"

text \<open>The loop over \<open>values().enumerate()\<close>, from an index on.\<close>

fun write_entries :: "bytes \<Rightarrow> nat \<Rightarrow> centry list \<Rightarrow> bytes" where
  "write_entries out i [] = out"
| "write_entries out i (e # es) = write_entries (write_entry out e (of_nat i + 1)) (Suc i) es"

definition finish :: "builder \<Rightarrow> cpio_error + bytes" where
  "finish b = (if b = [] then Inl No_Entries
               else Inr (write_trailer (write_entries [] 0 (map snd b))))"

subsection \<open>A reader of the format\<close>

text \<open>
  What a newc reader makes of an archive, from the format's documentation: a magic, thirteen fields
  of eight hexadecimal digits, the name with its NUL, padding to four bytes, the data, padding; the
  record named \<open>TRAILER!!!\<close> ends the archive. The writer is correct when this gives back what was
  put in.
\<close>

record cpio_record =
  r_fields :: "u32 list"
  r_name :: bytes
  r_data :: bytes

definition digit_value :: "byte \<Rightarrow> nat option" where
  "digit_value b = find_char (char_of (unat b)) ''0123456789abcdef''"

fun hex_value :: "bytes \<Rightarrow> nat option" where
  "hex_value [] = Some 0"
| "hex_value (b # bs) =
     (case (digit_value b, hex_value bs) of
        (Some d, Some n) \<Rightarrow> Some (d * 16 ^ length bs + n)
      | _ \<Rightarrow> None)"

fun read_fields :: "nat \<Rightarrow> bytes \<Rightarrow> u32 list option" where
  "read_fields 0 b = Some []"
| "read_fields (Suc k) b =
     (if length b < 8 then None
      else (case (hex_value (take 8 b), read_fields k (drop 8 b)) of
              (Some n, Some vs) \<Rightarrow> Some (of_nat n # vs)
            | _ \<Rightarrow> None))"

definition round4 :: "nat \<Rightarrow> nat" where
  "round4 n = n + (4 - n mod 4) mod 4"

definition read_record :: "bytes \<Rightarrow> (cpio_record \<times> bytes) option" where
  "read_record b =
     (if take 6 b \<noteq> str_bytes ''070701'' then None
      else (case read_fields 13 (drop 6 b) of
              None \<Rightarrow> None
            | Some fs \<Rightarrow>
                (let namesize = unat (fs ! 11); filesize = unat (fs ! 6); name_end = 110 + namesize;
                     data_at = round4 name_end; data_end = data_at + filesize
                 in if namesize = 0 \<or> length b < round4 data_end \<or> b ! (name_end - 1) \<noteq> 0 then None
                    else Some (\<lparr>r_fields = fs, r_name = take (namesize - 1) (drop 110 b),
                                r_data = take filesize (drop data_at b)\<rparr>, drop (round4 data_end) b))))"

function read_archive :: "bytes \<Rightarrow> cpio_record list option" where
  "read_archive b =
     (case read_record b of
        None \<Rightarrow> None
      | Some (r, rest) \<Rightarrow>
          if r_name r = str_bytes ''TRAILER!!!'' then Some []
          else if length rest < length b then map_option (Cons r) (read_archive rest) else None)"
  by pat_completeness auto
termination
  by (relation "measure length") auto

declare read_archive.simps [simp del]

subsection \<open>The writer, as a concatenation\<close>

lemma pad4_eq: "pad4 out = out @ replicate ((4 - length out mod 4) mod 4) 0"
proof (induction out rule: pad4.induct)
  case (1 out)
  show ?case
  proof (cases "length out mod 4 = 0")
    case True
    then show ?thesis by (simp add: pad4.simps)
  next
    case False
    then have "length out mod 4 = 1 \<or> length out mod 4 = 2 \<or> length out mod 4 = 3" by auto
    then have "(4 - length out mod 4) mod 4 = Suc ((4 - length (out @ [0]) mod 4) mod 4)"
      by (auto simp: mod_Suc)
    with 1 False show ?thesis by (subst pad4.simps) simp
  qed
qed

lemma length_pad4: "length (pad4 out) = round4 (length out)"
  by (simp add: pad4_eq round4_def)

lemma round4_dvd: "4 dvd round4 n"
proof -
  have "n mod 4 = 0 \<or> n mod 4 = 1 \<or> n mod 4 = 2 \<or> n mod 4 = 3" by auto
  then have "round4 n mod 4 = 0" by (auto simp: round4_def mod_add_eq[of n 4, symmetric] simp del: mod_add_eq)
  then show ?thesis by auto
qed

lemma round4_ge: "n \<le> round4 n"
  by (simp add: round4_def)

lemma round4_add: "4 dvd m \<Longrightarrow> round4 (m + n) = m + round4 n"
  by (auto simp: round4_def)

lemma pad4_append: "4 dvd length out \<Longrightarrow> pad4 (out @ b) = out @ pad4 b"
  by (auto simp: pad4_eq)

definition hex_fields :: "u32 list \<Rightarrow> bytes" where
  "hex_fields fs = concat (map (\<lambda>f. str_bytes (hex8 f)) fs)"

lemma fold_write_hex8: "fold (\<lambda>field out. write_hex8 out field) fs out = out @ hex_fields fs"
  by (induction fs arbitrary: out) (simp_all add: write_hex8_def hex_fields_def)

definition record_bytes :: "u32 list \<Rightarrow> string \<Rightarrow> bytes \<Rightarrow> bytes" where
  "record_bytes fs name data =
     pad4 (pad4 (str_bytes ''070701'' @ hex_fields fs @ str_bytes name @ [0]) @ data)"

lemma length_record_bytes_dvd: "4 dvd length (record_bytes fs name data)"
  by (simp add: record_bytes_def length_pad4 round4_dvd)

lemma write_entry_eq:
  "4 dvd length out \<Longrightarrow> write_entry out e ino = out @ record_bytes (entry_fields e ino) (e_name e) (e_data e)"
  unfolding write_entry_def record_bytes_def Let_def fold_write_hex8
  by (simp add: pad4_append)

lemma write_trailer_eq:
  "4 dvd length out \<Longrightarrow> write_trailer out =
     out @ record_bytes [0, 0, 0, 0, 1, 0, 0, 0, 0, 0, 0, 11, 0] ''TRAILER!!!'' []"
  unfolding write_trailer_def record_bytes_def Let_def fold_write_hex8
  by (simp add: pad4_append) (simp add: pad4_eq[of "pad4 _"] length_pad4 round4_dvd dvd_imp_mod_0)

subsection \<open>Reading back one record\<close>

lemma digit_value_hex_digit: "digit_value (of_char (hex_digit n)) = Some (n mod 16)"
proof -
  have "\<forall>k \<in> set [0..<16]. find_char (hex_digit k) ''0123456789abcdef'' = Some k"
    by (simp add: hex_digit_def upt_conv_Cons)
  then have "find_char (hex_digit (n mod 16)) ''0123456789abcdef'' = Some (n mod 16)" by simp
  moreover have "hex_digit (n mod 16) = hex_digit n" by (simp add: hex_digit_def)
  ultimately show ?thesis by (simp add: digit_value_def)
qed

lemma hex_value_digits:
  "hex_value (str_bytes (map (\<lambda>i. hex_digit (n div 16 ^ i)) (rev [0..<k]))) = Some (n mod 16 ^ k)"
proof (induction k)
  case 0
  then show ?case by simp
next
  case (Suc k)
  have "n mod 16 ^ Suc k = n div 16 ^ k mod 16 * 16 ^ k + n mod 16 ^ k"
    by (metis add.commute mod_mult2_eq mult.commute power_Suc)
  with Suc show ?case by (simp add: str_bytes_def digit_value_hex_digit)
qed

lemma length_hex8 [simp]: "length (hex8 v) = 8"
  by (simp add: hex8_def)

lemma hex_value_hex8: "hex_value (str_bytes (hex8 v)) = Some (unat v)"
proof -
  have "unat v < 2 ^ 32" by (rule order.strict_trans2[OF unsigned_less]) simp
  then have "unat v mod 16 ^ 8 = unat v" by simp
  moreover have "rev [0..<8] = [7, 6, 5, 4, 3, 2, 1, 0]" by (simp add: upt_conv_Cons)
  ultimately show ?thesis using hex_value_digits[of "unat v" 8] by (simp add: hex8_def)
qed

lemma length_hex_fields [simp]: "length (hex_fields fs) = 8 * length fs"
  by (induction fs) (simp_all add: hex_fields_def)

lemma read_fields_hex: "read_fields (length fs) (hex_fields fs @ rest) = Some fs"
  by (induction fs) (simp_all add: hex_fields_def hex_value_hex8)

text \<open>A record whose size fields say the truth is read back, whatever follows it.\<close>

lemma read_record_bytes:
  assumes len: "length fs = 13" and name: "unat (fs ! 11) = Suc (length name)"
    and data: "unat (fs ! 6) = length data"
  shows "read_record (record_bytes fs name data @ rest) =
    Some (\<lparr>r_fields = fs, r_name = str_bytes name, r_data = data\<rparr>, rest)"
proof -
  let ?magic = "str_bytes ''070701''"
  let ?head = "?magic @ hex_fields fs @ str_bytes name @ [0]"
  let ?p1 = "replicate ((4 - length ?head mod 4) mod 4) (0::byte)"
  have head: "length ?head = 110 + Suc (length name)" by (simp add: len)
  define body where "body = ?head @ ?p1 @ data"
  have body: "length body = round4 (111 + length name) + length data"
    unfolding body_def round4_def by (simp add: len)
  define b where "b = record_bytes fs name data @ rest"
  have b: "b = body @ replicate ((4 - length body mod 4) mod 4) 0 @ rest"
    by (simp add: b_def record_bytes_def pad4_eq body_def)
  have fields: "read_fields 13 (drop 6 b) = Some fs"
    using read_fields_hex[of fs "str_bytes name @ [0] @ ?p1 @ data @ replicate ((4 - length body mod 4) mod 4) 0 @ rest"]
    by (simp add: b body_def len)
  have magic: "take 6 b = ?magic" by (simp add: b body_def)
  have at_name: "drop 110 b = str_bytes name @ [0] @ ?p1 @ data @ replicate ((4 - length body mod 4) mod 4) 0 @ rest"
    by (simp add: b body_def len)
  have nul: "b ! (110 + length name) = 0"
    by (simp add: b body_def len nth_append)
  have at_data: "drop (round4 (111 + length name)) b = data @ replicate ((4 - length body mod 4) mod 4) 0 @ rest"
    unfolding b body_def round4_def by (simp add: len)
  have at_end: "drop (round4 (length body)) b = rest" and long: "round4 (length body) \<le> length b"
    by (simp_all add: b round4_def)
  show ?thesis
    unfolding b_def[symmetric] read_record_def
    using magic fields nul long at_end
    by (simp add: Let_def name data body at_name at_data)
qed

lemma record_bytes_not_Nil [simp]: "record_bytes fs name data \<noteq> []"
  by (simp add: record_bytes_def pad4_eq)

lemma length_record_pos: "length (record_bytes fs name data @ rest) > length rest"
  by (simp add: record_bytes_def pad4_eq)

subsection \<open>Reading back an archive\<close>

text \<open>
  What the size fields of an entry can hold. (The code casts lengths to \<open>u32\<close>: a file of 4 GiB or
  more gets a wrong size.)
\<close>

definition entry_fits :: "centry \<Rightarrow> bool" where
  "entry_fits e \<longleftrightarrow> length (e_name e) + 1 < 2 ^ 32 \<and> length (e_data e) < 2 ^ 32 \<and> e_name e \<noteq> ''TRAILER!!!''"

definition record_of :: "centry \<Rightarrow> u32 \<Rightarrow> cpio_record" where
  "record_of e ino = \<lparr>r_fields = entry_fields e ino, r_name = str_bytes (e_name e), r_data = e_data e\<rparr>"

lemma unat_of_nat_u32: "n < 2 ^ 32 \<Longrightarrow> unat (of_nat n :: u32) = n"
  by (simp add: unat_of_nat)

lemma read_entry:
  assumes "entry_fits e"
  shows "read_record (record_bytes (entry_fields e ino) (e_name e) (e_data e) @ rest) = Some (record_of e ino, rest)"
proof -
  have "of_nat (length (e_name e)) + 1 = (of_nat (Suc (length (e_name e))) :: u32)" by simp
  then have "unat (of_nat (length (e_name e)) + 1 :: u32) = Suc (length (e_name e))"
    using assms by (simp only: entry_fits_def unat_of_nat_u32 Suc_eq_plus1)
  moreover have "unat (of_nat (length (e_data e)) :: u32) = length (e_data e)"
    using assms by (simp add: entry_fits_def unat_of_nat_u32)
  ultimately show ?thesis
    unfolding record_of_def by (intro read_record_bytes) (simp_all add: entry_fields_def)
qed

fun entries_bytes :: "nat \<Rightarrow> centry list \<Rightarrow> bytes" where
  "entries_bytes i [] = []"
| "entries_bytes i (e # es) =
     record_bytes (entry_fields e (of_nat i + 1)) (e_name e) (e_data e) @ entries_bytes (Suc i) es"

lemma write_entries_eq: "4 dvd length out \<Longrightarrow> write_entries out i es = out @ entries_bytes i es"
  by (induction out i es rule: write_entries.induct) (simp_all add: write_entry_eq length_record_bytes_dvd)

lemma length_entries_bytes_dvd: "4 dvd length (entries_bytes i es)"
  by (induction i es rule: entries_bytes.induct) (simp_all add: length_record_bytes_dvd)

definition trailer_bytes :: bytes where
  "trailer_bytes = record_bytes [0, 0, 0, 0, 1, 0, 0, 0, 0, 0, 0, 11, 0] ''TRAILER!!!'' []"

lemma finish_eq:
  "b \<noteq> [] \<Longrightarrow> finish b = Inr (entries_bytes 0 (map snd b) @ trailer_bytes)"
  by (simp add: finish_def write_entries_eq write_trailer_eq length_entries_bytes_dvd trailer_bytes_def)

fun numbered :: "nat \<Rightarrow> centry list \<Rightarrow> cpio_record list" where
  "numbered i [] = []"
| "numbered i (e # es) = record_of e (of_nat i + 1) # numbered (Suc i) es"

lemma read_archive_trailer: "read_archive trailer_bytes = Some []"
proof -
  have "read_record (trailer_bytes @ []) = Some (\<lparr>r_fields = [0, 0, 0, 0, 1, 0, 0, 0, 0, 0, 0, 11, 0],
      r_name = str_bytes ''TRAILER!!!'', r_data = []\<rparr>, [])"
    unfolding trailer_bytes_def by (rule read_record_bytes) simp_all
  then show ?thesis by (subst read_archive.simps) simp
qed

lemma read_entries:
  "\<forall>e \<in> set es. entry_fits e \<Longrightarrow> read_archive (entries_bytes i es @ trailer_bytes) = Some (numbered i es)"
proof (induction i es rule: entries_bytes.induct)
  case (1 i)
  then show ?case by (simp add: read_archive_trailer)
next
  case (2 i e es)
  then have "e_name e \<noteq> ''TRAILER!!!''" by (simp add: entry_fits_def)
  with 2 show ?case
    by (subst read_archive.simps) (simp add: read_entry length_record_pos record_of_def[of e "of_nat i + 1"])
qed

lemma finish_reads_back:
  assumes "finish b = Inr out" and "\<forall>(k, e) \<in> set b. entry_fits e"
  shows "read_archive out = Some (numbered 0 (map snd b))"
proof -
  have "b \<noteq> []" using assms(1) by (auto simp: finish_def)
  then have "out = entries_bytes 0 (map snd b) @ trailer_bytes" using assms(1) by (simp add: finish_eq)
  moreover have "\<forall>e \<in> set (map snd b). entry_fits e" using assms(2) by auto
  ultimately show ?thesis by (simp only: read_entries)
qed

subsection \<open>Names and layers\<close>

text \<open>Keys are the entries' names, in order, each once.\<close>

definition builder_ok :: "builder \<Rightarrow> bool" where
  "builder_ok b \<longleftrightarrow> bt_ok b \<and> (\<forall>(k, e) \<in> set b. k = e_name e)"

lemma builder_ok_new: "builder_ok new_builder"
  by (simp add: builder_ok_def new_builder_def)

lemma builder_ok_insert: "builder_ok b \<Longrightarrow> builder_ok (insert_entry e b)"
  using set_bt_insert[of "e_name e" e b] by (fastforce simp: builder_ok_def insert_entry_def)

lemma builder_ok_add_entry: "builder_ok b \<Longrightarrow> builder_ok (add_entry e b)"
  by (simp add: add_entry_def builder_ok_insert split: option.split)

lemma get_insert_entry:
  "bt_get (insert_entry e b) k = (if k = e_name e then Some e else bt_get b k)"
  by (simp add: insert_entry_def)

lemma builder_ok_add_dir: "add_dir ws b = Inr b' \<Longrightarrow> builder_ok b \<Longrightarrow> builder_ok b'"
  by (induction ws b rule: add_dir.induct)
     (auto simp: and_then_Inr_iff builder_ok_add_entry split: option.splits)

lemma builder_ok_add_tar_items: "add_tar_items ts table b = Inr b' \<Longrightarrow> builder_ok b \<Longrightarrow> builder_ok b'"
  by (induction ts table b rule: add_tar_items.induct)
     (auto simp: and_then_Inr_iff builder_ok_add_entry split: option.splits)

lemma builder_ok_add_tar: "add_tar items b = Inr b' \<Longrightarrow> builder_ok b \<Longrightarrow> builder_ok b'"
  by (auto simp: add_tar_def and_then_Inr_iff intro: builder_ok_add_tar_items)

text \<open>The entries a walk contributes, in the order met.\<close>

definition walked_entry :: "walked \<Rightarrow> centry option" where
  "walked_entry w =
     (case w of
        Walk_Error \<Rightarrow> None
      | Walked rel md \<Rightarrow>
          (case (normalize_path rel, md) of
             (Some name, Some (mode, kind)) \<Rightarrow>
               (case dir_entry name mode kind of Inl _ \<Rightarrow> None | Inr e \<Rightarrow> e)
           | _ \<Rightarrow> None))"

lemma add_dir_fold:
  "add_dir ws b = Inr b' \<Longrightarrow> b' = fold (\<lambda>(k, e). bt_insert k e)
     (map (\<lambda>e. (e_name e, e)) (List.map_filter walked_entry ws)) b"
proof (induction ws b rule: add_dir.induct)
  case (3 rel md ws b)
  show ?case
  proof (cases "normalize_path rel")
    case None
    with 3 show ?thesis by (simp add: walked_entry_def map_filter_simps)
  next
    case (Some name)
    with "3.prems" obtain mode kind e where md: "md = Some (mode, kind)"
      and e: "dir_entry name mode kind = Inr e" and run: "add_dir ws (add_entry e b) = Inr b'"
      by (auto simp: and_then_Inr_iff split: option.splits)
    from Some md e have w: "walked_entry (Walked rel md) = e" by (simp add: walked_entry_def)
    from "3.IH"(2)[OF Some md _ run] show ?thesis
      by (cases e) (simp_all add: map_filter_simps w add_entry_def insert_entry_def)
  qed
qed (simp_all add: map_filter_simps)

lemma walked_entry_name: "walked_entry w = Some e \<Longrightarrow> \<exists>rel md. w = Walked rel md \<and> normalize_path rel = Some (e_name e)"
  by (auto simp: walked_entry_def dir_entry_def entry_new_def entry_dev_def Let_def
      split: walked.splits option.splits sum.splits node_kind.splits)

text \<open>Two builders that answer every lookup alike render the same archive.\<close>

lemma finish_cong:
  assumes "builder_ok b" and "builder_ok c" and "\<And>k. bt_get b k = bt_get c k"
  shows "finish b = finish c"
  using btree_eqI[of b c] assms by (simp add: builder_ok_def)

text \<open>Of two entries of one name the later wins: the archive made from a list of entries is that map.\<close>

definition last_of_name :: "centry list \<Rightarrow> string \<Rightarrow> centry option" where
  "last_of_name es = map_of (rev (map (\<lambda>e. (e_name e, e)) es))"

lemma builder_entries:
  assumes "builder_ok b"
  shows "sorted_wrt (<) (map e_name (map snd b))" and "e \<in> set (map snd b) \<longleftrightarrow> bt_get b (e_name e) = Some e"
proof -
  have "map e_name (map snd b) = map fst b" using assms by (auto simp: builder_ok_def)
  moreover have "sorted_wrt (<) (map fst b)" using assms by (simp add: builder_ok_def bt_ok_def)
  ultimately show "sorted_wrt (<) (map e_name (map snd b))" by (simp only:)
  show "e \<in> set (map snd b) \<longleftrightarrow> bt_get b (e_name e) = Some e"
    using assms by (force simp: builder_ok_def bt_get_iff)
qed

lemma entries_archive:
  assumes "b = fold (\<lambda>(k, e). bt_insert k e) (map (\<lambda>e. (e_name e, e)) es) new_builder" and "builder_ok b"
    and "finish b = Inr out" and "\<forall>e \<in> set es. entry_fits e"
  shows "\<exists>rs. read_archive out = Some (numbered 0 rs) \<and> sorted_wrt (<) (map e_name rs)
    \<and> (\<forall>e. e \<in> set rs \<longleftrightarrow> last_of_name es (e_name e) = Some e)"
proof (intro exI conjI)
  have "bt_get b k = last_of_name es k" for k
    by (simp add: assms(1) new_builder_def btree.lookup_fold last_of_name_def split: option.split)
  then have iff: "e \<in> set (map snd b) \<longleftrightarrow> last_of_name es (e_name e) = Some e" for e
    using builder_entries(2)[OF assms(2)] by simp
  have "e \<in> set es" if "last_of_name es k = Some e" for k e
    using map_of_SomeD[OF that[unfolded last_of_name_def]] by auto
  with iff assms(4) have "\<forall>(k, e) \<in> set b. entry_fits e" by force
  with assms(3) show "read_archive out = Some (numbered 0 (map snd b))" by (rule finish_reads_back)
  show "sorted_wrt (<) (map e_name (map snd b))" using builder_entries(1)[OF assms(2)] .
  show "\<forall>e. e \<in> set (map snd b) \<longleftrightarrow> last_of_name es (e_name e) = Some e" using iff by blast
qed

text \<open>The tree a walk describes, as a map from names to entries.\<close>

definition walked_entries :: "walked list \<Rightarrow> centry list" where
  "walked_entries ws = List.map_filter walked_entry ws"

definition tree_of :: "walked list \<Rightarrow> string \<Rightarrow> centry option" where
  "tree_of ws = last_of_name (walked_entries ws)"

lemma add_dir_archive:
  assumes "add_dir ws new_builder = Inr b" and "finish b = Inr out"
    and "\<forall>e \<in> set (walked_entries ws). entry_fits e"
  shows "\<exists>es. read_archive out = Some (numbered 0 es) \<and> sorted_wrt (<) (map e_name es)
    \<and> (\<forall>e. e \<in> set es \<longleftrightarrow> tree_of ws (e_name e) = Some e)"
  unfolding tree_of_def
  using add_dir_fold[OF assms(1)] builder_ok_add_dir[OF assms(1) builder_ok_new] assms(2,3)
  by (intro entries_archive) (simp_all add: walked_entries_def)

lemma add_dir_order:
  assumes "add_dir ws new_builder = Inr b" and "add_dir ws' new_builder = Inr b'"
    and "set (walked_entries ws) = set (walked_entries ws')"
    and "distinct (map e_name (walked_entries ws))" and "distinct (map e_name (walked_entries ws'))"
  shows "b = b'"
  using btree.fold_order_irrelevant[of "[]" "map (\<lambda>e. (e_name e, e)) (walked_entries ws)"
      "map (\<lambda>e. (e_name e, e)) (walked_entries ws')"] assms
    add_dir_fold[OF assms(1)] add_dir_fold[OF assms(2)]
  by (simp add: new_builder_def walked_entries_def comp_def)

text \<open>A normalized path is not empty and neither starts nor ends with a slash.\<close>

lemma trim_end_char_last: "trim_end_char c s \<noteq> [] \<Longrightarrow> List.last (trim_end_char c s) \<noteq> c"
proof -
  assume "trim_end_char c s \<noteq> []"
  then have "dropWhile (\<lambda>x. x = c) (rev s) \<noteq> []" by (simp add: trim_end_char_def)
  then show ?thesis
    unfolding trim_end_char_def last_rev using hd_dropWhile[of "\<lambda>x. x = c" "rev s"] by simp
qed

lemma trim_end_char_prefix: "\<exists>t. s = trim_end_char c s @ t"
  unfolding trim_end_char_def
  by (rule exI[of _ "rev (takeWhile (\<lambda>x. x = c) (rev s))"])
     (metis rev_append rev_rev_ident takeWhile_dropWhile_id)

lemma normalize_path_Some:
  assumes "normalize_path path = Some p"
  shows "p \<noteq> []" and "p \<noteq> ''.''" and "hd p \<noteq> CHR ''/''" and "List.last p \<noteq> CHR ''/''"
proof -
  let ?s = "trim_start_char CHR ''/'' (trim_start_pair CHR ''.'' CHR ''/'' path)"
  from assms have p: "p = trim_end_char CHR ''/'' ?s" "p \<noteq> []" "p \<noteq> ''.''"
    by (auto simp: normalize_path_def Let_def split: if_splits)
  then show "p \<noteq> []" "p \<noteq> ''.''" "List.last p \<noteq> CHR ''/''"
    using trim_end_char_last[of "CHR ''/''" ?s] by simp_all
  obtain t where t: "?s = p @ t" using trim_end_char_prefix[of ?s "CHR ''/''"] p(1) by blast
  with p(2) have "?s \<noteq> []" "hd ?s = hd p" by simp_all
  then show "hd p \<noteq> CHR ''/''"
    using hd_dropWhile[of "\<lambda>x. x = CHR ''/''" "trim_start_pair CHR ''.'' CHR ''/'' path"]
    by (simp add: trim_start_char_def)
qed

subsection \<open>Device numbers\<close>

text \<open>glibc's \<open>makedev\<close>, which the two functions invert.\<close>

definition makedev :: "u32 \<Rightarrow> u32 \<Rightarrow> u64" where
  "makedev major minor =
     (ucast minor AND 0xff) OR push_bit 8 (ucast major AND 0xfff)
     OR push_bit 12 (ucast minor AND NOT 0xff) OR push_bit 32 (ucast major AND NOT 0xfff)"

lemma dev_masks:
  "dev_major rdev = ucast ((drop_bit 8 rdev AND mask 12) OR (drop_bit 32 rdev AND NOT (mask 12)))"
  "dev_minor rdev = ucast ((rdev AND mask 8) OR (drop_bit 12 rdev AND NOT (mask 8)))"
  "makedev major minor =
     (ucast minor AND mask 8) OR push_bit 8 (ucast major AND mask 12)
     OR push_bit 12 (ucast minor AND NOT (mask 8)) OR push_bit 32 (ucast major AND NOT (mask 12))"
  by (simp_all add: dev_major_def dev_minor_def makedev_def mask_eq_exp_minus_1)

lemma dev_makedev: "dev_major (makedev major minor) = major" "dev_minor (makedev major minor) = minor"
proof -
  show "dev_major (makedev major minor) = major"
    unfolding dev_masks by (rule bit_word_eqI) (auto simp: bit_simps dest: bit_imp_le_length)
  show "dev_minor (makedev major minor) = minor"
    unfolding dev_masks by (rule bit_word_eqI) (auto simp: bit_simps dest: bit_imp_le_length)
qed

end
