(* ===== verification/Uki.thy ===== *)
theory Uki
  imports Prelude
begin

unbundle bit_operations_syntax

section \<open>mkuki: grafting sections onto a PE stub\<close>

text \<open>
  \<open>crates/mkuki/src/uki.rs\<close>. An index or slice out of range is the error \<open>Panic\<close>. \<open>usize\<close> is 64 bits
  wide: offsets are sums of values read from 16- and 32-bit fields, so they are naturals; \<open>align_up\<close>
  is on 64-bit words, as a release build computes it (its assertion that the alignment is a power of
  two is for debug builds).
\<close>

record uki_section =
  s_name :: string
  s_data :: bytes

record pe_view =
  pe_off :: nat
  opt_off :: nat
  sect_table :: nat
  num_sections :: nat
  section_align :: u32
  file_align :: u32
  size_of_headers :: u32

datatype uki_error =
    Panic | Not_Mz | Bad_Pe_Signature | Not_Pe32_Plus u16 | Table_Out_Of_Bounds
  | No_Header_Room nat nat nat | Name_Too_Long string | Too_Many_Sections | Too_Large

definition header_size :: nat where
  "header_size = 40"

subsection \<open>Little-endian fields\<close>

definition le16 :: "u16 \<Rightarrow> bytes" where
  "le16 v = [ucast v, ucast (drop_bit 8 v)]"

definition le32 :: "u32 \<Rightarrow> bytes" where
  "le32 v = [ucast v, ucast (drop_bit 8 v), ucast (drop_bit 16 v), ucast (drop_bit 24 v)]"

definition rd_u16 :: "bytes \<Rightarrow> nat \<Rightarrow> uki_error + u16" where
  "rd_u16 b off =
     (if off + 1 < length b then Inr (ucast (b ! off) OR push_bit 8 (ucast (b ! (off + 1))))
      else Inl Panic)"

definition rd_u32 :: "bytes \<Rightarrow> nat \<Rightarrow> uki_error + u32" where
  "rd_u32 b off =
     (if off + 3 < length b
      then Inr (ucast (b ! off) OR push_bit 8 (ucast (b ! (off + 1)))
             OR push_bit 16 (ucast (b ! (off + 2))) OR push_bit 24 (ucast (b ! (off + 3))))
      else Inl Panic)"

text \<open>\<open>b[off..off + n].copy_from_slice(x)\<close>.\<close>

definition write_at :: "bytes \<Rightarrow> nat \<Rightarrow> bytes \<Rightarrow> uki_error + bytes" where
  "write_at b off x =
     (if off + length x \<le> length b then Inr (take off b @ x @ drop (off + length x) b) else Inl Panic)"

definition wr_u16 :: "bytes \<Rightarrow> nat \<Rightarrow> u16 \<Rightarrow> uki_error + bytes" where
  "wr_u16 b off v = write_at b off (le16 v)"

definition wr_u32 :: "bytes \<Rightarrow> nat \<Rightarrow> u32 \<Rightarrow> uki_error + bytes" where
  "wr_u32 b off v = write_at b off (le32 v)"

definition align_up :: "u64 \<Rightarrow> u64 \<Rightarrow> u64" where
  "align_up x a = (x + a - 1) AND NOT (a - 1)"

subsection \<open>Reading the stub\<close>

definition bytes_at :: "bytes \<Rightarrow> nat \<Rightarrow> nat \<Rightarrow> bytes" where
  "bytes_at b off n = take n (drop off b)"

definition parse_pe :: "bytes \<Rightarrow> uki_error + pe_view" where
  "parse_pe b =
     (if \<not> (length b > 0x40 \<and> bytes_at b 0 2 = str_bytes ''MZ'') then Inl Not_Mz else
      and_then (rd_u32 b 0x3c) (\<lambda>pe.
      let pe = unat pe in
      if \<not> (pe + 24 \<le> length b \<and> bytes_at b pe 4 = str_bytes ''PE'' @ [0, 0]) then Inl Bad_Pe_Signature else
      let coff = pe + 4 in
      and_then (rd_u16 b (coff + 2)) (\<lambda>num.
      and_then (rd_u16 b (coff + 16)) (\<lambda>size_opt.
      let opt = coff + 20 in
      and_then (rd_u16 b opt) (\<lambda>magic.
      if magic \<noteq> 0x20b then Inl (Not_Pe32_Plus magic) else
      and_then (rd_u32 b (opt + 32)) (\<lambda>salign.
      and_then (rd_u32 b (opt + 36)) (\<lambda>falign.
      and_then (rd_u32 b (opt + 60)) (\<lambda>headers.
      let table = opt + unat size_opt in
      if \<not> table + unat num * header_size \<le> length b then Inl Table_Out_Of_Bounds
      else Inr \<lparr>pe_off = pe, opt_off = opt, sect_table = table, num_sections = unat num,
                section_align = salign, file_align = falign, size_of_headers = headers\<rparr>))))))))"

text \<open>
  The end of the highest section in memory and the lowest raw pointer that is not zero. The sums of
  two 32-bit values fit \<open>u64\<close>.
\<close>

fun section_bounds :: "bytes \<Rightarrow> nat \<Rightarrow> nat \<Rightarrow> nat \<times> nat \<Rightarrow> uki_error + nat \<times> nat" where
  "section_bounds b table 0 acc = Inr acc"
| "section_bounds b table (Suc k) (va_end, raw_min) =
     and_then (rd_u32 b (table + 8)) (\<lambda>vsize.
     and_then (rd_u32 b (table + 12)) (\<lambda>vaddr.
     and_then (rd_u32 b (table + 16)) (\<lambda>rsize.
     and_then (rd_u32 b (table + 20)) (\<lambda>rptr.
       section_bounds b (table + header_size) k
         (max va_end (unat vaddr + max (unat vsize) (unat rsize)),
          if 0 < rptr then min raw_min (unat rptr) else raw_min)))))"

subsection \<open>Building\<close>

text \<open>\<open>Vec::resize(n, 0)\<close>.\<close>

definition resize :: "nat \<Rightarrow> bytes \<Rightarrow> bytes" where
  "resize n b = take n b @ replicate (n - length b) 0"

definition section_flags :: u32 where
  "section_flags = 0x40 OR 0x40000000"

text \<open>The 40 bytes of a header; the three fields between the raw pointer and the flags stay zero.\<close>

definition section_header :: "uki_section \<Rightarrow> u64 \<Rightarrow> u64 \<Rightarrow> u64 \<Rightarrow> bytes" where
  "section_header s vma raw_size raw_ptr =
     str_bytes (s_name s) @ replicate (8 - length (s_name s)) 0
     @ le32 (of_nat (length (s_data s))) @ le32 (ucast vma) @ le32 (ucast raw_size)
     @ le32 (ucast raw_ptr) @ replicate 12 0 @ le32 section_flags"

fun place_sections ::
    "u64 \<Rightarrow> u64 \<Rightarrow> uki_section list \<Rightarrow> bytes \<Rightarrow> u64 \<Rightarrow> uki_error + (bytes \<times> u64 \<times> bytes list)" where
  "place_sections falign salign [] out vma = Inr (out, vma, [])"
| "place_sections falign salign (s # ss) out vma =
     (if 8 < length (s_name s) then Inl (Name_Too_Long (s_name s))
      else
        (let raw_ptr = align_up (of_nat (length out)) falign;
             out1 = resize (unat raw_ptr) out @ s_data s;
             raw_size = align_up (of_nat (length (s_data s))) falign;
             out2 = resize (unat (raw_ptr + raw_size)) out1;
             vma' = align_up (vma + of_nat (length (s_data s))) salign
         in and_then (place_sections falign salign ss out2 vma') (\<lambda>(out', vma'', headers).
            Inr (out', vma'', section_header s vma raw_size raw_ptr # headers))))"

fun write_headers :: "nat \<Rightarrow> bytes list \<Rightarrow> bytes \<Rightarrow> uki_error + bytes" where
  "write_headers off [] out = Inr out"
| "write_headers off (h # hs) out =
     and_then (write_at out off h) (\<lambda>out. write_headers (off + header_size) hs out)"

text \<open>The end of \<open>build\<close>: the headers, and the three fields of the image that change.\<close>

definition finish_image :: "pe_view \<Rightarrow> nat \<Rightarrow> u64 \<Rightarrow> bytes list \<Rightarrow> bytes \<Rightarrow> uki_error + bytes" where
  "finish_image pe n vma headers out =
     and_then (write_headers (sect_table pe + num_sections pe * header_size) headers out) (\<lambda>out.
     let count = num_sections pe + n in
     if \<not> count \<le> 65535 then Inl Too_Many_Sections else
     and_then (wr_u16 out (pe_off pe + 4 + 2) (of_nat count)) (\<lambda>out.
     and_then (wr_u32 out (opt_off pe + 56) (ucast vma)) (\<lambda>out.
     and_then (wr_u32 out (opt_off pe + 64) 0) (\<lambda>out.
     if length out > 4294967295 then Inl Too_Large else Inr out))))"

definition build :: "bytes \<Rightarrow> uki_section list \<Rightarrow> uki_error + bytes" where
  "build stub sections =
     and_then (parse_pe stub) (\<lambda>pe.
     and_then (section_bounds stub (sect_table pe) (num_sections pe) (0, 2 ^ 64 - 1)) (\<lambda>(va_end, raw_min).
     let headers_end = sect_table pe + (num_sections pe + length sections) * header_size;
         ceiling = min (unat (size_of_headers pe)) raw_min in
     if \<not> headers_end \<le> ceiling then Inl (No_Header_Room (length sections) headers_end ceiling) else
     let falign = ucast (file_align pe); salign = ucast (section_align pe) in
     and_then (place_sections falign salign sections stub (align_up (of_nat va_end) salign))
       (\<lambda>(out, vma, headers). finish_image pe (length sections) vma headers out)))"

subsection \<open>Fields read back\<close>

lemma length_le [simp]: "length (le16 v) = 2" "length (le32 w) = 4"
  by (simp_all add: le16_def le32_def)

lemma rd_le16: "rd_u16 (a @ le16 v @ c) (length a) = Inr v"
proof -
  have "ucast (ucast v :: byte) OR push_bit 8 (ucast (ucast (drop_bit 8 v) :: byte)) = v"
    by (rule bit_word_eqI) (auto simp: bit_simps)
  then show ?thesis by (simp add: rd_u16_def le16_def nth_append)
qed

lemma rd_le32: "rd_u32 (a @ le32 v @ c) (length a) = Inr v"
proof -
  have "ucast (ucast v :: byte) OR push_bit 8 (ucast (ucast (drop_bit 8 v) :: byte))
      OR push_bit 16 (ucast (ucast (drop_bit 16 v) :: byte))
      OR push_bit 24 (ucast (ucast (drop_bit 24 v) :: byte)) = v"
  proof (rule bit_word_eqI)
    fix n assume "n < LENGTH(32)"
    then show "bit (ucast (ucast v :: byte) OR push_bit 8 (ucast (ucast (drop_bit 8 v) :: byte))
      OR push_bit 16 (ucast (ucast (drop_bit 16 v) :: byte))
      OR push_bit 24 (ucast (ucast (drop_bit 24 v) :: byte)) :: u32) n = bit v n"
      by (cases "24 \<le> n"; cases "16 \<le> n"; cases "8 \<le> n") (auto simp: bit_simps)
  qed
  then show ?thesis by (simp add: rd_u32_def le32_def nth_append eval_nat_numeral)
qed

text \<open>A field depends on its own bytes only.\<close>

definition agree :: "nat \<Rightarrow> nat \<Rightarrow> bytes \<Rightarrow> bytes \<Rightarrow> bool" where
  "agree lo n b c \<longleftrightarrow> lo + n \<le> length b \<and> lo + n \<le> length c \<and> (\<forall>i. lo \<le> i \<and> i < lo + n \<longrightarrow> b ! i = c ! i)"

lemma rd_u16_agree: "agree off 2 b c \<Longrightarrow> rd_u16 b off = rd_u16 c off"
  by (simp add: agree_def rd_u16_def)

lemma rd_u32_agree: "agree off 4 b c \<Longrightarrow> rd_u32 b off = rd_u32 c off"
  by (simp add: agree_def rd_u32_def)

lemma rd_u32_Inr_length: "rd_u32 b off = Inr v \<Longrightarrow> off + 4 \<le> length b"
  by (auto simp: rd_u32_def split: if_splits)

lemma write_at_Inr:
  assumes "write_at b off x = Inr c"
  shows "length c = length b" and "off + length x \<le> length b"
    and "\<And>i. i < length b \<Longrightarrow> i < off \<or> off + length x \<le> i \<Longrightarrow> c ! i = b ! i"
    and "bytes_at c off (length x) = x"
  using assms by (auto simp: write_at_def bytes_at_def nth_append split: if_splits)

subsection \<open>Alignment\<close>

definition power_of_two :: "u64 \<Rightarrow> bool" where
  "power_of_two a \<longleftrightarrow> (\<exists>k < 64. a = 2 ^ k)"

text \<open>
  Without overflow, \<open>align_up\<close> gives the least multiple of the alignment that is not below its
  argument.
\<close>

lemma align_up_nat:
  assumes "k < 64" and "unat x + 2 ^ k - 1 < 2 ^ 64"
  shows "unat (align_up x (2 ^ k)) = (unat x + 2 ^ k - 1) div 2 ^ k * 2 ^ k"
proof -
  have "1 \<le> unat x + 2 ^ k" by (simp add: Suc_leI)
  then have "(of_nat (unat x + 2 ^ k - 1) :: u64) = of_nat (unat x + 2 ^ k) - of_nat 1" by (rule of_nat_diff)
  then have "x + 2 ^ k - 1 = (of_nat (unat x + 2 ^ k - 1) :: u64)" by simp
  then have sum: "unat (x + 2 ^ k - 1) = unat x + 2 ^ k - 1"
    using assms(2) by (simp add: unat_of_nat)
  have "align_up x (2 ^ k) = (x + 2 ^ k - 1) AND NOT (mask k)"
    by (simp add: align_up_def mask_eq_exp_minus_1)
  also have "\<dots> = push_bit k (drop_bit k (x + 2 ^ k - 1))"
    by (rule bit_word_eqI) (auto simp: bit_simps)
  finally have up: "align_up x (2 ^ k) = push_bit k (drop_bit k (x + 2 ^ k - 1))" .
  have "take_bit 64 (unat y) = unat y" for y :: u64
    by (rule take_bit_nat_eq_self) (rule order.strict_trans2[OF unsigned_less], simp)
  then have "unat (push_bit k (drop_bit k y)) = take_bit 64 (push_bit k (drop_bit k (unat y)))" for y :: u64
    by (simp add: unsigned_push_bit_eq unsigned_drop_bit_eq)
  then have "unat (align_up x (2 ^ k)) = take_bit 64 (push_bit k (drop_bit k (unat x + 2 ^ k - 1)))"
    unfolding up sum[symmetric] .
  also have "\<dots> = push_bit k (drop_bit k (unat x + 2 ^ k - 1))"
  proof (rule take_bit_nat_eq_self)
    have "push_bit k (drop_bit k (unat x + 2 ^ k - 1)) \<le> unat x + 2 ^ k - 1"
      by (simp add: push_bit_eq_mult drop_bit_eq_div)
    then show "push_bit k (drop_bit k (unat x + 2 ^ k - 1)) < 2 ^ 64" using assms(2) by linarith
  qed
  finally show ?thesis by (simp add: push_bit_eq_mult drop_bit_eq_div)
qed

lemma align_up_bounds:
  assumes "k < 32" and "n < 2 ^ 62"
  shows "n \<le> unat (align_up (of_nat n) (2 ^ k))" and "unat (align_up (of_nat n) (2 ^ k)) < n + 2 ^ k"
    and "2 ^ k dvd unat (align_up (of_nat n) (2 ^ k))"
proof -
  have pow: "(2::nat) ^ k < 2 ^ 32" using assms(1) by (rule power_strict_increasing) simp
  have un: "unat (of_nat n :: u64) = n" using assms(2) by (simp add: unat_of_nat)
  have "unat (of_nat n :: u64) + 2 ^ k - 1 < 2 ^ 64" using assms(2) pow by (simp add: un)
  then have eq: "unat (align_up (of_nat n) (2 ^ k)) = (n + 2 ^ k - 1) div 2 ^ k * 2 ^ k"
    using align_up_nat[of k "of_nat n"] assms(1) un by simp
  then show "2 ^ k dvd unat (align_up (of_nat n) (2 ^ k))" by simp
  have "(n + 2 ^ k - 1) div 2 ^ k * 2 ^ k + (n + 2 ^ k - 1) mod 2 ^ k = n + 2 ^ k - 1"
    by (rule div_mult_mod_eq)
  moreover have "(n + 2 ^ k - 1) mod 2 ^ k < 2 ^ k" by simp
  ultimately show "n \<le> unat (align_up (of_nat n) (2 ^ k))" "unat (align_up (of_nat n) (2 ^ k)) < n + 2 ^ k"
    unfolding eq by linarith+
qed

subsection \<open>Where the data ends up\<close>

lemma resize_grow: "length b \<le> n \<Longrightarrow> resize n b = b @ replicate (n - length b) 0"
  by (simp add: resize_def)

text \<open>A raw pointer and size that hold a section's data in a file, from an offset on.\<close>

definition holds_data :: "nat \<Rightarrow> nat \<Rightarrow> bytes \<Rightarrow> uki_section \<Rightarrow> nat \<Rightarrow> nat \<Rightarrow> bool" where
  "holds_data align lo out s ptr len \<longleftrightarrow>
     lo \<le> ptr \<and> align dvd ptr \<and> length (s_data s) \<le> len \<and> ptr + len \<le> length out
     \<and> bytes_at out ptr (length (s_data s)) = s_data s"

definition good_header :: "nat \<Rightarrow> nat \<Rightarrow> bytes \<Rightarrow> uki_section \<Rightarrow> bytes \<Rightarrow> bool" where
  "good_header align lo out s h \<longleftrightarrow> length (s_name s) \<le> 8 \<and>
     (\<exists>vma raw_size raw_ptr. h = section_header s vma raw_size raw_ptr
        \<and> holds_data align lo out s (unat raw_ptr) (unat raw_size))"

lemma bytes_at_append: "lo + n \<le> length b \<Longrightarrow> bytes_at (b @ c) lo n = bytes_at b lo n"
  by (simp add: bytes_at_def)

lemma holds_data_append: "holds_data align lo out s ptr len \<Longrightarrow> holds_data align lo (out @ t) s ptr len"
  unfolding holds_data_def by (simp add: bytes_at_append)

lemma good_header_append: "good_header align lo out s h \<Longrightarrow> good_header align lo (out @ t) s h"
  unfolding good_header_def by (blast intro: holds_data_append)

lemma good_header_lower: "good_header align lo out s h \<Longrightarrow> lo' \<le> lo \<Longrightarrow> good_header align lo' out s h"
  unfolding good_header_def holds_data_def by (blast intro: le_trans)

lemma place_sections_spec:
  assumes "place_sections (2 ^ k) salign ss out vma = Inr (out', vma', hs)" and "k < 32"
    and "\<forall>s \<in> set ss. length (s_data s) < 2 ^ 32" and "length out + length ss * 2 ^ 34 < 2 ^ 62"
  shows "list_all2 (good_header (2 ^ k) (length out) out') ss hs \<and> (\<exists>t. out' = out @ t)"
  using assms
proof (induction ss arbitrary: out vma hs)
  case Nil
  then show ?case by simp
next
  case (Cons s ss)
  define raw_ptr where "raw_ptr = align_up (of_nat (length out)) (2 ^ k)"
  define raw_size where "raw_size = align_up (of_nat (length (s_data s))) (2 ^ k)"
  define out1 where "out1 = resize (unat raw_ptr) out @ s_data s"
  define out2 where "out2 = resize (unat (raw_ptr + raw_size)) out1"
  have name: "length (s_name s) \<le> 8" using Cons.prems(1) by (auto split: if_splits)
  from Cons.prems(1) name obtain hs' vmb where
    rest: "place_sections (2 ^ k) salign ss out2 vmb = Inr (out', vma', hs')"
    and hs: "hs = section_header s vma raw_size raw_ptr # hs'"
    by (auto simp: Let_def and_then_Inr_iff raw_ptr_def raw_size_def out1_def out2_def)
  have pow: "(2::nat) ^ k < 2 ^ 32" using Cons.prems(2) by (rule power_strict_increasing) simp
  have small: "length (s_data s) < 2 ^ 32" "length out < 2 ^ 62" using Cons.prems(3,4) by simp_all
  have ptr: "length out \<le> unat raw_ptr" "unat raw_ptr < length out + 2 ^ k" "2 ^ k dvd unat raw_ptr"
    unfolding raw_ptr_def by (rule align_up_bounds[OF Cons.prems(2)], use small in simp)+
  have size: "length (s_data s) \<le> unat raw_size" "unat raw_size < length (s_data s) + 2 ^ k"
    unfolding raw_size_def by (rule align_up_bounds[OF Cons.prems(2)], use small in simp)+
  have sum: "unat (raw_ptr + raw_size) = unat raw_ptr + unat raw_size"
    using ptr size pow small by (subst unat_word_ariths) (simp add: mod_less)
  have o1: "out1 = out @ replicate (unat raw_ptr - length out) 0 @ s_data s"
    using ptr by (simp add: out1_def resize_grow)
  have o1_len: "length out1 = unat raw_ptr + length (s_data s)" using ptr by (simp add: o1)
  have o2: "out2 = out1 @ replicate (unat raw_size - length (s_data s)) 0"
    unfolding out2_def sum using size by (subst resize_grow) (simp_all add: o1_len)
  have o2_len: "length out2 = unat raw_ptr + unat raw_size" using size by (simp add: o2 o1_len)
  have room: "length out2 + length ss * 2 ^ 34 < 2 ^ 62"
    using Cons.prems(4) o2_len ptr size pow small by simp
  from Cons.IH[OF rest Cons.prems(2) _ room] Cons.prems(3)
  have ih: "list_all2 (good_header (2 ^ k) (length out2) out') ss hs'" and ext: "\<exists>t. out' = out2 @ t" by auto
  have "good_header (2 ^ k) (length out) out2 s (section_header s vma raw_size raw_ptr)"
    unfolding good_header_def holds_data_def
    using name ptr size o2_len by (intro exI conjI refl) (auto simp: bytes_at_def o2 o1)
  then have "good_header (2 ^ k) (length out) out' s (section_header s vma raw_size raw_ptr)"
    using ext by (auto intro: good_header_append)
  moreover have "list_all2 (good_header (2 ^ k) (length out) out') ss hs'"
    using ih by (rule list_all2_mono) (erule good_header_lower, use ptr o2_len in linarith)
  ultimately show ?case using ext by (auto simp: hs o2 o1)
qed

lemma length_section_header: "length (s_name s) \<le> 8 \<Longrightarrow> length (section_header s vma raw_size raw_ptr) = 40"
  by (simp add: section_header_def)

lemma length_good_header: "good_header align lo out s h \<Longrightarrow> length h = 40"
  by (auto simp: good_header_def length_section_header)

lemma write_headers_Inr:
  assumes "write_headers off hs out = Inr out'" and "\<forall>h \<in> set hs. length h = 40"
  shows "length out' = length out
    \<and> (\<forall>i < length out. i < off \<or> off + length hs * 40 \<le> i \<longrightarrow> out' ! i = out ! i)
    \<and> (\<forall>j < length hs. bytes_at out' (off + j * 40) 40 = hs ! j)"
  using assms
proof (induction hs arbitrary: off out)
  case Nil
  then show ?case by simp
next
  case (Cons h hs)
  then obtain out1 where step: "write_at out off h = Inr out1"
    and rest: "write_headers (off + 40) hs out1 = Inr out'"
    by (auto simp: and_then_Inr_iff header_size_def)
  note w = write_at_Inr[OF step]
  have h: "length h = 40" using Cons.prems(2) by simp
  from Cons.IH[OF rest] Cons.prems(2) have ih: "length out' = length out1"
    "\<And>i. i < length out1 \<Longrightarrow> i < off + 40 \<or> off + 40 + length hs * 40 \<le> i \<Longrightarrow> out' ! i = out1 ! i"
    "\<And>j. j < length hs \<Longrightarrow> bytes_at out' (off + 40 + j * 40) 40 = hs ! j" by auto
  have first: "bytes_at out' off 40 = h"
  proof -
    have "bytes_at out' off 40 = bytes_at out1 off 40"
      unfolding bytes_at_def using w(1,2) h ih(1,2) by (intro nth_equalityI) auto
    with w(4) h show ?thesis by simp
  qed
  show ?case
  proof (intro conjI allI impI)
    show "length out' = length out" using ih(1) w(1) by simp
    fix i assume "i < length out" "i < off \<or> off + length (h # hs) * 40 \<le> i"
    then show "out' ! i = out ! i" using ih(2)[of i] w(1) w(3)[of i] h by auto
  next
    fix j assume "j < length (h # hs)"
    then show "bytes_at out' (off + j * 40) 40 = (h # hs) ! j"
      using first ih(3)[of "j - 1"] by (cases j) (simp_all add: algebra_simps)
  qed
qed

subsection \<open>Where the sections are loaded\<close>

text \<open>The addresses in memory that the loop assigns, and the bound under which none of them overflows.\<close>

fun section_vmas :: "u64 \<Rightarrow> u64 \<Rightarrow> uki_section list \<Rightarrow> u64 list" where
  "section_vmas salign vma [] = []"
| "section_vmas salign vma (s # ss) = vma # section_vmas salign (align_up (vma + of_nat (length (s_data s))) salign) ss"

definition span :: "nat \<Rightarrow> uki_section list \<Rightarrow> nat" where
  "span m ss = (\<Sum>s \<leftarrow> ss. length (s_data s) + 2 ^ m)"

lemma place_sections_vmas:
  "place_sections falign salign ss out vma = Inr (out', vma', hs) \<Longrightarrow> j < length ss \<Longrightarrow>
     \<exists>raw_size raw_ptr. hs ! j = section_header (ss ! j) (section_vmas salign vma ss ! j) raw_size raw_ptr"
proof (induction ss arbitrary: out vma hs j)
  case (Cons s ss)
  from Cons.prems(1) obtain out2 raw_size raw_ptr hs' where
    rest: "place_sections falign salign ss out2 (align_up (vma + of_nat (length (s_data s))) salign) = Inr (out', vma', hs')"
    and hs: "hs = section_header s vma raw_size raw_ptr # hs'"
    by (auto simp: Let_def and_then_Inr_iff split: if_splits)
  show ?case
  proof (cases j)
    case 0
    then show ?thesis by (auto simp: hs)
  next
    case (Suc i)
    with Cons.IH[OF rest, of i] Cons.prems(2) show ?thesis by (simp add: hs)
  qed
qed simp

lemma length_section_vmas [simp]: "length (section_vmas salign vma ss) = length ss"
  by (induction ss arbitrary: vma) simp_all

text \<open>Each address is aligned, and past the end of every section before it.\<close>

lemma section_vmas_bounds:
  assumes "m < 32" and "2 ^ m dvd unat vma" and "unat vma + span m ss < 2 ^ 32" and "j < length ss"
  shows "unat vma \<le> unat (section_vmas (2 ^ m) vma ss ! j) \<and> 2 ^ m dvd unat (section_vmas (2 ^ m) vma ss ! j)
    \<and> unat (section_vmas (2 ^ m) vma ss ! j) + length (s_data (ss ! j)) < 2 ^ 32
    \<and> (\<forall>i < j. unat (section_vmas (2 ^ m) vma ss ! i) + length (s_data (ss ! i)) \<le> unat (section_vmas (2 ^ m) vma ss ! j))"
  using assms(2-)
proof (induction ss arbitrary: vma j)
  case (Cons s ss)
  let ?n = "length (s_data s)"
  define vma' where "vma' = align_up (vma + of_nat ?n) (2 ^ m)"
  have small: "unat vma + ?n < 2 ^ 32" "unat vma + ?n + 2 ^ m + span m ss < 2 ^ 32"
    using Cons.prems by (simp_all add: span_def)
  have "vma + of_nat ?n = of_nat (unat vma + ?n)" by simp
  then have up: "unat vma + ?n \<le> unat vma'" "unat vma' < unat vma + ?n + 2 ^ m" "2 ^ m dvd unat vma'"
    unfolding vma'_def using align_up_bounds[OF assms(1), of "unat vma + ?n"] small by simp_all
  have room: "unat vma' + span m ss < 2 ^ 32" using up small by simp
  show ?case
  proof (cases j)
    case 0
    with Cons.prems(1) small show ?thesis by simp
  next
    case (Suc k)
    from Cons.prems(3) Suc have "k < length ss" by simp
    note ih = Cons.IH[OF up(3) room this]
    show ?thesis
      using ih up(1) unfolding Suc section_vmas.simps vma'_def[symmetric] nth_Cons_Suc All_less_Suc2 by simp
  qed
qed simp

subsection \<open>Reading the image back\<close>

text \<open>
  A section header as a loader reads it: the name field, the size and address in memory, the size
  and offset of the raw data.
\<close>

definition read_section :: "bytes \<Rightarrow> nat \<Rightarrow> uki_error + (bytes \<times> u32 \<times> u32 \<times> u32 \<times> u32)" where
  "read_section b off =
     and_then (rd_u32 b (off + 8)) (\<lambda>vsize. and_then (rd_u32 b (off + 12)) (\<lambda>vaddr.
     and_then (rd_u32 b (off + 16)) (\<lambda>rsize. and_then (rd_u32 b (off + 20)) (\<lambda>rptr.
       Inr (bytes_at b off 8, vsize, vaddr, rsize, rptr)))))"

lemma bytes_at_nth: "lo + n \<le> length b \<Longrightarrow> i < n \<Longrightarrow> bytes_at b lo n ! i = b ! (lo + i)"
  by (simp add: bytes_at_def)

lemma length_bytes_at: "lo + n \<le> length b \<Longrightarrow> length (bytes_at b lo n) = n"
  by (simp add: bytes_at_def)

lemma bytes_at_agree: "agree lo n b c \<Longrightarrow> bytes_at b lo n = bytes_at c lo n"
  by (rule nth_equalityI) (auto simp: agree_def bytes_at_nth length_bytes_at)

lemma bytes_at_le: "bytes_at c off n = x \<Longrightarrow> length x = n \<Longrightarrow> 0 < n \<Longrightarrow> c = take off c @ x @ drop (off + n) c"
  unfolding bytes_at_def by (metis append_take_drop_id drop_drop add.commute)

lemma bytes_at_length: "bytes_at c off n = x \<Longrightarrow> length x = n \<Longrightarrow> 0 < n \<Longrightarrow> off + n \<le> length c"
  by (auto simp: bytes_at_def)

lemma rd_u16_bytes_at: "bytes_at c off 2 = le16 v \<Longrightarrow> rd_u16 c off = Inr v"
  using rd_le16[of "take off c" v "drop (off + 2) c"] bytes_at_le[of c off 2 "le16 v"]
    bytes_at_length[of c off 2 "le16 v"] by simp

text \<open>The fields of a header that was written.\<close>

lemma rd_u32_in_header:
  assumes "bytes_at c off 40 = h" and "length h = 40" and "h = a @ le32 v @ z"
  shows "rd_u32 c (off + length a) = Inr v"
proof -
  have "off + 40 \<le> length c" using assms(1,2) by (rule bytes_at_length) simp
  moreover have "c = take off c @ h @ drop (off + 40) c" using assms(1,2) by (rule bytes_at_le) simp
  ultimately show ?thesis
    using rd_le32[of "take off c @ a" v "z @ drop (off + 40) c"] assms(3) by simp
qed

definition padded_name :: "uki_section \<Rightarrow> bytes" where
  "padded_name s = str_bytes (s_name s) @ replicate (8 - length (s_name s)) 0"

lemma read_section_header:
  assumes "length (s_name s) \<le> 8" and "bytes_at c off 40 = section_header s vma raw_size raw_ptr"
  shows "read_section c off =
    Inr (padded_name s, of_nat (length (s_data s)), ucast vma, ucast raw_size, ucast raw_ptr)"
proof -
  let ?h = "section_header s vma raw_size raw_ptr" and ?n = "padded_name s"
  let ?v = "le32 (of_nat (length (s_data s)))" and ?a = "le32 (ucast vma)" and ?r = "le32 (ucast raw_size)"
    and ?p = "le32 (ucast raw_ptr)" and ?z = "replicate 12 (0::byte) @ le32 section_flags"
  have len: "length ?h = 40" "length ?n = 8" using assms(1) by (simp_all add: section_header_def padded_name_def)
  note field = rd_u32_in_header[OF assms(2) len(1)]
  have "rd_u32 c (off + 8) = Inr (of_nat (length (s_data s)))" "rd_u32 c (off + 12) = Inr (ucast vma)"
    "rd_u32 c (off + 16) = Inr (ucast raw_size)" "rd_u32 c (off + 20) = Inr (ucast raw_ptr)"
    using field[of ?n _ "?a @ ?r @ ?p @ ?z"] field[of "?n @ ?v" _ "?r @ ?p @ ?z"]
      field[of "?n @ ?v @ ?a" _ "?p @ ?z"] field[of "?n @ ?v @ ?a @ ?r" _ ?z] len(2)
    by (simp_all add: section_header_def padded_name_def)
  moreover have "bytes_at c off 8 = take 8 (bytes_at c off 40)" by (simp add: bytes_at_def)
  then have "bytes_at c off 8 = ?n" using len(2) by (simp add: assms(2) section_header_def padded_name_def)
  ultimately show ?thesis by (simp add: read_section_def)
qed

text \<open>What parsing checks, field by field.\<close>

lemma parse_pe_Inr_iff:
  "parse_pe b = Inr pe \<longleftrightarrow>
     (\<exists>at num size_opt. 64 < length b \<and> bytes_at b 0 2 = str_bytes ''MZ'' \<and> rd_u32 b 60 = Inr at
        \<and> pe_off pe = unat at \<and> pe_off pe + 24 \<le> length b
        \<and> bytes_at b (pe_off pe) 4 = str_bytes ''PE'' @ [0, 0]
        \<and> rd_u16 b (pe_off pe + 6) = Inr num \<and> num_sections pe = unat num
        \<and> rd_u16 b (pe_off pe + 20) = Inr size_opt \<and> opt_off pe = pe_off pe + 24
        \<and> rd_u16 b (opt_off pe) = Inr 0x20b \<and> rd_u32 b (opt_off pe + 32) = Inr (section_align pe)
        \<and> rd_u32 b (opt_off pe + 36) = Inr (file_align pe)
        \<and> rd_u32 b (opt_off pe + 60) = Inr (size_of_headers pe)
        \<and> sect_table pe = opt_off pe + unat size_opt
        \<and> sect_table pe + num_sections pe * 40 \<le> length b)"
  by (cases pe) (auto simp: parse_pe_def Let_def and_then_Inr_iff header_size_def add.commute)

subsection \<open>The built image\<close>

text \<open>
  A stub as linkers produce it: headers apart from each other and inside the file, the file alignment
  a power of two. (The code checks none of this.)
\<close>

definition sound_stub :: "bytes \<Rightarrow> pe_view \<Rightarrow> nat \<Rightarrow> bool" where
  "sound_stub stub pe k \<longleftrightarrow> parse_pe stub = Inr pe \<and> 64 \<le> pe_off pe \<and> opt_off pe + 68 \<le> sect_table pe
     \<and> unat (size_of_headers pe) \<le> length stub \<and> length stub < 2 ^ 32
     \<and> k < 32 \<and> file_align pe = 2 ^ k"

text \<open>The bytes of the stub that building leaves alone, given the number of new sections.\<close>

definition kept :: "pe_view \<Rightarrow> nat \<Rightarrow> nat \<Rightarrow> bool" where
  "kept pe n i \<longleftrightarrow>
     (i < pe_off pe + 6 \<or> pe_off pe + 8 \<le> i) \<and> (i < opt_off pe + 56 \<or> opt_off pe + 60 \<le> i)
     \<and> (i < opt_off pe + 64 \<or> opt_off pe + 68 \<le> i)
     \<and> (i < sect_table pe + num_sections pe * 40 \<or> sect_table pe + (num_sections pe + n) * 40 \<le> i)"

text \<open>The end in memory of the stub's own sections.\<close>

definition stub_end :: "bytes \<Rightarrow> pe_view \<Rightarrow> nat" where
  "stub_end stub pe =
     (case section_bounds stub (sect_table pe) (num_sections pe) (0, 2 ^ 64 - 1) of
        Inl e \<Rightarrow> 0 | Inr (va_end, raw_min) \<Rightarrow> va_end)"

lemma file_align_word:
  assumes "sound_stub stub pe k"
  shows "ucast (file_align pe) = (2 ^ k :: u64)"
proof -
  have "k < 32" "file_align pe = 2 ^ k" using assms by (simp_all add: sound_stub_def)
  moreover from this(1) have "(ucast (2 ^ k :: u32) :: u64) = 2 ^ k"
    by (intro bit_word_eqI) (auto simp: bit_simps)
  ultimately show ?thesis by simp
qed

text \<open>The sections placed on a sound stub, with room for their headers; and the header fields written last.\<close>

lemma sound_place:
  assumes "sound_stub stub pe k" and "\<forall>s \<in> set ss. length (s_data s) < 2 ^ 32"
    and "place_sections (2 ^ k) salign ss stub vma = Inr (placed, vma', hs)"
    and "sect_table pe + (num_sections pe + length ss) * 40 \<le> length stub"
  shows "list_all2 (good_header (2 ^ k) (length stub) placed) ss hs" and "\<exists>t. placed = stub @ t"
    and "\<forall>h \<in> set hs. length h = 40" and "length hs = length ss"
proof -
  have k: "k < 32" and "length stub < 2 ^ 32" using assms(1) by (simp_all add: sound_stub_def)
  then have "length stub + length ss * 2 ^ 34 < 2 ^ 62" using assms(4) by simp
  from place_sections_spec[OF assms(3) k assms(2) this]
  show good: "list_all2 (good_header (2 ^ k) (length stub) placed) ss hs" and "\<exists>t. placed = stub @ t" by auto
  show "\<forall>h \<in> set hs. length h = 40"
    using good by (auto simp: list_all2_conv_all_nth in_set_conv_nth dest!: length_good_header)
  show "length hs = length ss" using good by (simp add: list_all2_lengthD)
qed

lemma finish_image_Inr:
  assumes "finish_image pe n vma hs placed = Inr out" and "\<forall>h \<in> set hs. length h = 40" and "length hs = n"
    and "opt_off pe = pe_off pe + 24" and "opt_off pe + 68 \<le> sect_table pe"
    and "sect_table pe + (num_sections pe + n) * 40 \<le> length placed"
  shows "length out = length placed" and "length out < 2 ^ 32" and "num_sections pe + n \<le> 65535"
    and "i < length out \<Longrightarrow> kept pe n i \<Longrightarrow> out ! i = placed ! i"
    and "j < n \<Longrightarrow> bytes_at out (sect_table pe + (num_sections pe + j) * 40) 40 = hs ! j"
    and "rd_u16 out (pe_off pe + 6) = Inr (of_nat (num_sections pe + n))"
proof -
  let ?count = "num_sections pe + n"
  obtain out1 out2 out3 where headers: "write_headers (sect_table pe + num_sections pe * 40) hs placed = Inr out1"
    and count: "?count \<le> 65535" and w1: "write_at out1 (pe_off pe + 6) (le16 (of_nat ?count)) = Inr out2"
    and w2: "write_at out2 (opt_off pe + 56) (le32 (ucast vma)) = Inr out3"
    and w3: "write_at out3 (opt_off pe + 64) (le32 0) = Inr out" and small: "\<not> length out > 4294967295"
    using assms(1)
    by (auto simp: finish_image_def Let_def and_then_Inr_iff header_size_def wr_u16_def wr_u32_def add.commute[of 6]
        split: if_splits)
  note h = write_headers_Inr[OF headers assms(2), unfolded assms(3)]
  note a1 = write_at_Inr[OF w1] and a2 = write_at_Inr[OF w2] and a3 = write_at_Inr[OF w3]
  show len: "length out = length placed" using h a1(1) a2(1) a3(1) by simp
  have late: "out ! i = out1 ! i" if "i < length out" "i < pe_off pe + 6 \<or> pe_off pe + 8 \<le> i"
    "i < opt_off pe + 56 \<or> opt_off pe + 60 \<le> i" "i < opt_off pe + 64 \<or> opt_off pe + 68 \<le> i" for i
  proof -
    have "out ! i = out3 ! i" using that a3(1) a3(3)[of i] a2(1) by fastforce
    also have "\<dots> = out2 ! i" using that a3(1) a2(1) a2(3)[of i] by fastforce
    also have "\<dots> = out1 ! i" using that a3(1) a2(1) a1(1) a1(3)[of i] by fastforce
    finally show ?thesis .
  qed
  show "length out < 2 ^ 32" "?count \<le> 65535" using small count by simp_all
  show "out ! i = placed ! i" if "i < length out" "kept pe n i"
    using that late[of i] h len by (auto simp: kept_def algebra_simps)
  show "bytes_at out (sect_table pe + (num_sections pe + j) * 40) 40 = hs ! j" if j: "j < n"
  proof -
    let ?at = "sect_table pe + (num_sections pe + j) * 40"
    have "?at + 40 \<le> length out" using j assms(6) len by simp
    then have "bytes_at out ?at 40 = bytes_at out1 ?at 40"
      using h len assms(4,5) by (intro bytes_at_agree) (auto simp: agree_def intro!: late)
    moreover have "bytes_at out1 (sect_table pe + num_sections pe * 40 + j * 40) 40 = hs ! j" using h j by blast
    ultimately show ?thesis by (simp add: algebra_simps)
  qed
  have "bytes_at out (pe_off pe + 6) 2 = bytes_at out2 (pe_off pe + 6) 2"
    using a1(1,2) a2(1) a2(3) a3(1) a3(3) assms(4) by (intro bytes_at_agree) (auto simp: agree_def)
  with a1(4) show "rd_u16 out (pe_off pe + 6) = Inr (of_nat ?count)" by (intro rd_u16_bytes_at) simp
qed

lemma build_steps:
  assumes "build stub ss = Inr out" and "sound_stub stub pe k"
    and "\<forall>s \<in> set ss. length (s_data s) < 2 ^ 32"
  obtains placed hs vma where "list_all2 (good_header (2 ^ k) (length stub) placed) ss hs"
    and "\<exists>t. placed = stub @ t" and "length out = length placed" and "length out < 2 ^ 32"
    and "\<And>i. i < length out \<Longrightarrow> kept pe (length ss) i \<Longrightarrow> out ! i = placed ! i"
    and "\<And>j. j < length ss \<Longrightarrow> bytes_at out (sect_table pe + (num_sections pe + j) * 40) 40 = hs ! j"
    and "rd_u16 out (pe_off pe + 6) = Inr (of_nat (num_sections pe + length ss))"
    and "num_sections pe + length ss \<le> 65535"
    and "sect_table pe + (num_sections pe + length ss) * 40 \<le> length stub"
    and "place_sections (2 ^ k) (ucast (section_align pe)) ss stub
        (align_up (of_nat (stub_end stub pe)) (ucast (section_align pe))) = Inr (placed, vma, hs)"
proof -
  have pe: "parse_pe stub = Inr pe" and headers_in: "unat (size_of_headers pe) \<le> length stub"
    and opt_in: "opt_off pe + 68 \<le> sect_table pe"
    using assms(2) by (simp_all add: sound_stub_def)
  have opt: "opt_off pe = pe_off pe + 24" using pe by (auto simp: parse_pe_Inr_iff)
  have align: "ucast (file_align pe) = (2 ^ k :: u64)" by (rule file_align_word[OF assms(2)])
  let ?stop = "sect_table pe + (num_sections pe + length ss) * 40"
  from assms(1) pe obtain va_end raw_min placed vma hs where
    bounds: "section_bounds stub (sect_table pe) (num_sections pe) (0, 18446744073709551615) = Inr (va_end, raw_min)"
    and room: "?stop \<le> unat (size_of_headers pe)"
    and place: "place_sections (2 ^ k) (ucast (section_align pe)) ss stub
        (align_up (of_nat va_end) (ucast (section_align pe))) = Inr (placed, vma, hs)"
    and finish: "finish_image pe (length ss) vma hs placed = Inr out"
    by (auto simp: build_def Let_def and_then_Inr_iff align header_size_def split: if_splits prod.splits)
  have in_stub: "?stop \<le> length stub" using room headers_in by simp
  note placed = sound_place[OF assms(2,3) place in_stub]
  have "?stop \<le> length placed" using in_stub placed(2) by auto
  note finished = finish_image_Inr[OF finish placed(3,4) opt opt_in this]
  have "stub_end stub pe = va_end" using bounds by (simp add: stub_end_def)
  with place show thesis by (intro that[OF placed(1,2) finished(1,2,4,5,6,3) in_stub]) simp_all
qed

text \<open>The image parses as the stub did, with the new sections counted.\<close>

lemma build_parses:
  assumes "build stub ss = Inr out" and "sound_stub stub pe k"
    and "\<forall>s \<in> set ss. length (s_data s) < 2 ^ 32"
  shows "parse_pe out = Inr (pe\<lparr>num_sections := num_sections pe + length ss\<rparr>)"
  using assms
proof (cases rule: build_steps)
  case (1 placed hs vma)
  have pe: "parse_pe stub = Inr pe" and far: "64 \<le> pe_off pe" "opt_off pe + 68 \<le> sect_table pe"
    using assms(2) by (simp_all add: sound_stub_def)
  then have opt: "opt_off pe = pe_off pe + 24" by (auto simp: parse_pe_Inr_iff)
  have long: "length stub \<le> length out" using 1(2,3) by auto
  have same: "agree lo n out stub" if "lo + n \<le> length stub" "\<And>i. lo \<le> i \<Longrightarrow> i < lo + n \<Longrightarrow> kept pe (length ss) i" for lo n
    using that long 1(2) 1(5) unfolding agree_def by (auto simp: nth_append)
  have field: "rd_u32 out off = rd_u32 stub off" if "off = 60 \<or> off = opt_off pe + 32 \<or> off = opt_off pe + 36 \<or> off = opt_off pe + 60" for off
    using that far opt 1(9) by (intro rd_u32_agree same) (auto simp: kept_def)
  have field16: "rd_u16 out off = rd_u16 stub off" if "off = pe_off pe + 20 \<or> off = opt_off pe" for off
    using that far opt 1(9) by (intro rd_u16_agree same) (auto simp: kept_def)
  have sigs: "bytes_at out 0 2 = bytes_at stub 0 2" "bytes_at out (pe_off pe) 4 = bytes_at stub (pe_off pe) 4"
    using far opt 1(9) by (auto intro!: bytes_at_agree same simp: kept_def)
  have count: "unat (of_nat (num_sections pe + length ss) :: u16) = num_sections pe + length ss"
    using 1(8) by (simp add: unat_of_nat del: of_nat_add)
  show ?thesis
    using pe long 1(7,9) count
    by (auto simp: parse_pe_Inr_iff sigs field field16)
qed

text \<open>
  Every section grafted on is found through its header, in order, its raw data intact and aligned;
  what the stub had outside the fields rewritten is still there.
\<close>

lemma build_sections:
  assumes "build stub ss = Inr out" and "sound_stub stub pe k"
    and "\<forall>s \<in> set ss. length (s_data s) < 2 ^ 32" and "j < length ss"
  shows "\<exists>vaddr rsize rptr. read_section out (sect_table pe + (num_sections pe + j) * 40)
      = Inr (padded_name (ss ! j), of_nat (length (s_data (ss ! j))), vaddr, rsize, rptr)
    \<and> holds_data (2 ^ k) (length stub) out (ss ! j) (unat rptr) (unat rsize)"
  using assms(1-3)
proof (cases rule: build_steps)
  case (1 placed hs vma)
  from 1(1) assms(4) have "good_header (2 ^ k) (length stub) placed (ss ! j) (hs ! j)"
    by (auto simp: list_all2_conv_all_nth)
  then obtain vma raw_size raw_ptr where name: "length (s_name (ss ! j)) \<le> 8"
    and h: "hs ! j = section_header (ss ! j) vma raw_size raw_ptr"
    and held: "holds_data (2 ^ k) (length stub) placed (ss ! j) (unat raw_ptr) (unat raw_size)"
    by (auto simp: good_header_def)
  have small: "unat raw_ptr < 2 ^ 32" "unat raw_size < 2 ^ 32"
    using held 1(3,4) by (auto simp: holds_data_def)
  then have narrow: "unat (ucast raw_ptr :: u32) = unat raw_ptr" "unat (ucast raw_size :: u32) = unat raw_size"
    by (simp_all add: unsigned_ucast_eq take_bit_nat_eq_self)
  have "bytes_at out (unat raw_ptr) (length (s_data (ss ! j))) = bytes_at placed (unat raw_ptr) (length (s_data (ss ! j)))"
  proof (rule bytes_at_agree)
    have lo: "length stub \<le> unat raw_ptr" and hi: "unat raw_ptr + length (s_data (ss ! j)) \<le> length placed"
      using held by (auto simp: holds_data_def)
    have far: "opt_off pe + 68 \<le> sect_table pe" "opt_off pe = pe_off pe + 24"
      using assms(2) by (auto simp: sound_stub_def parse_pe_Inr_iff)
    have "kept pe (length ss) i" if "length stub \<le> i" for i
      using that far 1(9) by (auto simp: kept_def)
    then show "agree (unat raw_ptr) (length (s_data (ss ! j))) out placed"
      using lo hi 1(3,5) by (auto simp: agree_def)
  qed
  with held 1(3) have "holds_data (2 ^ k) (length stub) out (ss ! j) (unat raw_ptr) (unat raw_size)"
    by (simp add: holds_data_def)
  moreover have "read_section out (sect_table pe + (num_sections pe + j) * 40)
      = Inr (padded_name (ss ! j), of_nat (length (s_data (ss ! j))), ucast vma, ucast raw_size, ucast raw_ptr)"
    using name 1(6)[OF assms(4)] by (intro read_section_header) (simp_all add: h)
  ultimately show ?thesis using narrow by (metis (no_types))
qed

lemma build_keeps_stub:
  assumes "build stub ss = Inr out" and "sound_stub stub pe k"
    and "\<forall>s \<in> set ss. length (s_data s) < 2 ^ 32" and "i < length stub" and "kept pe (length ss) i"
  shows "i < length out \<and> out ! i = stub ! i"
  using assms(1-3)
proof (cases rule: build_steps)
  case (1 placed hs vma)
  from 1(2,3) assms(4) have "i < length out" "placed ! i = stub ! i" by (auto simp: nth_append)
  with 1(5) assms(5) show ?thesis by simp
qed

text \<open>
  In memory the new sections lie after those of the stub, aligned, in order and apart, if their sizes
  leave room in 32 bits.
\<close>

lemma build_addresses:
  assumes "build stub ss = Inr out" and "sound_stub stub pe k"
    and "\<forall>s \<in> set ss. length (s_data s) < 2 ^ 32" and "section_align pe = 2 ^ m" and "m < 32"
    and "stub_end stub pe + 2 ^ m + span m ss < 2 ^ 32"
  shows "\<exists>vs. length vs = length ss \<and> (\<forall>j < length ss.
      (\<exists>rsize rptr. read_section out (sect_table pe + (num_sections pe + j) * 40)
         = Inr (padded_name (ss ! j), of_nat (length (s_data (ss ! j))), vs ! j, rsize, rptr))
      \<and> stub_end stub pe \<le> unat (vs ! j) \<and> 2 ^ m dvd unat (vs ! j)
      \<and> (\<forall>i < j. unat (vs ! i) + length (s_data (ss ! i)) \<le> unat (vs ! j)))"
  using assms(1-3)
proof (cases rule: build_steps)
  case (1 placed hs vma)
  have align: "ucast (section_align pe) = (2 ^ m :: u64)"
    unfolding assms(4) using assms(5) by (intro bit_word_eqI) (auto simp: bit_simps)
  let ?start = "align_up (of_nat (stub_end stub pe)) (2 ^ m) :: u64"
  let ?vs = "map ucast (section_vmas (2 ^ m) ?start ss) :: u32 list"
  have start: "stub_end stub pe \<le> unat ?start" "unat ?start < stub_end stub pe + 2 ^ m" "2 ^ m dvd unat ?start"
    using align_up_bounds[OF assms(5), of "stub_end stub pe"] assms(6) by simp_all
  then have room: "unat ?start + span m ss < 2 ^ 32" using assms(6) by simp
  note layout = section_vmas_bounds[OF assms(5) start(3) room]
  have narrow: "unat (?vs ! j) = unat (section_vmas (2 ^ m) ?start ss ! j)" if "j < length ss" for j
    using that layout[OF that] by (simp add: unsigned_ucast_eq take_bit_nat_eq_self)
  have header: "\<exists>rsize rptr. read_section out (sect_table pe + (num_sections pe + j) * 40)
      = Inr (padded_name (ss ! j), of_nat (length (s_data (ss ! j))), ?vs ! j, rsize, rptr)" if j: "j < length ss" for j
  proof -
    obtain raw_size raw_ptr where h: "hs ! j = section_header (ss ! j) (section_vmas (2 ^ m) ?start ss ! j) raw_size raw_ptr"
      using place_sections_vmas[OF 1(10)[unfolded align] j] by blast
    have "length (s_name (ss ! j)) \<le> 8" using 1(1) j by (auto simp: list_all2_conv_all_nth good_header_def)
    from read_section_header[OF this 1(6)[OF j, unfolded h]] j show ?thesis by simp
  qed
  show ?thesis
  proof (intro exI[of _ ?vs] conjI allI impI)
    fix j assume j: "j < length ss"
    show "stub_end stub pe \<le> unat (?vs ! j)" "2 ^ m dvd unat (?vs ! j)"
      using layout[OF j] start(1) unfolding narrow[OF j] by linarith+
    show "unat (?vs ! i) + length (s_data (ss ! i)) \<le> unat (?vs ! j)" if "i < j" for i
      using layout[OF j] narrow[OF j] narrow[of i] that j by simp
  qed (use header in simp_all)
qed

subsection \<open>How building fails\<close>

text \<open>On a sound stub no index is out of range: every failure is one of the reported ones.\<close>

lemma rd_in_range: "off + 4 \<le> length b \<Longrightarrow> \<exists>v. rd_u32 b off = Inr v"
  by (simp add: rd_u32_def)

lemma write_at_in_range: "off + length x \<le> length b \<Longrightarrow> \<exists>c. write_at b off x = Inr c \<and> length c = length b"
  by (auto simp: write_at_def)

lemma section_bounds_total:
  "table + n * 40 \<le> length b \<Longrightarrow> \<exists>va_end raw_min. section_bounds b table n acc = Inr (va_end, raw_min)"
proof (induction b table n acc rule: section_bounds.induct)
  case (2 b table k va_end raw_min)
  obtain v1 v2 v3 v4 where r: "rd_u32 b (table + 8) = Inr v1" "rd_u32 b (table + 12) = Inr v2"
    "rd_u32 b (table + 16) = Inr v3" "rd_u32 b (table + 20) = Inr v4"
    using rd_in_range[of "table + 8" b] rd_in_range[of "table + 12" b] rd_in_range[of "table + 16" b]
      rd_in_range[of "table + 20" b] 2(2) by auto
  with 2(1)[of v2 v1 v3 v4] 2(2) show ?case by (simp add: header_size_def)
qed simp

lemma place_sections_total:
  "\<exists>placed. place_sections falign salign ss out vma = Inr placed
   \<or> (\<exists>s \<in> set ss. 8 < length (s_name s) \<and> place_sections falign salign ss out vma = Inl (Name_Too_Long (s_name s)))"
proof (induction ss arbitrary: out vma)
  case Nil
  then show ?case by auto
next
  case (Cons s ss)
  show ?case
  proof (cases "8 < length (s_name s)")
    case False
    let ?raw_ptr = "align_up (of_nat (length out)) falign"
    let ?out1 = "resize (unat ?raw_ptr) out @ s_data s"
    let ?raw_size = "align_up (of_nat (length (s_data s))) falign"
    from False Cons.IH[of "resize (unat (?raw_ptr + ?raw_size)) ?out1" "align_up (vma + of_nat (length (s_data s))) salign"]
    show ?thesis by (auto simp: Let_def)
  qed auto
qed

lemma write_headers_total:
  "\<forall>h \<in> set hs. length h = 40 \<Longrightarrow> off + length hs * 40 \<le> length out \<Longrightarrow>
     \<exists>out'. write_headers off hs out = Inr out' \<and> length out' = length out"
proof (induction hs arbitrary: off out)
  case (Cons h hs)
  obtain out1 where "write_at out off h = Inr out1" "length out1 = length out"
    using write_at_in_range[of off h out] Cons.prems by auto
  with Cons.IH[of "off + 40" out1] Cons.prems show ?case by (auto simp: header_size_def)
qed simp

lemma finish_image_outcome:
  assumes "\<forall>h \<in> set hs. length h = 40" and "length hs = n"
    and "sect_table pe + (num_sections pe + n) * 40 \<le> length out"
    and "opt_off pe = pe_off pe + 24" and "opt_off pe + 68 \<le> sect_table pe"
  shows "65535 < num_sections pe + n \<and> finish_image pe n vma hs out = Inl Too_Many_Sections
    \<or> 4294967295 < length out \<and> finish_image pe n vma hs out = Inl Too_Large
    \<or> (\<exists>img. finish_image pe n vma hs out = Inr img)"
proof -
  obtain o1 where o1: "write_headers (sect_table pe + num_sections pe * 40) hs out = Inr o1" "length o1 = length out"
    using write_headers_total[of hs "sect_table pe + num_sections pe * 40" out] assms(1-3)
    by (auto simp: algebra_simps)
  obtain o2 where o2: "wr_u16 o1 (pe_off pe + 4 + 2) (of_nat (num_sections pe + n)) = Inr o2" "length o2 = length out"
    using write_at_in_range[of "pe_off pe + 4 + 2" "le16 (of_nat (num_sections pe + n))" o1] o1(2) assms(3-5)
    unfolding wr_u16_def by auto
  obtain o3 where o3: "wr_u32 o2 (opt_off pe + 56) (ucast vma) = Inr o3" "length o3 = length out"
    using write_at_in_range[of "opt_off pe + 56" "le32 (ucast vma)" o2] o2(2) assms(3-5)
    unfolding wr_u32_def by auto
  obtain o4 where o4: "wr_u32 o3 (opt_off pe + 64) 0 = Inr o4" "length o4 = length out"
    using write_at_in_range[of "opt_off pe + 64" "le32 0" o3] o3(2) assms(3-5)
    unfolding wr_u32_def by auto
  show ?thesis
    unfolding finish_image_def header_size_def Let_def o1(1) and_then_simps o2(1) o3(1) o4(1) by (simp add: not_le o4(2))
qed

text \<open>
  On a sound stub: too little room in the headers, a section name too long, too many sections, an
  image over 4 GiB, or the image. No index is out of range.
\<close>

lemma build_outcome:
  assumes "sound_stub stub pe k" and "\<forall>s \<in> set ss. length (s_data s) < 2 ^ 32"
  shows "(\<exists>need room. room < need \<and> build stub ss = Inl (No_Header_Room (length ss) need room))
    \<or> (\<exists>s \<in> set ss. 8 < length (s_name s) \<and> build stub ss = Inl (Name_Too_Long (s_name s)))
    \<or> 65535 < num_sections pe + length ss \<and> build stub ss = Inl Too_Many_Sections
    \<or> build stub ss = Inl Too_Large \<or> (\<exists>out. build stub ss = Inr out)"
proof -
  have pe: "parse_pe stub = Inr pe" and headers_in: "unat (size_of_headers pe) \<le> length stub" and opt_in: "opt_off pe + 68 \<le> sect_table pe"
    using assms(1) by (simp_all add: sound_stub_def)
  have opt: "opt_off pe = pe_off pe + 24" and table: "sect_table pe + num_sections pe * 40 \<le> length stub"
    using pe by (auto simp: parse_pe_Inr_iff)
  have align: "ucast (file_align pe) = (2 ^ k :: u64)" by (rule file_align_word[OF assms(1)])
  obtain va_end raw_min where
    bounds: "section_bounds stub (sect_table pe) (num_sections pe) (0, 2 ^ 64 - 1) = Inr (va_end, raw_min)"
    using section_bounds_total[OF table] by blast
  define need where "need = sect_table pe + (num_sections pe + length ss) * 40"
  define room where "room = min (unat (size_of_headers pe)) raw_min"
  define place where "place = place_sections (2 ^ k) (ucast (section_align pe)) ss stub
      (align_up (of_nat va_end) (ucast (section_align pe)))"
  have start: "build stub ss =
     (if \<not> need \<le> room then Inl (No_Header_Room (length ss) need room)
      else and_then place (\<lambda>(out, vma, hs). finish_image pe (length ss) vma hs out))"
    unfolding build_def place_def need_def room_def pe and_then_simps bounds prod.case Let_def
      header_size_def align ..
  show ?thesis
  proof (cases "need \<le> room")
    case False
    with start show ?thesis by auto
  next
    case True
    then have fits: "need \<le> length stub" using headers_in by (simp add: room_def)
    from place_sections_total[of "2 ^ k" _ ss stub, folded place_def] consider
      s where "s \<in> set ss" "8 < length (s_name s)" "place = Inl (Name_Too_Long (s_name s))"
      | placed vma hs where "place = Inr (placed, vma, hs)" unfolding place_def by (metis prod_cases3)
    then show ?thesis
    proof cases
      case 1
      with True start show ?thesis by auto
    next
      case 2
      note placed = sound_place[OF assms 2[unfolded place_def] fits[unfolded need_def]]
      have "need \<le> length placed" using fits placed(2) by auto
      then have "65535 < num_sections pe + length ss \<and> finish_image pe (length ss) vma hs placed = Inl Too_Many_Sections
        \<or> 4294967295 < length placed \<and> finish_image pe (length ss) vma hs placed = Inl Too_Large
        \<or> (\<exists>out. finish_image pe (length ss) vma hs placed = Inr out)"
        using placed(3,4) opt opt_in by (intro finish_image_outcome) (simp_all add: need_def)
      moreover have "build stub ss = finish_image pe (length ss) vma hs placed" by (simp add: start True 2)
      ultimately show ?thesis by metis
    qed
  qed
qed

end
