(* ===== verification/Host.thy ===== *)
theory Host
  imports Effects Ed25519_Sign Metadata_Wire Cpio Uki
begin

section \<open>The machine the tools run on\<close>

text \<open>
  What \<open>mkuki\<close> and \<open>deploy\<close> read and write: files by path (the state), and what is outside the
  sources: directory walks, gzip, the tar reader, container commands and the kernel's random bytes
  (the record \<open>host\<close>). A path is its string; two spellings of one path are two files. A command's
  answer may depend on the commands run before it.
\<close>

type_synonym command = "string \<times> string list"

record files =
  f_data :: "string \<Rightarrow> bytes option"
  f_mode :: "string \<Rightarrow> nat option"       \<comment> \<open>the mode a file was created with, when the tool set one\<close>
  f_commands :: "command list"
  f_printed :: "string list"

text \<open>A file may not open, or the write may stop after some of the bytes.\<close>

datatype write_outcome = Written | Not_Opened | Cut_Off nat

record host =
  h_deps :: deps
  h_is_dir :: "string \<Rightarrow> bool"
  h_walk :: "string \<Rightarrow> walked list"
  h_can_read :: "string \<Rightarrow> bool"
  h_write :: "string \<Rightarrow> write_outcome"
  h_can_mkdir :: "string \<Rightarrow> bool"
  h_gzip :: "bytes \<Rightarrow> bytes option"
  h_gunzip :: "bytes \<Rightarrow> bytes option"
  h_tar :: "bytes \<Rightarrow> tar_item list option"
  h_run :: "command list \<Rightarrow> command \<Rightarrow> (bool \<times> bytes) option"  \<comment> \<open>success and standard output\<close>
  h_random :: "bytes option"                                  \<comment> \<open>32 bytes of \<open>/dev/urandom\<close>\<close>

datatype tool_error =
    Read_Error string | Write_Error string | Mkdir_Error string | Not_Utf8 string | Seed_Error seed_error
  | Gunzip_Error | Gzip_Error | Cpio_Error cpio_error | Command_Error command | No_Rootfs
  | Uki_Error uki_error | Slice_Panic | Expect_Panic | Random_Error | Unknown_Domain string
  | Bad_Base_Url string | Sign_Args_With_Manifest | Bad_Args | Not_Json string | Not_Object string
  | Invalid_Stage1 meta_error | Invalid_Stage2 meta_error | Invalid_Document "string list" | Bad_Url_Field

type_synonym 'a tool = "(files, tool_error, 'a) act"

definition read_bytes :: "host \<Rightarrow> string \<Rightarrow> bytes tool" where
  "read_bytes H path fs =
     (if h_can_read H path then ok_or (Read_Error path) (f_data fs path) else Inl (Read_Error path), fs)"

definition read_to_string :: "host \<Rightarrow> string \<Rightarrow> string tool" where
  "read_to_string H path = then_do (read_bytes H path) (\<lambda>b. lift (ok_or (Not_Utf8 path) (string_from_utf8 b)))"

definition put_file :: "string \<Rightarrow> bytes \<Rightarrow> files \<Rightarrow> files" where
  "put_file path b fs = fs\<lparr>f_data := (f_data fs)(path := Some b)\<rparr>"

definition write_bytes :: "host \<Rightarrow> string \<Rightarrow> bytes \<Rightarrow> unit tool" where
  "write_bytes H path b fs =
     (case h_write H path of
        Written \<Rightarrow> (Inr (), put_file path b fs)
      | Not_Opened \<Rightarrow> (Inl (Write_Error path), fs)
      | Cut_Off n \<Rightarrow> (Inl (Write_Error path), put_file path (take n b) fs))"

definition print_line :: "string \<Rightarrow> unit tool" where
  "print_line s fs = (Inr (), fs\<lparr>f_printed := f_printed fs @ [s]\<rparr>)"

text \<open>\<open>Path::join\<close> with a relative name.\<close>

definition path_join :: "string \<Rightarrow> string \<Rightarrow> string" where
  "path_join dir name =
     (if dir = [] then name else if List.last dir = CHR ''/'' then dir @ name else dir @ ''/'' @ name)"

text \<open>\<open>Path::file_name\<close>: the last component, unless there is none or it is \<open>..\<close>.\<close>

fun split_char :: "char \<Rightarrow> string \<Rightarrow> string \<Rightarrow> string list" where
  "split_char c cur [] = [rev cur]"
| "split_char c cur (x # xs) = (if x = c then rev cur # split_char c [] xs else split_char c (x # cur) xs)"

definition path_file_name :: "string \<Rightarrow> string option" where
  "path_file_name p =
     (case rev (filter (\<lambda>c. c \<noteq> [] \<and> c \<noteq> ''.'') (split_char CHR ''/'' [] p)) of
        [] \<Rightarrow> None
      | c # _ \<Rightarrow> if c = ''..'' then None else Some c)"

lemma put_file_data [simp]: "f_data (put_file path b fs) p = (if p = path then Some b else f_data fs p)"
  by (simp add: put_file_def)

lemma write_bytes_Inr [res_simps]:
  "write_bytes H path b fs = (Inr u, fs') \<longleftrightarrow> h_write H path = Written \<and> fs' = put_file path b fs"
  by (auto simp: write_bytes_def split: write_outcome.split)

lemma write_bytes_Inl:
  "write_bytes H path b fs = (Inl e, fs') \<Longrightarrow> e = Write_Error path"
  by (auto simp: write_bytes_def split: write_outcome.splits)

lemma read_bytes_Inr [res_simps]:
  "read_bytes H path fs = (Inr b, fs') \<longleftrightarrow> h_can_read H path \<and> f_data fs path = Some b \<and> fs' = fs"
  by (auto simp: read_bytes_def ok_or_Inr_iff)

lemma read_to_string_Inr [res_simps]:
  "read_to_string H path fs = (Inr s, fs') \<longleftrightarrow>
     (\<exists>b. h_can_read H path \<and> f_data fs path = Some b \<and> string_from_utf8 b = Some s \<and> fs' = fs)"
  by (auto simp: read_to_string_def res_simps)

text \<open>A stretch of a run that leaves the files outside a set of paths alone.\<close>

definition touches :: "string set \<Rightarrow> files \<Rightarrow> files \<Rightarrow> bool" where
  "touches P fs fs' \<longleftrightarrow> (\<forall>p. p \<notin> P \<longrightarrow> f_data fs' p = f_data fs p)"

interpretation fr: frame_relation "touches P" for P
  by unfold_locales (auto simp: touches_def)

lemma keeps_read_bytes: "keeps (touches P) (read_bytes H path)"
  by (auto intro!: keepsI simp: read_bytes_def touches_def)

lemma keeps_read_to_string: "keeps (touches P) (read_to_string H path)"
  unfolding read_to_string_def by (intro fr.keeps_then_do keeps_read_bytes fr.keeps_lift)

lemma keeps_write_bytes: "path \<in> P \<Longrightarrow> keeps (touches P) (write_bytes H path b)"
  by (auto intro!: keepsI simp: write_bytes_def touches_def split: write_outcome.splits)

lemma keeps_print_line: "keeps (touches P) (print_line s)"
  by (auto intro!: keepsI simp: print_line_def touches_def)

end
