(* ===== verification/Deploy.thy ===== *)
theory Deploy
  imports Host
begin

section \<open>deploy: publishing a release\<close>

text \<open>
  \<open>crates/deploy/src/main.rs\<close>: keys, signing, the \<open>create\<close> command that fills a directory and
  \<open>user-data.json\<close>, \<open>validate\<close>, and \<open>modify\<close>, which rewrites the URL lists. The arguments of a
  command are a record; what \<open>clap\<close> checks of them (known architectures, at least one base URL, the
  options that need a key) is in \<open>Command_Lines\<close>; here the code's own \<open>expect\<close>s are branches.
\<close>

subsection \<open>Arguments\<close>

record keygen_args =
  k_out :: string
  k_pub :: "string option"

record sign_args =
  g_domain :: string
  g_key :: string
  g_input :: string
  g_out :: string

record create_args =
  c_arch :: string
  c_uki :: string
  c_stage2 :: string
  c_key :: "string option"
  c_base_url :: "string list"
  c_args :: "string option"
  c_sign_args :: bool
  c_manifest :: bool
  c_out :: string

record modify_args =
  o_path :: string
  o_add :: "string list"
  o_remove :: "string list"

subsection \<open>Keys and signatures\<close>

text \<open>\<open>read_exact\<close> of 32 bytes: a shorter stream is an error.\<close>

definition random_seed :: "host \<Rightarrow> tool_error + bytes" where
  "random_seed H =
     (case h_random H of
        None \<Rightarrow> Inl Random_Error
      | Some b \<Rightarrow> if 32 \<le> length b then Inr (take 32 b) else Inl Random_Error)"

text \<open>The mode \<open>0o600\<close> is given to a file that is created; one that exists keeps its own.\<close>

definition write_private :: "host \<Rightarrow> string \<Rightarrow> bytes \<Rightarrow> unit tool" where
  "write_private H path b fs =
     (if h_write H path = Not_Opened then (Inl (Write_Error path), fs)
      else write_bytes H path b
        (if f_data fs path = None then fs\<lparr>f_mode := (f_mode fs)(path := Some 0x180)\<rparr> else fs))"

definition keygen :: "host \<Rightarrow> keygen_args \<Rightarrow> unit tool" where
  "keygen H a =
     then_do (lift (random_seed H)) (\<lambda>seed.
     let pubkey = pubkey_b64_from_seed (h_deps H) seed in
     then_do (write_private H (k_out a) (str_bytes (pem_from_seed (h_deps H) seed))) (\<lambda>_.
     then_do (case k_pub a of None \<Rightarrow> ret () | Some p \<Rightarrow> write_bytes H p (str_bytes pubkey)) (\<lambda>_.
     then_do (print_line (''wrote '' @ k_out a @ '' (ed25519 private key, mode 0600)'')) (\<lambda>_.
     print_line (''pubkey: '' @ pubkey)))))"

definition sign_file :: "host \<Rightarrow> sign_args \<Rightarrow> unit tool" where
  "sign_file H a =
     then_do (lift (ok_or (Unknown_Domain (g_domain a)) (domain_from_str (g_domain a)))) (\<lambda>d.
     then_do (read_to_string H (g_key a)) (\<lambda>pem.
     then_do (read_bytes H (g_input a)) (\<lambda>b.
     then_do (lift (map_err Seed_Error (sign (h_deps H) pem d b))) (\<lambda>s.
     then_do (write_bytes H (g_out a) (signature s)) (\<lambda>_.
     print_line (''signed '' @ g_input a @ '' ['' @ tag d @ ''] -> '' @ g_out a
       @ '' (pubkey '' @ pubkey_b64 s @ '')''))))))"

subsection \<open>create\<close>

definition compose_url :: "string \<Rightarrow> string \<Rightarrow> string \<Rightarrow> string" where
  "compose_url arch name b = b @ ''/'' @ arch @ ''/'' @ name"

definition compose_urls :: "string list \<Rightarrow> string \<Rightarrow> string \<Rightarrow> url_list" where
  "compose_urls bases arch name = UrlList (map (compose_url arch name) bases)"

record arch_ctx =
  x_dir :: string
  x_arch :: string
  x_bases :: "string list"

definition build_payload ::
    "host \<Rightarrow> arch_ctx \<Rightarrow> string \<Rightarrow> string \<Rightarrow> string option \<Rightarrow> domain \<Rightarrow> payload tool" where
  "build_payload H ctx name src key_pem d =
     then_do (read_bytes H src) (\<lambda>b.
     then_do (write_bytes H (path_join (x_dir ctx) name) b) (\<lambda>_.
     let url = compose_urls (x_bases ctx) (x_arch ctx) name in
     then_do (case key_pem of
         Some pem \<Rightarrow>
           then_do (lift (map_err Seed_Error (sign (h_deps H) pem d b))) (\<lambda>s.
           then_do (write_bytes H (path_join (x_dir ctx) (name @ ''.sig'')) (signature s)) (\<lambda>_.
           ret (None, Some (pubkey_b64 s))))
       | None \<Rightarrow> ret (Some (sha256_hex (h_deps H) b), None)) (\<lambda>(sha256, ed25519).
     ret \<lparr>p_url = url, p_sha256 = sha256, p_ed25519 = ed25519, p_sig_url = None, p_args = None,
          p_args_url = None, p_args_sig_url = None\<rparr>)))"

definition direct_entry :: "payload \<Rightarrow> arch_config" where
  "direct_entry p = \<lparr>ac_entry = Payload_Entry p, ac_resolved_manifests = []\<rparr>"

definition manifest_fragment :: "string \<Rightarrow> string \<Rightarrow> payload \<Rightarrow> json" where
  "manifest_fragment stage_key arch p =
     JObj [(stage_key, JObj [(arch, JObj [(''payload'', ser_payload p)])])]"

definition manifest_name :: "string \<Rightarrow> string" where
  "manifest_name name = name @ ''.manifest.json''"

definition wrap_manifest ::
    "host \<Rightarrow> arch_ctx \<Rightarrow> string \<Rightarrow> string \<Rightarrow> payload \<Rightarrow> string \<Rightarrow> domain \<Rightarrow> arch_config tool" where
  "wrap_manifest H ctx stage_key name p pem d =
     (let b = json_pretty (h_deps H) (manifest_fragment stage_key (x_arch ctx) p);
          mname = manifest_name name in
      then_do (write_bytes H (path_join (x_dir ctx) mname) b) (\<lambda>_.
      then_do (lift (map_err Seed_Error (sign (h_deps H) pem d b))) (\<lambda>s.
      then_do (write_bytes H (path_join (x_dir ctx) (mname @ ''.sig'')) (signature s)) (\<lambda>_.
      ret \<lparr>ac_entry = Manifest_Entry \<lparr>m_url = compose_urls (x_bases ctx) (x_arch ctx) mname,
             m_ed25519 = pubkey_b64 s, m_sig_url = None, m_sha256 = None\<rparr>,
           ac_resolved_manifests = []\<rparr>))))"

text \<open>\<open>Map::entry(k).or_insert_with(..)\<close>, then the member of the stage.\<close>

definition set_arch :: "string \<Rightarrow> string \<Rightarrow> json \<Rightarrow> fields \<Rightarrow> tool_error + fields" where
  "set_arch stage_key arch entry m =
     (case (case bt_get m stage_key of None \<Rightarrow> JObj [] | Some v \<Rightarrow> v) of
        JObj smap \<Rightarrow> Inr (bt_insert stage_key (JObj (bt_insert arch entry smap)) m)
      | _ \<Rightarrow> Inl (Not_Object stage_key))"

definition merge_doc :: "string \<Rightarrow> arch_config \<Rightarrow> arch_config \<Rightarrow> json \<Rightarrow> tool_error + json" where
  "merge_doc arch uki stage2 doc =
     (case doc of
        JObj m \<Rightarrow>
          and_then (set_arch ''_stage1'' arch (ser_arch_config uki) m) (\<lambda>m.
          and_then (set_arch ''_stage2'' arch (ser_arch_config stage2) m) (\<lambda>m.
          Inr (JObj m)))
      | _ \<Rightarrow> Inl (Not_Object ''user-data''))"

definition path_exists :: "host \<Rightarrow> string \<Rightarrow> files \<Rightarrow> bool" where
  "path_exists H p fs = (f_data fs p \<noteq> None \<or> h_is_dir H p)"

definition read_value :: "host \<Rightarrow> string \<Rightarrow> json tool" where
  "read_value H path =
     then_do (read_to_string H path) (\<lambda>text.
     lift (ok_or (Not_Json path) (value_from_slice (h_deps H) (str_bytes text))))"

text \<open>\<open>to_string_pretty\<close> and a line feed.\<close>

definition print_doc :: "deps \<Rightarrow> json \<Rightarrow> bytes" where
  "print_doc D doc = json_pretty D doc @ [0x0A]"

definition merge_user_data :: "host \<Rightarrow> string \<Rightarrow> string \<Rightarrow> arch_config \<Rightarrow> arch_config \<Rightarrow> unit tool" where
  "merge_user_data H path arch uki stage2 fs =
     then_do (if path_exists H path fs then read_value H path else ret (JObj [])) (\<lambda>doc.
     then_do (lift (merge_doc arch uki stage2 doc)) (\<lambda>doc'.
     write_bytes H path (print_doc (h_deps H) doc'))) fs"

definition create_dir_all :: "host \<Rightarrow> string \<Rightarrow> unit tool" where
  "create_dir_all H path = (if h_can_mkdir H path then ret () else throw (Mkdir_Error path))"

fun check_bases :: "string list \<Rightarrow> tool_error + unit" where
  "check_bases [] = Inr ()"
| "check_bases (b # bs) = (if starts_with b ''http://'' then check_bases bs else Inl (Bad_Base_Url b))"

text \<open>The arguments, carried inside the payload entry or served as a signed file.\<close>

definition attach_args ::
    "host \<Rightarrow> create_args \<Rightarrow> arch_ctx \<Rightarrow> string option \<Rightarrow> payload \<Rightarrow> payload tool" where
  "attach_args H a ctx key_pem p =
     (case c_args a of
        None \<Rightarrow> ret p
      | Some args_json \<Rightarrow>
          then_do (lift (ok_or Bad_Args (strings_from_slice (h_deps H) (str_bytes args_json)))) (\<lambda>parsed.
          if c_sign_args a
          then (let blob = json_compact (h_deps H) (ser_strings parsed) in
            then_do (write_bytes H (path_join (x_dir ctx) ''args.json'') blob) (\<lambda>_.
            then_do (lift (ok_or Expect_Panic key_pem)) (\<lambda>pem.
            then_do (lift (map_err Seed_Error (sign (h_deps H) pem Stage2Args blob))) (\<lambda>s.
            then_do (write_bytes H (path_join (x_dir ctx) ''args.json.sig'') (signature s)) (\<lambda>_.
            ret (p\<lparr>p_args_url := Some (compose_urls (x_bases ctx) (c_arch a) ''args.json'')\<rparr>))))))
          else ret (p\<lparr>p_args := Some parsed\<rparr>)))"

definition make_entries ::
    "host \<Rightarrow> create_args \<Rightarrow> arch_ctx \<Rightarrow> string option \<Rightarrow> payload \<Rightarrow> payload \<Rightarrow> (arch_config \<times> arch_config) tool" where
  "make_entries H a ctx key_pem uki stage2 =
     (if c_manifest a
      then then_do (lift (ok_or Expect_Panic key_pem)) (\<lambda>pem.
           then_do (wrap_manifest H ctx ''_stage1'' ''linux.efi'' uki pem Stage1Manifest) (\<lambda>e1.
           then_do (wrap_manifest H ctx ''_stage2'' ''stage2'' stage2 pem Stage2Manifest) (\<lambda>e2.
           ret (e1, e2))))
      else ret (direct_entry uki, direct_entry stage2))"

definition ud_path :: "create_args \<Rightarrow> string" where
  "ud_path a = path_join (c_out a) ''user-data.json''"

definition create_ctx :: "create_args \<Rightarrow> arch_ctx" where
  "create_ctx a = \<lparr>x_dir = path_join (c_out a) (c_arch a), x_arch = c_arch a,
     x_bases = map (trim_end_char CHR ''/'') (c_base_url a)\<rparr>"

definition read_key :: "host \<Rightarrow> create_args \<Rightarrow> string option tool" where
  "read_key H a = (case c_key a of
     None \<Rightarrow> ret None | Some p \<Rightarrow> then_do (read_to_string H p) (\<lambda>pem. ret (Some pem)))"

text \<open>Everything \<open>create\<close> does before it touches \<open>user-data.json\<close>.\<close>

definition prepare :: "host \<Rightarrow> create_args \<Rightarrow> (arch_config \<times> arch_config) tool" where
  "prepare H a =
     (let ctx = create_ctx a in
      then_do (lift (check_bases (x_bases ctx))) (\<lambda>_.
      then_do (create_dir_all H (x_dir ctx)) (\<lambda>_.
      then_do (read_key H a) (\<lambda>key_pem.
      if c_sign_args a \<and> c_manifest a then throw Sign_Args_With_Manifest else
      let payload_key = (if c_manifest a then None else key_pem) in
      then_do (build_payload H ctx ''linux.efi'' (c_uki a) payload_key Stage1Uki) (\<lambda>uki.
      then_do (build_payload H ctx ''stage2'' (c_stage2 a) payload_key Stage2Payload) (\<lambda>stage2.
      then_do (attach_args H a ctx key_pem stage2) (\<lambda>stage2.
      then_do (make_entries H a ctx key_pem uki stage2) (\<lambda>(e1, e2).
      then_do (lift (map_err Invalid_Stage1 (arch_validate (h_deps H) e1 Stage0))) (\<lambda>_.
      then_do (lift (map_err Invalid_Stage2 (arch_validate (h_deps H) e2 Stage1))) (\<lambda>_.
      ret (e1, e2)))))))))))"

definition mode_name :: "create_args \<Rightarrow> string" where
  "mode_name a =
     (if c_manifest a then ''ed25519 signed manifest''
      else if c_key a \<noteq> None then ''ed25519 (signed)'' else ''sha256 (pinned)'')"

definition create :: "host \<Rightarrow> create_args \<Rightarrow> unit tool" where
  "create H a =
     then_do (prepare H a) (\<lambda>(e1, e2).
     then_do (merge_user_data H (ud_path a) (c_arch a) e1 e2) (\<lambda>_.
     print_line (''wrote '' @ ud_path a @ '' + '' @ c_arch a @ ''/ artifacts ['' @ mode_name a @ '', ''
       @ decimal (length (c_base_url a)) @ '' mirror(s)]'')))"

subsection \<open>validate\<close>

definition doc_path :: "host \<Rightarrow> string \<Rightarrow> string" where
  "doc_path H p = (if h_is_dir H p then path_join p ''user-data.json'' else p)"

definition check_entry :: "deps \<Rightarrow> profile \<Rightarrow> string \<Rightarrow> string \<Rightarrow> arch_config option \<Rightarrow> string list" where
  "check_entry D profile name arch entry =
     (case entry of
        None \<Rightarrow> []
      | Some e \<Rightarrow> (case arch_validate D e profile of
            Inl m \<Rightarrow> [name @ ''.'' @ arch @ '': '' @ meta_error_text m] | Inr _ \<Rightarrow> []))"

definition check_stage :: "deps \<Rightarrow> stage_config option \<Rightarrow> profile \<Rightarrow> string \<Rightarrow> string list" where
  "check_stage D stage profile name =
     (case stage of
        None \<Rightarrow> []
      | Some s \<Rightarrow> check_entry D profile name ''x86_64'' (sc_x86_64 s)
               @ check_entry D profile name ''aarch64'' (sc_aarch64 s))"

definition document_errors :: "deps \<Rightarrow> user_data \<Rightarrow> string list" where
  "document_errors D ud =
     check_stage D (ud_stage1 ud) Stage0 ''_stage1'' @ check_stage D (ud_stage2 ud) Stage1 ''_stage2''
     @ (if ud_stage1 ud = None \<and> ud_stage2 ud = None
        then [''document has neither _stage1 nor _stage2''] else [])"

definition validate :: "host \<Rightarrow> string \<Rightarrow> unit tool" where
  "validate H p =
     (let path = doc_path H p in
      then_do (read_to_string H path) (\<lambda>text.
      then_do (lift (ok_or (Not_Json path) (user_data_from_slice (h_deps H) (str_bytes text)))) (\<lambda>ud.
      let errors = document_errors (h_deps H) ud in
      if errors = [] then print_line (path @ '': valid'') else throw (Invalid_Document errors))))"

subsection \<open>modify\<close>

definition url_path :: "string \<Rightarrow> string" where
  "url_path u =
     (let after = (case strip_prefix ''http://'' u of
          Some r \<Rightarrow> r
        | None \<Rightarrow> (case strip_prefix ''https://'' u of Some r \<Rightarrow> r | None \<Rightarrow> u))
      in case find_char CHR ''/'' after of Some i \<Rightarrow> drop i after | None \<Rightarrow> [])"

definition under_base :: "string list \<Rightarrow> string \<Rightarrow> bool" where
  "under_base rems u = list_ex (\<lambda>b. starts_with u (b @ ''/'')) rems"

fun push_new :: "string \<Rightarrow> string list \<Rightarrow> string list \<Rightarrow> string list" where
  "push_new suffix [] us = us"
| "push_new suffix (b # bs) us =
     (let cand = b @ suffix in push_new suffix bs (if cand \<in> set us then us else us @ [cand]))"

definition url_values :: "json \<Rightarrow> tool_error + string list" where
  "url_values v =
     (case v of JStr s \<Rightarrow> Inr [s] | JArr xs \<Rightarrow> Inr (List.map_filter as_str xs) | _ \<Rightarrow> Inl Bad_Url_Field)"

definition rewritten_urls :: "string list \<Rightarrow> string list \<Rightarrow> string list \<Rightarrow> string list" where
  "rewritten_urls adds rems us =
     (let kept = filter (\<lambda>u. \<not> under_base rems u) us in
      case us of [] \<Rightarrow> kept | u # _ \<Rightarrow> push_new (url_path u) adds kept)"

definition rewrite_urls :: "string list \<Rightarrow> string list \<Rightarrow> json \<Rightarrow> tool_error + json" where
  "rewrite_urls adds rems v =
     and_then (url_values v) (\<lambda>us. Inr (ser_url_list (UrlList (rewritten_urls adds rems us))))"

text \<open>The four loops of \<open>modify\<close>: stages, architectures, variants and fields.\<close>

definition url_fields :: "string list" where
  "url_fields = [''url'', ''sig_url'', ''args_url'', ''args_sig_url'']"

text \<open>\<open>get_mut(k)\<close> with a new value written back, and \<open>as_object_mut\<close> with \<open>continue\<close> otherwise.\<close>

definition rewrite_member :: "(json \<Rightarrow> tool_error + json) \<Rightarrow> string \<Rightarrow> fields \<Rightarrow> tool_error + fields" where
  "rewrite_member f k m =
     (case bt_get m k of
        None \<Rightarrow> Inr m
      | Some v \<Rightarrow> and_then (f v) (\<lambda>v'. Inr (bt_insert k v' m)))"

definition rewrite_object :: "(fields \<Rightarrow> tool_error + fields) \<Rightarrow> json \<Rightarrow> tool_error + json" where
  "rewrite_object f v = (case v of JObj m \<Rightarrow> and_then (f m) (\<lambda>m'. Inr (JObj m')) | _ \<Rightarrow> Inr v)"

definition rewrite_variant :: "string list \<Rightarrow> string list \<Rightarrow> json \<Rightarrow> tool_error + json" where
  "rewrite_variant adds rems = rewrite_object (try_fold (rewrite_member (rewrite_urls adds rems)) url_fields)"

definition rewrite_entry :: "string list \<Rightarrow> string list \<Rightarrow> json \<Rightarrow> tool_error + json" where
  "rewrite_entry adds rems =
     rewrite_object (try_fold (rewrite_member (rewrite_variant adds rems)) [''payload'', ''manifest''])"

fun rewrite_arches :: "string list \<Rightarrow> string list \<Rightarrow> fields \<Rightarrow> tool_error + fields" where
  "rewrite_arches adds rems [] = Inr []"
| "rewrite_arches adds rems ((arch, entry) # rest) =
     and_then (rewrite_entry adds rems entry) (\<lambda>entry'.
     and_then (rewrite_arches adds rems rest) (\<lambda>rest'. Inr ((arch, entry') # rest')))"

definition rewrite_doc :: "string list \<Rightarrow> string list \<Rightarrow> json \<Rightarrow> tool_error + json" where
  "rewrite_doc adds rems doc =
     (if is_object doc
      then rewrite_object (try_fold (rewrite_member (rewrite_object (rewrite_arches adds rems)))
             [''_stage1'', ''_stage2'']) doc
      else Inl (Not_Object ''user-data''))"

definition modify :: "host \<Rightarrow> modify_args \<Rightarrow> unit tool" where
  "modify H a =
     (let path = doc_path H (o_path a);
          adds = map (trim_end_char CHR ''/'') (o_add a);
          rems = map (trim_end_char CHR ''/'') (o_remove a) in
      then_do (read_value H path) (\<lambda>doc.
      then_do (lift (rewrite_doc adds rems doc)) (\<lambda>doc'.
      then_do (write_bytes H path (print_doc (h_deps H) doc')) (\<lambda>_.
     print_line (''updated '' @ path @ '' (+'' @ decimal (length adds) @ '' / -'' @ decimal (length rems)
       @ '' mirror(s))'')))))"

subsection \<open>The commands\<close>

datatype deploy_cmd =
    Keygen keygen_args | Sign sign_args | Create create_args | Validate string | Modify modify_args

fun deploy_main :: "host \<Rightarrow> deploy_cmd \<Rightarrow> unit tool" where
  "deploy_main H (Keygen a) = keygen H a"
| "deploy_main H (Sign a) = sign_file H a"
| "deploy_main H (Create a) = create H a"
| "deploy_main H (Validate path) = validate H path"
| "deploy_main H (Modify a) = modify H a"

end
