(* ===== verification/Deploy_Laws.thy ===== *)
theory Deploy_Laws
  imports Deploy
begin

section \<open>deploy: what its commands promise\<close>

text \<open>
  Lemmas about \<^theory_text>\<open>Deploy\<close>: what \<open>validate\<close> accepts, what a merge into \<open>user-data.json\<close> keeps,
  which files \<open>create\<close> touches and what it leaves in them, and what \<open>modify\<close> does to URL lists.
\<close>

subsection \<open>Signing\<close>

lemma sign_file_Inr:
  assumes "sign_file H a fs = (Inr u, fs')"
  obtains d key pem b s where "domain_from_str (g_domain a) = Some d"
    and "f_data fs (g_key a) = Some key" and "string_from_utf8 key = Some pem"
    and "f_data fs (g_input a) = Some b" and "sign (h_deps H) pem d b = Inr s"
    and "f_data fs' = (f_data fs)(g_out a := Some (signature s))"
  using assms unfolding sign_file_def
  by (elim run_elims) (auto simp: res_simps print_line_def put_file_def)

lemma keygen_Inr:
  assumes "keygen H a fs = (Inr u, fs')" and "k_pub a = Some p" and "p \<noteq> k_out a"
  obtains seed where "length seed = 32"
    and "f_data fs' = (f_data fs)(k_out a := Some (str_bytes (pem_from_seed (h_deps H) seed)),
          p := Some (str_bytes (pubkey_b64_from_seed (h_deps H) seed)))"
    and "f_data fs (k_out a) = None \<Longrightarrow> f_mode fs' (k_out a) = Some 0x180"
    and "f_data fs (k_out a) \<noteq> None \<Longrightarrow> f_mode fs' (k_out a) = f_mode fs (k_out a)"
  using assms(1) unfolding keygen_def Let_def
proof (elim run_elims, goal_cases)
  case (1 seed fs1 u1 fs2 u2 fs3 u3 fs4)
  have "length seed = 32" using 1 by (auto simp: random_seed_def split: option.splits if_splits)
  with 1 assms(2,3) show ?case
    by (auto simp: write_private_def res_simps print_line_def put_file_def split: if_splits)
qed

subsection \<open>Validation\<close>

definition entry_allowed :: "deps \<Rightarrow> profile \<Rightarrow> arch_config \<Rightarrow> bool" where
  "entry_allowed D profile ac \<longleftrightarrow>
     (case ac_entry ac of Payload_Entry p \<Rightarrow> payload_allowed D profile p
                        | Manifest_Entry m \<Rightarrow> manifest_allowed D profile m)"

definition stage_allowed :: "deps \<Rightarrow> profile \<Rightarrow> stage_config option \<Rightarrow> bool" where
  "stage_allowed D profile stage \<longleftrightarrow>
     (\<forall>s e. stage = Some s \<longrightarrow> (sc_x86_64 s = Some e \<or> sc_aarch64 s = Some e) \<longrightarrow> entry_allowed D profile e)"

definition document_allowed :: "deps \<Rightarrow> user_data \<Rightarrow> bool" where
  "document_allowed D ud \<longleftrightarrow> stage_allowed D Stage0 (ud_stage1 ud) \<and> stage_allowed D Stage1 (ud_stage2 ud)
     \<and> (ud_stage1 ud \<noteq> None \<or> ud_stage2 ud \<noteq> None)"

lemma arch_validate_allowed: "arch_validate D e profile = Inr u \<longleftrightarrow> entry_allowed D profile e"
  by (simp add: arch_validate_Inr_iff entry_allowed_def)

lemma check_entry_Nil: "check_entry D profile name arch entry = [] \<longleftrightarrow> (\<forall>e. entry = Some e \<longrightarrow> entry_allowed D profile e)"
  by (cases entry) (auto simp: check_entry_def simp flip: arch_validate_allowed[where u = "()"] split: sum.split)

lemma check_stage_Nil: "check_stage D stage profile name = [] \<longleftrightarrow> stage_allowed D profile stage"
  by (auto simp: check_stage_def stage_allowed_def check_entry_Nil split: option.split)

lemma document_errors_Nil: "document_errors D ud = [] \<longleftrightarrow> document_allowed D ud"
  by (auto simp: document_errors_def document_allowed_def check_stage_Nil)

lemma read_to_string_bytes:
  "read_to_string H path fs = (Inr s, fs') \<Longrightarrow> f_data fs path = Some (str_bytes s) \<and> fs' = fs"
  by (auto simp: res_simps string_from_utf8_bytes)

lemma validate_runs:
  assumes "h_can_read H (doc_path H p)" and "f_data fs (doc_path H p) = Some b" and "string_from_utf8 b = Some t"
    and "user_data_from_slice (h_deps H) b = Some ud" and "document_allowed (h_deps H) ud"
  shows "validate H p fs = (Inr (), snd (print_line (doc_path H p @ '': valid'') fs))"
  using assms string_from_utf8_bytes[OF assms(3)]
  by (simp add: validate_def Let_def then_do_def read_to_string_def read_bytes_def document_errors_Nil print_line_def)

subsection \<open>Merging into the document\<close>

lemma set_arch_Inr:
  assumes "set_arch st arch entry m = Inr m'"
  obtains smap where "(case bt_get m st of None \<Rightarrow> JObj [] | Some v \<Rightarrow> v) = JObj smap"
    and "m' = bt_insert st (JObj (bt_insert arch entry smap)) m"
  using assms by (auto simp: set_arch_def split: json.splits)

lemma set_arch_get:
  assumes "set_arch st arch entry m = Inr m'"
  shows "get_path (JObj m') [st, arch'] = (if arch' = arch then Some entry else get_path (JObj m) [st, arch'])"
    and "k \<noteq> st \<Longrightarrow> bt_get m' k = bt_get m k"
  using assms by (auto elim!: set_arch_Inr split: option.splits if_splits)

lemma set_arch_wf:
  assumes "set_arch st arch entry m = Inr m'" and "wf_json (JObj m)" and "wf_json entry"
  shows "wf_json (JObj m')"
  using assms(1)
proof (rule set_arch_Inr)
  fix smap
  assume smap: "(case bt_get m st of None \<Rightarrow> JObj [] | Some v \<Rightarrow> v) = JObj smap"
    and m': "m' = bt_insert st (JObj (bt_insert arch entry smap)) m"
  have "wf_json (case bt_get m st of None \<Rightarrow> JObj [] | Some v \<Rightarrow> v)"
    using assms(2) by (auto intro: wf_fields_get split: option.split)
  with smap assms m' show ?thesis by simp
qed

lemma no_float_get: "no_float_fields m \<Longrightarrow> bt_get m k = Some v \<Longrightarrow> no_float v"
  by (force simp: no_float_fields_iff dest: bt_get_in_set)

lemma nesting_get: "nesting (JObj m) \<le> Suc n \<Longrightarrow> bt_get m k = Some v \<Longrightarrow> nesting v \<le> n"
  by (force simp: nesting_le dest: bt_get_in_set)

lemma nesting_insert: "nesting (JObj m) \<le> Suc n \<Longrightarrow> nesting v \<le> n \<Longrightarrow> nesting (JObj (bt_insert k v m)) \<le> Suc n"
  using set_bt_insert[of k v m] by (fastforce simp: nesting_le)

lemma set_arch_printable:
  assumes "set_arch st arch entry m = Inr m'" and "printable (JObj m)" and "no_float entry" and "nesting entry \<le> 4"
  shows "printable (JObj m')"
  using assms(1)
proof (rule set_arch_Inr)
  fix smap
  assume smap: "(case bt_get m st of None \<Rightarrow> JObj [] | Some v \<Rightarrow> v) = JObj smap"
    and m': "m' = bt_insert st (JObj (bt_insert arch entry smap)) m"
  have old: "no_float_fields m" "nesting (JObj m) \<le> Suc 126"
    using assms(2) unfolding printable_def by auto
  then have "no_float (case bt_get m st of None \<Rightarrow> JObj [] | Some v \<Rightarrow> v)"
    "nesting (case bt_get m st of None \<Rightarrow> JObj [] | Some v \<Rightarrow> v) \<le> Suc 125"
    using nesting_get[of m 126 st] by (auto intro: no_float_get split: option.split)
  then have "no_float_fields (bt_insert arch entry smap)" "nesting (JObj (bt_insert arch entry smap)) \<le> Suc 125"
    using nesting_insert[of smap 125 entry arch] assms(3,4) unfolding smap by (simp_all add: no_float_insert)
  then show ?thesis
    using nesting_insert[of m 126 "JObj (bt_insert arch entry smap)" st] old
    unfolding m' printable_def by (simp add: no_float_insert)
qed

definition stages :: "string set" where
  "stages = {''_stage1'', ''_stage2''}"

lemma merge_doc_Inr:
  assumes "merge_doc arch uki stage2 doc = Inr doc'"
  obtains m m1 m2 where "doc = JObj m" and "set_arch ''_stage1'' arch (ser_arch_config uki) m = Inr m1"
    and "set_arch ''_stage2'' arch (ser_arch_config stage2) m1 = Inr m2" and "doc' = JObj m2"
  using assms by (auto simp: merge_doc_def res_simps split: json.splits)

lemma merge_doc_get:
  assumes "merge_doc arch uki stage2 doc = Inr doc'"
  shows "get_path doc' [''_stage1'', arch] = Some (ser_arch_config uki)"
    and "get_path doc' [''_stage2'', arch] = Some (ser_arch_config stage2)"
    and "k \<notin> stages \<Longrightarrow> get doc' k = get doc k"
    and "st \<in> stages \<Longrightarrow> arch' \<noteq> arch \<Longrightarrow> get_path doc' [st, arch'] = get_path doc [st, arch']"
  using assms
  by (auto elim!: merge_doc_Inr simp: stages_def set_arch_get[simplified])

lemma merge_doc_wf:
  assumes "merge_doc arch uki stage2 doc = Inr doc'" and "wf_json doc"
  shows "wf_json doc'"
  using assms(1)
proof (rule merge_doc_Inr)
  fix m m1 m2
  assume "doc = JObj m" "set_arch ''_stage1'' arch (ser_arch_config uki) m = Inr m1"
    "set_arch ''_stage2'' arch (ser_arch_config stage2) m1 = Inr m2" "doc' = JObj m2"
  with assms(2) show ?thesis by (metis arch_config_wire.ser_wf set_arch_wf)
qed

lemma merge_doc_printable:
  assumes "merge_doc arch uki stage2 doc = Inr doc'" and "printable doc"
  shows "printable doc'"
  using assms(1)
proof (rule merge_doc_Inr)
  fix m m1 m2
  assume "doc = JObj m" "set_arch ''_stage1'' arch (ser_arch_config uki) m = Inr m1"
    "set_arch ''_stage2'' arch (ser_arch_config stage2) m1 = Inr m2" "doc' = JObj m2"
  with assms(2) show ?thesis by (metis arch_config_wire.ser_no_float nesting_arch_config set_arch_printable)
qed

subsection \<open>The files \<open>create\<close> writes\<close>

lemma path_join_eq [simp]: "path_join dir m = path_join dir n \<longleftrightarrow> m = n"
  by (simp add: path_join_def)

definition arch_names :: "string set" where
  "arch_names = {''linux.efi'', ''linux.efi.sig'', ''stage2'', ''stage2.sig'', ''args.json'', ''args.json.sig'',
     ''linux.efi.manifest.json'', ''linux.efi.manifest.json.sig'',
     ''stage2.manifest.json'', ''stage2.manifest.json.sig''}"

definition arch_files :: "create_args \<Rightarrow> string set" where
  "arch_files a = path_join (x_dir (create_ctx a)) ` arch_names"

text \<open>\<open>user-data.json\<close> is not one of them: it has no directory part after the output directory.\<close>

lemma path_join_under: "arch \<noteq> [] \<Longrightarrow> List.last arch \<noteq> CHR ''/'' \<Longrightarrow>
    path_join (path_join out arch) name = path_join out (arch @ ''/'' @ name)"
  by (simp add: path_join_def)

definition plain_arch :: "string \<Rightarrow> bool" where
  "plain_arch arch \<longleftrightarrow> arch \<noteq> [] \<and> List.last arch \<noteq> CHR ''/''"

lemma ud_path_not_arch_file: "plain_arch (c_arch a) \<Longrightarrow> ud_path a \<notin> arch_files a"
proof
  assume arch: "plain_arch (c_arch a)" and "ud_path a \<in> arch_files a"
  then obtain name where "''user-data.json'' = c_arch a @ ''/'' @ name"
    by (auto simp: arch_files_def ud_path_def create_ctx_def plain_arch_def path_join_under)
  then have "CHR ''/'' \<in> set ''user-data.json''" by (metis in_set_conv_decomp append_Cons append_Nil)
  then show False by simp
qed

lemma in_arch_files: "name \<in> arch_names \<Longrightarrow> path_join (x_dir (create_ctx a)) name \<in> arch_files a"
  by (simp add: arch_files_def)

lemma keeps_build_payload:
  assumes "name \<in> arch_names" and "name @ ''.sig'' \<in> arch_names"
  shows "keeps (touches (arch_files a)) (build_payload H (create_ctx a) name src key d)"
  unfolding build_payload_def Let_def
  by (auto intro!: fr.keeps_intros keeps_read_bytes keeps_write_bytes in_arch_files assms
      split: option.split prod.split)

lemma keeps_wrap_manifest:
  assumes "manifest_name name \<in> arch_names" and "manifest_name name @ ''.sig'' \<in> arch_names"
  shows "keeps (touches (arch_files a)) (wrap_manifest H (create_ctx a) st name p pem d)"
  unfolding wrap_manifest_def Let_def
  by (auto intro!: fr.keeps_intros keeps_write_bytes in_arch_files assms)

lemma keeps_attach_args: "keeps (touches (arch_files a)) (attach_args H a (create_ctx a) key p)"
  unfolding attach_args_def Let_def
  by (auto intro!: fr.keeps_intros keeps_write_bytes in_arch_files simp: arch_names_def split: option.split)

lemma keeps_make_entries: "keeps (touches (arch_files a)) (make_entries H a (create_ctx a) key uki stage2)"
  unfolding make_entries_def
  by (auto intro!: fr.keeps_intros keeps_wrap_manifest simp: arch_names_def manifest_name_def)

lemma keeps_read_key: "keeps (touches P) (read_key H a)"
  unfolding read_key_def by (auto intro!: fr.keeps_intros keeps_read_to_string split: option.split)

lemma keeps_prepare: "keeps (touches (arch_files a)) (prepare H a)"
  unfolding prepare_def Let_def create_dir_all_def
  by (auto intro!: fr.keeps_intros keeps_read_key keeps_build_payload keeps_attach_args keeps_make_entries
      simp: arch_names_def split: prod.split)

text \<open>
  A \<open>create\<close> that fails leaves \<open>user-data.json\<close> as it was, unless writing that file is what failed.
\<close>

lemma merge_user_data_Inl:
  assumes "merge_user_data H path arch uki stage2 fs = (Inl e, fs')"
  shows "fs' = fs \<or> e = Write_Error path \<and> touches {path} fs fs'"
proof -
  have "fs1 = fs" if "read_value H path fs = (r, fs1)" for r fs1
    using that by (auto simp: read_value_def read_to_string_def then_do_def read_bytes_def lift_def
        split: sum.splits prod.splits)
  moreover have "touches {path} fs fs'" if "write_bytes H path b fs = (r, fs')" for b r
    using keepsD[OF keeps_write_bytes that] by simp
  ultimately show ?thesis using assms
    by (auto simp: merge_user_data_def then_do_Inl_iff write_bytes_Inl split: if_splits)
qed

lemma create_Inl:
  assumes "create H a fs = (Inl e, fs')"
  shows "touches (arch_files a) fs fs'
    \<or> e = Write_Error (ud_path a) \<and> touches (insert (ud_path a) (arch_files a)) fs fs'"
proof -
  have print: "print_line x s \<noteq> (Inl e, s')" for x s s' by (simp add: print_line_def)
  from assms consider "prepare H a fs = (Inl e, fs')"
    | e1 e2 fs1 where "prepare H a fs = (Inr (e1, e2), fs1)"
        "merge_user_data H (ud_path a) (c_arch a) e1 e2 fs1 = (Inl e, fs')"
    by (auto simp: create_def then_do_Inl_iff print)
  then show ?thesis
  proof cases
    case 1
    then show ?thesis using keepsD[OF keeps_prepare] by blast
  next
    case 2
    from keepsD[OF keeps_prepare 2(1)] merge_user_data_Inl[OF 2(2)] show ?thesis
      by (auto simp: touches_def)
  qed
qed

subsection \<open>What a directory offers\<close>

text \<open>
  The files \<open>create\<close> leaves next to each other, by name, and the payload that refers to them:
  pinned by digest, or signed, with arguments inline or in a signed file.
\<close>

definition args_hosted ::
    "deps \<Rightarrow> (string \<Rightarrow> bytes option) \<Rightarrow> string list \<Rightarrow> string \<Rightarrow> string \<Rightarrow> payload \<Rightarrow> string list option \<Rightarrow> bool" where
  "args_hosted D at bases arch pem p args \<longleftrightarrow>
     p_args_url p = None \<and> p_args p = args
     \<or> (\<exists>l t. args = Some l \<and> p_args p = None
         \<and> p_args_url p = Some (compose_urls bases arch ''args.json'')
         \<and> at ''args.json'' = Some (json_compact D (ser_strings l))
         \<and> sign D pem Stage2Args (json_compact D (ser_strings l)) = Inr t
         \<and> at ''args.json.sig'' = Some (signature t))"

definition payload_hosted ::
    "deps \<Rightarrow> (string \<Rightarrow> bytes option) \<Rightarrow> string list \<Rightarrow> string \<Rightarrow> payload \<Rightarrow> bytes \<Rightarrow> string list option \<Rightarrow> bool" where
  "payload_hosted D at bases arch p b args \<longleftrightarrow>
     p_url p = compose_urls bases arch ''stage2'' \<and> at ''stage2'' = Some b
     \<and> p_sig_url p = None \<and> p_args_sig_url p = None
     \<and> (p_sha256 p = Some (sha256_hex D b) \<and> p_ed25519 p = None \<and> p_args_url p = None \<and> p_args p = args
        \<or> (\<exists>pem s. p_sha256 p = None \<and> p_ed25519 p = Some (pubkey_b64 s)
            \<and> sign D pem Stage2Payload b = Inr s \<and> at ''stage2.sig'' = Some (signature s)
            \<and> args_hosted D at bases arch pem p args))"

definition manifest_hosted ::
    "deps \<Rightarrow> (string \<Rightarrow> bytes option) \<Rightarrow> string list \<Rightarrow> string \<Rightarrow> payload \<Rightarrow> manifest_ref \<Rightarrow> bool" where
  "manifest_hosted D at bases arch p m \<longleftrightarrow>
     m_url m = compose_urls bases arch ''stage2.manifest.json'' \<and> m_sig_url m = None \<and> m_sha256 m = None
     \<and> (\<exists>pem s. let b = json_pretty D (manifest_fragment ''_stage2'' arch p) in
          at ''stage2.manifest.json'' = Some b \<and> sign D pem Stage2Manifest b = Inr s
          \<and> m_ed25519 m = pubkey_b64 s \<and> at ''stage2.manifest.json.sig'' = Some (signature s))"

definition entry_hosted ::
    "deps \<Rightarrow> (string \<Rightarrow> bytes option) \<Rightarrow> string list \<Rightarrow> string \<Rightarrow> arch_config \<Rightarrow> bytes \<Rightarrow> string list option \<Rightarrow> bool" where
  "entry_hosted D at bases arch e b args \<longleftrightarrow>
     ac_resolved_manifests e = [] \<and> (\<exists>p. payload_hosted D at bases arch p b args
       \<and> (ac_entry e = Payload_Entry p
          \<or> (\<exists>m. ac_entry e = Manifest_Entry m \<and> manifest_hosted D at bases arch p m \<and> p_sha256 p \<noteq> None)))"

text \<open>The file of each name in the directory of an architecture.\<close>

definition published :: "create_args \<Rightarrow> files \<Rightarrow> string \<Rightarrow> bytes option" where
  "published a fs name = f_data fs (path_join (x_dir (create_ctx a)) name)"

definition given_args :: "host \<Rightarrow> create_args \<Rightarrow> string list option" where
  "given_args H a = (case c_args a of None \<Rightarrow> None | Some j \<Rightarrow> strings_from_slice (h_deps H) (str_bytes j))"

lemma published_put [simp]:
  "published a (put_file (path_join (x_dir (create_ctx a)) name) b fs) = (published a fs)(name := Some b)"
  by (auto simp: published_def fun_eq_iff)

lemma ctx_arch [simp]: "x_arch (create_ctx a) = c_arch a"
  by (simp add: create_ctx_def)

lemma build_payload_Inr:
  assumes "build_payload H (create_ctx a) name src key d fs = (Inr p, fs')"
  obtains b where "published a fs' name = Some b"
    and "p_url p = compose_urls (x_bases (create_ctx a)) (c_arch a) name"
    and "p_sig_url p = None" and "p_args p = None" and "p_args_url p = None" and "p_args_sig_url p = None"
    and "key = None \<Longrightarrow> p_sha256 p = Some (sha256_hex (h_deps H) b) \<and> p_ed25519 p = None"
    and "\<And>pem. key = Some pem \<Longrightarrow> \<exists>s. sign (h_deps H) pem d b = Inr s \<and> p_sha256 p = None
           \<and> p_ed25519 p = Some (pubkey_b64 s) \<and> published a fs' (name @ ''.sig'') = Some (signature s)"
  using assms unfolding build_payload_def Let_def
  by (elim run_elims) (fastforce simp: res_simps ctx_arch split: option.splits)

lemma attach_args_Inr:
  assumes "attach_args H a (create_ctx a) key p fs = (Inr p', fs')"
  obtains "c_args a = None" and "p' = p" and "fs' = fs"
  | l where "given_args H a = Some l" and "c_args a \<noteq> None" and "\<not> c_sign_args a" and "p' = p\<lparr>p_args := Some l\<rparr>" and "fs' = fs"
  | l pem t where "given_args H a = Some l" and "c_args a \<noteq> None" and "c_sign_args a" and "key = Some pem"
      and "p' = p\<lparr>p_args_url := Some (compose_urls (x_bases (create_ctx a)) (c_arch a) ''args.json'')\<rparr>"
      and "sign (h_deps H) pem Stage2Args (json_compact (h_deps H) (ser_strings l)) = Inr t"
      and "published a fs' = (published a fs)(''args.json'' := Some (json_compact (h_deps H) (ser_strings l)),
             ''args.json.sig'' := Some (signature t))"
proof (cases "c_args a")
  case None
  with assms that(1) show thesis by (simp add: attach_args_def)
next
  case (Some j)
  with assms obtain l where l: "strings_from_slice (h_deps H) (str_bytes j) = Some l"
    by (auto simp: attach_args_def res_simps)
  then have given: "given_args H a = Some l" using Some by (simp add: given_args_def)
  show thesis
  proof (cases "c_sign_args a")
    case False
    with assms Some l that(2)[OF given] show thesis by (simp add: attach_args_def)
  next
    case True
    with assms Some l that(3)[OF given _ True] show thesis
      by (auto simp: attach_args_def res_simps Let_def)
  qed
qed

text \<open>A signed fragment next to the pointer that names it, for either stage.\<close>

definition pointer_hosted ::
    "deps \<Rightarrow> (string \<Rightarrow> bytes option) \<Rightarrow> string list \<Rightarrow> string \<Rightarrow> string \<Rightarrow> string \<Rightarrow> domain \<Rightarrow> payload \<Rightarrow> manifest_ref \<Rightarrow> bool" where
  "pointer_hosted D at bases arch st name d p m \<longleftrightarrow>
     m_url m = compose_urls bases arch (manifest_name name) \<and> m_sig_url m = None \<and> m_sha256 m = None
     \<and> (\<exists>pem s. let b = json_pretty D (manifest_fragment st arch p) in
          at (manifest_name name) = Some b \<and> sign D pem d b = Inr s
          \<and> m_ed25519 m = pubkey_b64 s \<and> at (manifest_name name @ ''.sig'') = Some (signature s))"

lemma wrap_manifest_Inr:
  assumes "wrap_manifest H (create_ctx a) st name p pem d fs = (Inr e, fs')"
  obtains m where "ac_entry e = Manifest_Entry m" and "ac_resolved_manifests e = []"
    and "pointer_hosted (h_deps H) (published a fs') (x_bases (create_ctx a)) (c_arch a) st name d p m"
    and "\<And>n. n \<notin> {manifest_name name, manifest_name name @ ''.sig''} \<Longrightarrow> published a fs' n = published a fs n"
  using assms unfolding wrap_manifest_def Let_def
  by (elim run_elims) (fastforce simp: res_simps pointer_hosted_def Let_def)

lemma wrap_manifest_stage2_Inr:
  assumes "wrap_manifest H (create_ctx a) ''_stage2'' ''stage2'' p pem Stage2Manifest fs = (Inr e, fs')"
  obtains m where "ac_entry e = Manifest_Entry m" and "ac_resolved_manifests e = []"
    and "manifest_hosted (h_deps H) (published a fs') (x_bases (create_ctx a)) (c_arch a) p m"
    and "\<And>name. name \<notin> {''stage2.manifest.json'', ''stage2.manifest.json.sig''} \<Longrightarrow> published a fs' name = published a fs name"
  using assms by (rule wrap_manifest_Inr) (auto simp: pointer_hosted_def manifest_hosted_def manifest_name_def)

lemma wrap_manifest_stage1_Inr:
  assumes "wrap_manifest H (create_ctx a) ''_stage1'' ''linux.efi'' p pem Stage1Manifest fs = (Inr e, fs')"
    and "name \<notin> {''linux.efi.manifest.json'', ''linux.efi.manifest.json.sig''}"
  shows "published a fs' name = published a fs name"
  using assms(1) by (rule wrap_manifest_Inr) (use assms(2) in \<open>simp add: manifest_name_def\<close>)

lemma payload_hosted_args:
  assumes "attach_args H a (create_ctx a) key p fs = (Inr p', fs')"
    and "payload_hosted (h_deps H) (published a fs) (x_bases (create_ctx a)) (c_arch a) p b None"
    and "p_args p = None" and "p_args_url p = None"
    and "\<And>pem. key = Some pem \<Longrightarrow> c_sign_args a \<Longrightarrow>
      \<exists>s. p_sha256 p = None \<and> p_ed25519 p = Some (pubkey_b64 s) \<and> sign (h_deps H) pem Stage2Payload b = Inr s
        \<and> published a fs ''stage2.sig'' = Some (signature s)"
  shows "payload_hosted (h_deps H) (published a fs') (x_bases (create_ctx a)) (c_arch a) p' b (given_args H a)"
  using assms(1)
proof (cases rule: attach_args_Inr)
  case 1
  with assms(2) show ?thesis by (simp add: given_args_def)
next
  case (2 l)
  with assms(2-4) show ?thesis by (auto simp: payload_hosted_def args_hosted_def)
next
  case (3 l pem t)
  from assms(5)[OF 3(4) 3(3)] 3 assms(2-4) show ?thesis
    by (auto simp: payload_hosted_def args_hosted_def)
qed

lemma payload_hosted_cong:
  assumes "payload_hosted D at bases arch p b args"
    and "\<And>name. name \<in> {''stage2'', ''stage2.sig'', ''args.json'', ''args.json.sig''} \<Longrightarrow> at' name = at name"
  shows "payload_hosted D at' bases arch p b args"
  using assms unfolding payload_hosted_def args_hosted_def by simp

lemma check_bases_Inr_iff: "check_bases bs = Inr u \<longleftrightarrow> (\<forall>b \<in> set bs. starts_with b ''http://'')"
  by (induction bs) auto

lemma prepare_steps:
  assumes "prepare H a fs = (Inr (e1, e2), fs')"
  obtains key uki p stage2 fs1 fs2 fs3 fs4
  where "read_key H a fs = (Inr key, fs1)" and "c_sign_args a \<longrightarrow> \<not> c_manifest a"
    and "build_payload H (create_ctx a) ''linux.efi'' (c_uki a) (if c_manifest a then None else key) Stage1Uki fs1 = (Inr uki, fs2)"
    and "build_payload H (create_ctx a) ''stage2'' (c_stage2 a) (if c_manifest a then None else key) Stage2Payload fs2 = (Inr p, fs3)"
    and "attach_args H a (create_ctx a) key p fs3 = (Inr stage2, fs4)"
    and "make_entries H a (create_ctx a) key uki stage2 fs4 = (Inr (e1, e2), fs')"
    and "entry_allowed (h_deps H) Stage0 e1" and "entry_allowed (h_deps H) Stage1 e2"
    and "\<forall>b \<in> set (x_bases (create_ctx a)). starts_with b ''http://''"
  using assms unfolding prepare_def Let_def create_dir_all_def
proof (elim run_elims, goal_cases)
  case (1 u fs1 u1 fs2 key fs3 uki fs4 p fs5 stage2 fs6 es fs7 e1' e2' u2 fs8 u3 fs9)
  then show ?case
    by (intro 1(1)[of key fs3 uki fs4 p fs5 stage2 fs6])
       (auto simp: map_err_Inr_iff arch_validate_allowed check_bases_Inr_iff split: if_splits)
qed

lemma prepare_Inr:
  assumes "prepare H a fs = (Inr (e1, e2), fs')"
  shows "\<exists>b. entry_hosted (h_deps H) (published a fs') (x_bases (create_ctx a)) (c_arch a) e2 b (given_args H a)"
    and "entry_allowed (h_deps H) Stage0 e1" and "entry_allowed (h_deps H) Stage1 e2"
proof -
  let ?hosted = "\<lambda>fs p b. payload_hosted (h_deps H) (published a fs) (x_bases (create_ctx a)) (c_arch a) p b"
  from assms have "(\<exists>b. entry_hosted (h_deps H) (published a fs') (x_bases (create_ctx a)) (c_arch a) e2 b (given_args H a))
    \<and> entry_allowed (h_deps H) Stage0 e1 \<and> entry_allowed (h_deps H) Stage1 e2"
  proof (cases rule: prepare_steps)
    case (1 key uki p stage2 fs1 fs2 fs3 fs4)
    from 1(4) obtain b where b: "?hosted fs3 p b None"
      and plain: "p_args p = None" "p_args_url p = None"
      and signed: "\<And>pem. (if c_manifest a then None else key) = Some pem \<Longrightarrow>
          \<exists>s. sign (h_deps H) pem Stage2Payload b = Inr s \<and> p_sha256 p = None
           \<and> p_ed25519 p = Some (pubkey_b64 s) \<and> published a fs3 ''stage2.sig'' = Some (signature s)"
      by (rule build_payload_Inr)
         (cases "if c_manifest a then None else key"; auto simp: payload_hosted_def args_hosted_def)
    have hosted: "?hosted fs4 stage2 b (given_args H a)"
      using 1(2) signed by (intro payload_hosted_args[OF 1(5) b plain]) (auto split: if_splits)
    show ?thesis
    proof (cases "c_manifest a")
      case False
      with 1(6) have "e2 = direct_entry stage2" "fs' = fs4" by (auto simp: make_entries_def)
      with hosted 1(7,8) show ?thesis by (auto simp: entry_hosted_def direct_entry_def)
    next
      case True
      with 1(6) obtain pem fs5 where w1: "wrap_manifest H (create_ctx a) ''_stage1'' ''linux.efi'' uki pem Stage1Manifest fs4 = (Inr e1, fs5)"
        and w2: "wrap_manifest H (create_ctx a) ''_stage2'' ''stage2'' stage2 pem Stage2Manifest fs5 = (Inr e2, fs')"
        by (auto simp: make_entries_def res_simps)
      from w2 show ?thesis
      proof (rule wrap_manifest_stage2_Inr)
        fix m
        assume m: "ac_entry e2 = Manifest_Entry m" "ac_resolved_manifests e2 = []"
          "manifest_hosted (h_deps H) (published a fs') (x_bases (create_ctx a)) (c_arch a) stage2 m"
          and same: "\<And>name. name \<notin> {''stage2.manifest.json'', ''stage2.manifest.json.sig''} \<Longrightarrow>
            published a fs' name = published a fs5 name"
        have "published a fs' n = published a fs4 n"
          if "n \<in> {''stage2'', ''stage2.sig'', ''args.json'', ''args.json.sig''}" for n
        proof -
          from that have "n \<notin> {''stage2.manifest.json'', ''stage2.manifest.json.sig''}"
            and other: "n \<notin> {''linux.efi.manifest.json'', ''linux.efi.manifest.json.sig''}" by auto
          from same[OF this(1)] wrap_manifest_stage1_Inr[OF w1 other] show ?thesis by simp
        qed
        then have "?hosted fs' stage2 b (given_args H a)"
          by (rule payload_hosted_cong[OF hosted])
        moreover have "p_sha256 p \<noteq> None" using 1(4) True by (auto elim: build_payload_Inr)
        then have "p_sha256 stage2 \<noteq> None" using 1(5) by (auto elim: attach_args_Inr)
        ultimately show ?thesis using m 1(7,8) by (auto simp: entry_hosted_def)
      qed
    qed
  qed
  then show "\<exists>b. entry_hosted (h_deps H) (published a fs') (x_bases (create_ctx a)) (c_arch a) e2 b (given_args H a)"
    and "entry_allowed (h_deps H) Stage0 e1" and "entry_allowed (h_deps H) Stage1 e2" by simp_all
qed

lemma prepare_variant:
  assumes "prepare H a fs = (Inr (e1, e2), fs')"
  shows "\<not> c_manifest a \<Longrightarrow> \<exists>p. ac_entry e2 = Payload_Entry p"
    and "c_manifest a \<Longrightarrow> \<exists>m. ac_entry e2 = Manifest_Entry m"
  using assms
  by (rule prepare_steps; auto simp: make_entries_def direct_entry_def res_simps elim!: wrap_manifest_stage2_Inr)+

subsection \<open>A whole \<open>create\<close>\<close>

text \<open>The document \<open>create\<close> starts from: the one on disk, or an empty object.\<close>

definition old_doc :: "host \<Rightarrow> create_args \<Rightarrow> files \<Rightarrow> json option" where
  "old_doc H a fs =
     (if path_exists H (ud_path a) fs
      then Option.bind (f_data fs (ud_path a)) (value_from_slice (h_deps H)) else Some (JObj []))"

lemma wf_old_doc: "old_doc H a fs = Some doc \<Longrightarrow> wf_json doc"
  by (auto simp: old_doc_def bind_eq_Some_conv wf_value_from_slice split: if_splits)

lemma read_value_Inr:
  "read_value H path fs = (Inr doc, fs') \<Longrightarrow>
     fs' = fs \<and> Option.bind (f_data fs path) (value_from_slice (h_deps H)) = Some doc"
  by (auto simp: read_value_def res_simps string_from_utf8_bytes)

lemma create_steps:
  assumes "create H a fs = (Inr u, fs')" and "plain_arch (c_arch a)"
  obtains e1 e2 doc doc' fs1 where "prepare H a fs = (Inr (e1, e2), fs1)" and "old_doc H a fs = Some doc"
    and "merge_doc (c_arch a) e1 e2 doc = Inr doc'"
    and "f_data fs' = (f_data fs1)(ud_path a := Some (print_doc (h_deps H) doc'))"
    and "\<And>name. name \<in> arch_names \<Longrightarrow> published a fs' name = published a fs1 name"
    and "touches (insert (ud_path a) (arch_files a)) fs fs'"
  using assms(1) unfolding create_def
proof (elim run_elims, goal_cases)
  case (1 es fs1 e1 e2 u1 fs2)
  have prep: "prepare H a fs = (Inr (e1, e2), fs1)" using 1 by simp
  have touched: "touches (arch_files a) fs fs1" using keepsD[OF keeps_prepare prep] .
  have old: "f_data fs1 (ud_path a) = f_data fs (ud_path a)"
    using touched ud_path_not_arch_file[OF assms(2)] by (simp add: touches_def)
  from 1 obtain doc doc' where doc: "old_doc H a fs = Some doc" "merge_doc (c_arch a) e1 e2 doc = Inr doc'"
    and fs2: "fs2 = put_file (ud_path a) (print_doc (h_deps H) doc') fs1"
    by (auto simp: merge_user_data_def res_simps old_doc_def path_exists_def old
        dest!: read_value_Inr split: if_splits)
  from 1 have data: "f_data fs' = f_data fs2" by (auto simp: print_line_def)
  have same: "published a fs' name = published a fs1 name" if "name \<in> arch_names" for name
    using that in_arch_files[OF that, of a] ud_path_not_arch_file[OF assms(2)]
    by (auto simp: published_def data fs2)
  have "touches (insert (ud_path a) (arch_files a)) fs fs'"
    using touched by (auto simp: touches_def data fs2)
  with prep doc same show ?case by (intro 1(1)[OF prep doc]) (simp_all add: data fs2 put_file_def)
qed

lemma entry_hosted_cong:
  assumes "entry_hosted D at bases arch e b args" and "\<And>name. name \<in> arch_names \<Longrightarrow> at' name = at name"
  shows "entry_hosted D at' bases arch e b args"
  using assms
  by (simp add: entry_hosted_def payload_hosted_def args_hosted_def manifest_hosted_def arch_names_def)

lemma create_Inr:
  assumes "create H a fs = (Inr u, fs')" and "plain_arch (c_arch a)"
  obtains e1 e2 doc doc' b where "old_doc H a fs = Some doc"
    and "merge_doc (c_arch a) e1 e2 doc = Inr doc'"
    and "f_data fs' (ud_path a) = Some (print_doc (h_deps H) doc')"
    and "entry_allowed (h_deps H) Stage0 e1" and "entry_allowed (h_deps H) Stage1 e2"
    and "entry_hosted (h_deps H) (published a fs') (x_bases (create_ctx a)) (c_arch a) e2 b (given_args H a)"
    and "touches (insert (ud_path a) (arch_files a)) fs fs'"
    and "\<forall>b \<in> set (x_bases (create_ctx a)). starts_with b ''http://''"
    and "\<not> c_manifest a \<Longrightarrow> \<exists>p. ac_entry e2 = Payload_Entry p"
    and "c_manifest a \<Longrightarrow> \<exists>r. ac_entry e2 = Manifest_Entry r"
  using assms
proof (rule create_steps, goal_cases)
  case (1 e1 e2 doc doc' fs1)
  note prep = 1(2)
  obtain b where "entry_hosted (h_deps H) (published a fs1) (x_bases (create_ctx a)) (c_arch a) e2 b (given_args H a)"
    using prepare_Inr(1)[OF prep] by blast
  then have "entry_hosted (h_deps H) (published a fs') (x_bases (create_ctx a)) (c_arch a) e2 b (given_args H a)"
    using 1(6) by (rule entry_hosted_cong)
  moreover have "\<forall>b \<in> set (x_bases (create_ctx a)). starts_with b ''http://''"
    using prep by (rule prepare_steps)
  ultimately show ?case
    using 1 prepare_Inr(2,3)[OF prep] prepare_variant[OF prep] by (intro 1(1)[OF 1(3,4)]) simp_all
qed

subsection \<open>The document stays one that reads back\<close>

lemma de_stage_config_value:
  "bt_ok m \<Longrightarrow> de_stage_config (JObj m) = do {
     aarch64 \<leftarrow> opt_field de_arch_config (bt_get m ''aarch64'');
     x86_64 \<leftarrow> opt_field de_arch_config (bt_get m ''x86_64'');
     Some \<lparr>sc_aarch64 = aarch64, sc_x86_64 = x86_64\<rparr> }"
  by (simp add: de_stage_config_def struct_fields_object)

lemma opt_field_ser_arch: "opt_field de_arch_config (Some (ser_arch_config e)) = Some (Some e)"
  using arch_config_wire.opt_field_ser[of "Some e"] by simp

text \<open>A stage that is absent or reads back still reads back, with the new entry in place.\<close>

lemma set_arch_typed:
  assumes "set_arch st arch (ser_arch_config e) m = Inr m'" and "wf_json (JObj m)"
    and "arch \<in> {''x86_64'', ''aarch64''}" and "opt_field de_stage_config (bt_get m st) = Some s"
    and "stage_allowed D profile s" and "entry_allowed D profile e"
  shows "\<exists>s'. opt_field de_stage_config (bt_get m' st) = Some (Some s') \<and> stage_allowed D profile (Some s')"
  using assms(1)
proof (rule set_arch_Inr)
  fix smap
  assume smap: "(case bt_get m st of None \<Rightarrow> JObj [] | Some v \<Rightarrow> v) = JObj smap"
    and m': "m' = bt_insert st (JObj (bt_insert arch (ser_arch_config e) smap)) m"
  have ok: "bt_ok smap"
  proof (cases "bt_get m st")
    case (Some v)
    with smap assms(2) wf_fields_get[of m st v] show ?thesis by simp
  qed (use smap in simp)
  obtain a x where old: "opt_field de_arch_config (bt_get smap ''aarch64'') = Some a"
    "opt_field de_arch_config (bt_get smap ''x86_64'') = Some x"
    "stage_allowed D profile (Some \<lparr>sc_aarch64 = a, sc_x86_64 = x\<rparr>)"
  proof (cases "bt_get m st")
    case None
    with smap that[of None None] show thesis
      by (simp add: opt_field_def or_default_def stage_allowed_def)
  next
    case (Some v)
    with smap assms(4) ok that assms(5) show thesis
      by (auto simp: opt_field_def[of de_stage_config] or_default_def[of None "de_option de_stage_config"]
          de_option_def[of de_stage_config] de_stage_config_value bind_eq_Some_conv)
  qed
  have "opt_field de_stage_config (bt_get m' st) = map_option Some (de_stage_config (JObj (bt_insert arch (ser_arch_config e) smap)))"
    by (simp add: m' opt_field_def or_default_def de_option_def)
  then show ?thesis
    using old ok assms(3,6)
    by (auto simp: de_stage_config_value opt_field_ser_arch stage_allowed_def)
qed

text \<open>A document that reads back and keeps the rules, if it has a stage at all.\<close>

definition sound_doc :: "deps \<Rightarrow> json \<Rightarrow> bool" where
  "sound_doc D doc \<longleftrightarrow>
     (\<exists>ud. de_user_data doc = Some ud \<and> stage_allowed D Stage0 (ud_stage1 ud) \<and> stage_allowed D Stage1 (ud_stage2 ud))"

lemma sound_doc_empty: "sound_doc D (JObj [])"
  by (simp add: sound_doc_def de_user_data_def struct_fields_def opt_field_def or_default_def stage_allowed_def)

lemma merged_document:
  assumes "merge_doc arch e1 e2 doc = Inr doc'" and "wf_json doc" and "arch \<in> {''x86_64'', ''aarch64''}"
    and "sound_doc D doc" and "entry_allowed D Stage0 e1" and "entry_allowed D Stage1 e2"
  shows "\<exists>ud'. de_user_data doc' = Some ud' \<and> document_allowed D ud'"
  using assms(1)
proof (rule merge_doc_Inr)
  obtain ud where ud: "de_user_data doc = Some ud" "stage_allowed D Stage0 (ud_stage1 ud)" "stage_allowed D Stage1 (ud_stage2 ud)"
    using assms(4) by (auto simp: sound_doc_def)
  fix m m1 m2
  assume doc: "doc = JObj m" "doc' = JObj m2" and s1: "set_arch ''_stage1'' arch (ser_arch_config e1) m = Inr m1"
    and s2: "set_arch ''_stage2'' arch (ser_arch_config e2) m1 = Inr m2"
  have wf: "wf_json (JObj m)" using assms(2) doc by simp
  note wf1 = set_arch_wf[OF s1 wf arch_config_wire.ser_wf] and wf2 = set_arch_wf[OF s2 _ arch_config_wire.ser_wf]
  have old: "opt_field de_stage_config (bt_get m ''_stage1'') = Some (ud_stage1 ud)"
    "opt_field de_stage_config (bt_get m ''_stage2'') = Some (ud_stage2 ud)"
    using ud(1) wf doc by (auto simp: de_user_data_def struct_fields_object bind_eq_Some_conv)
  obtain x1 where x1: "opt_field de_stage_config (bt_get m1 ''_stage1'') = Some (Some x1)" "stage_allowed D Stage0 (Some x1)"
    using set_arch_typed[OF s1 wf assms(3) old(1) ud(2) assms(5)] by blast
  have "bt_get m1 ''_stage2'' = bt_get m ''_stage2''" by (rule set_arch_get(2)[OF s1]) simp
  then obtain x2 where x2: "opt_field de_stage_config (bt_get m2 ''_stage2'') = Some (Some x2)" "stage_allowed D Stage1 (Some x2)"
    using set_arch_typed[OF s2 wf1 assms(3) _ ud(3) assms(6)] old(2) by auto
  have "bt_get m2 ''_stage1'' = bt_get m1 ''_stage1''" by (rule set_arch_get(2)[OF s2]) simp
  with x1 x2 wf2[OF wf1] show ?thesis
    by (auto simp: doc de_user_data_def struct_fields_object document_allowed_def)
qed

subsection \<open>Rewriting URL lists\<close>

text \<open>The specification: what happens to the list of bases.\<close>

fun add_new :: "'a list \<Rightarrow> 'a list \<Rightarrow> 'a list" where
  "add_new [] us = us"
| "add_new (b # bs) us = add_new bs (if b \<in> set us then us else us @ [b])"

definition edit_bases :: "string list \<Rightarrow> string list \<Rightarrow> string list \<Rightarrow> string list" where
  "edit_bases adds rems bases = add_new adds (filter (\<lambda>b. b \<notin> set rems) bases)"

text \<open>A base that is a scheme and a host only.\<close>

definition host_base :: "string \<Rightarrow> bool" where
  "host_base b \<longleftrightarrow> (\<exists>h. b = ''http://'' @ h \<and> CHR ''/'' \<notin> set h)"

lemma push_new_eq: "push_new suffix bs us = add_new (map (\<lambda>b. b @ suffix) bs) us"
  by (induction bs arbitrary: us) (simp_all add: Let_def)

lemma add_new_map: "inj f \<Longrightarrow> add_new (map f bs) (map f us) = map f (add_new bs us)"
proof (induction bs arbitrary: us)
  case (Cons b bs)
  have "f b \<in> f ` set us \<longleftrightarrow> b \<in> set us" using Cons.prems by (rule inj_image_mem_iff)
  with Cons.IH[OF Cons.prems, of "us @ [b]"] Cons.IH[OF Cons.prems, of us] show ?case by simp
qed simp

lemma find_char_append: "c \<notin> set h \<Longrightarrow> find_char c (h @ c # r) = Some (length h)"
  by (induction h) auto

lemma url_path_host: "CHR ''/'' \<notin> set h \<Longrightarrow> url_path (''http://'' @ h @ CHR ''/'' # r) = CHR ''/'' # r"
  by (simp add: url_path_def strip_prefix_append find_char_append del: append.simps strip_prefix.simps)

definition url_suffix :: "string \<Rightarrow> string \<Rightarrow> string" where
  "url_suffix arch name = ''/'' @ arch @ ''/'' @ name"

lemma compose_url_suffix: "compose_url arch name = (\<lambda>b. b @ url_suffix arch name)"
  by (rule ext) (simp add: compose_url_def url_suffix_def)

lemma inj_compose_url: "inj (compose_url arch name)"
  by (rule injI) (simp add: compose_url_suffix)

lemma compose_url_host:
  "compose_url arch name (''http://'' @ h) = ''http://'' @ h @ CHR ''/'' # (arch @ ''/'' @ name)"
  by (simp add: compose_url_def)

lemma url_path_compose: "host_base b \<Longrightarrow> url_path (compose_url arch name b) = url_suffix arch name"
proof -
  assume "host_base b"
  then obtain h where h: "b = ''http://'' @ h" "CHR ''/'' \<notin> set h" unfolding host_base_def by blast
  have "url_path (compose_url arch name b) = CHR ''/'' # (arch @ ''/'' @ name)"
    unfolding h(1) compose_url_host by (rule url_path_host[OF h(2)])
  then show ?thesis by (simp add: url_suffix_def)
qed

lemma before_slash_eq:
  assumes "h @ (c :: char) # r = h' @ c # t" and "c \<notin> set h" and "c \<notin> set h'"
  shows "h = h'"
proof -
  have "Some (length h) = Some (length h')"
    using find_char_append[OF assms(2), of r] find_char_append[OF assms(3), of t] assms(1) by simp
  with assms(1) show ?thesis by simp
qed

lemma under_base_compose:
  assumes "host_base b" and "\<forall>r \<in> set rems. host_base r"
  shows "under_base rems (compose_url arch name b) \<longleftrightarrow> b \<in> set rems"
proof -
  obtain h where h: "b = ''http://'' @ h" "CHR ''/'' \<notin> set h"
    using assms(1) unfolding host_base_def by blast
  have "starts_with (compose_url arch name b) (r @ ''/'') \<longleftrightarrow> r = b" if r: "r \<in> set rems" for r
  proof
    assume "starts_with (compose_url arch name b) (r @ ''/'')"
    then obtain t where t: "compose_url arch name b = r @ CHR ''/'' # t" by (auto simp: starts_with_iff)
    obtain h' where h': "r = ''http://'' @ h'" "CHR ''/'' \<notin> set h'"
      using assms(2) r unfolding host_base_def by blast
    have "h @ CHR ''/'' # (arch @ ''/'' @ name) = h' @ CHR ''/'' # t"
      using t unfolding h(1) h'(1) compose_url_host append_assoc by (simp only: same_append_eq)
    with h(2) h'(2) have "h = h'" by (metis before_slash_eq)
    with h h' show "r = b" by simp
  next
    assume "r = b"
    then show "starts_with (compose_url arch name b) (r @ ''/'')"
      by (simp add: starts_with_iff compose_url_def)
  qed
  then show ?thesis by (auto simp: under_base_def list_ex_iff)
qed

lemma url_values_ser: "url_values (ser_url_list l) = Inr (urls l)"
proof -
  have "List.map_filter as_str (map JStr us) = us" for us
    by (induction us) (simp_all add: List.map_filter_simps)
  then show ?thesis
    by (auto simp: url_values_def ser_url_list_def split: list.split)
qed

lemma rewrite_urls_ser:
  "rewrite_urls adds rems (ser_url_list l) = Inr (ser_url_list (UrlList (rewritten_urls adds rems (urls l))))"
  by (simp add: rewrite_urls_def url_values_ser)

lemma rewritten_urls_compose:
  assumes "\<forall>b \<in> set bases. host_base b" and "\<forall>r \<in> set rems. host_base r" and "bases \<noteq> []"
  shows "rewritten_urls adds rems (map (compose_url arch name) bases)
       = map (compose_url arch name) (edit_bases adds rems bases)"
proof -
  have "filter (\<lambda>u. \<not> under_base rems u) (map (compose_url arch name) bases)
      = map (compose_url arch name) (filter (\<lambda>b. b \<notin> set rems) bases)"
    using assms(1,2) by (simp add: filter_map comp_def under_base_compose cong: filter_cong)
  moreover obtain b bs where bases: "bases = b # bs" using assms(3) by (cases bases) simp_all
  then have "url_path (compose_url arch name b) = url_suffix arch name"
    using assms(1) by (simp add: url_path_compose)
  ultimately show ?thesis
    using bases add_new_map[OF inj_compose_url]
    by (simp add: rewritten_urls_def push_new_eq edit_bases_def compose_url_suffix flip: compose_url_suffix)
qed

subsection \<open>Rewriting a document\<close>

lemma rewrite_member_get:
  assumes "rewrite_member f k m = Inr m'"
  shows "j \<noteq> k \<Longrightarrow> bt_get m' j = bt_get m j"
    and "rel_option (\<lambda>v v'. f v = Inr v') (bt_get m k) (bt_get m' k)"
  using assms by (auto simp: rewrite_member_def res_simps split: option.splits)

lemma rewrite_members_get:
  assumes "try_fold (rewrite_member f) ks m = Inr m'" and "distinct ks"
  shows "k \<notin> set ks \<Longrightarrow> bt_get m' k = bt_get m k"
    and "k \<in> set ks \<Longrightarrow> rel_option (\<lambda>v v'. f v = Inr v') (bt_get m k) (bt_get m' k)"
  using assms
proof (induction ks arbitrary: m)
  case (Cons x ks)
  case 1
  then show ?case using Cons.IH(1) rewrite_member_get(1)[of f x m _ k] by (auto simp: res_simps)
next
  case (Cons x ks)
  case 2
  then obtain m1 where m1: "rewrite_member f x m = Inr m1" "try_fold (rewrite_member f) ks m1 = Inr m'"
    by (auto simp: res_simps)
  show ?case
  proof (cases "k = x")
    case True
    with Cons.IH(1)[OF _ m1(2)] 2(3) rewrite_member_get(2)[OF m1(1)] show ?thesis by simp
  next
    case False
    with Cons.IH(2)[OF _ m1(2)] 2 rewrite_member_get(1)[OF m1(1)] show ?thesis by simp
  qed
qed simp_all

lemma rewrite_object_get:
  assumes "rewrite_object f v = Inr v'"
  obtains m m' where "v = JObj m" and "v' = JObj m'" and "f m = Inr m'"
  | "\<not> is_object v" and "v' = v"
  using assms by (cases v) (auto simp: rewrite_object_def res_simps)

lemma rewrite_arches_get:
  "rewrite_arches adds rems m = Inr m' \<Longrightarrow>
     rel_option (\<lambda>v v'. rewrite_entry adds rems v = Inr v') (bt_get m k) (bt_get m' k)"
  by (induction adds rems m arbitrary: m' rule: rewrite_arches.induct) (auto simp: res_simps)

text \<open>
  What a rewrite does to a member of an object: one of the keys it goes through is rewritten, any
  other is kept. Paths of keys are followed one object at a time.
\<close>

definition member_change :: "(json \<Rightarrow> tool_error + json) \<Rightarrow> string list \<Rightarrow> string \<Rightarrow> json \<Rightarrow> json \<Rightarrow> bool" where
  "member_change g ks k x x' \<longleftrightarrow> (if k \<in> set ks then g x = Inr x' else x' = x)"

lemma rewrite_members_object:
  assumes "rewrite_object (try_fold (rewrite_member g) ks) v = Inr v'" and "distinct ks"
  shows "rel_option (member_change g ks k) (get v k) (get v' k)"
  using assms(1)
proof (cases rule: rewrite_object_get)
  case (1 m m')
  show ?thesis
  proof (cases "k \<in> set ks")
    case True
    with rewrite_members_get(2)[OF 1(3) assms(2)] 1 show ?thesis by (simp add: member_change_def[abs_def])
  next
    case False
    with rewrite_members_get(1)[OF 1(3) assms(2)] 1 show ?thesis
      by (simp add: member_change_def option.rel_refl)
  qed
next
  case 2
  then show ?thesis by (cases v) (simp_all add: is_object_iff)
qed

lemma get_path_step:
  assumes "rel_option R (get v k) (get v' k)"
    and "\<And>x x'. R x x' \<Longrightarrow> rel_option S (get_path x ks) (get_path x' ks)"
  shows "rel_option S (get_path v (k # ks)) (get_path v' (k # ks))"
  using assms by (cases "get v k"; cases "get v' k") simp_all

lemma get_path_same: "rel_option (=) (get_path v ks) (get_path v ks)"
  by (simp add: option.rel_eq)

text \<open>The places of the URL lists in a document.\<close>

definition url_place :: "string \<Rightarrow> string \<Rightarrow> string \<Rightarrow> bool" where
  "url_place st var field \<longleftrightarrow> st \<in> stages \<and> var \<in> {''payload'', ''manifest''} \<and> field \<in> set url_fields"

definition url_change :: "string list \<Rightarrow> string list \<Rightarrow> bool \<Rightarrow> json \<Rightarrow> json \<Rightarrow> bool" where
  "url_change adds rems here x x' \<longleftrightarrow> (if here then rewrite_urls adds rems x = Inr x' else x' = x)"

lemma rel_option_same: "(\<And>x. S x x) \<Longrightarrow> rel_option S y y"
  by (cases y) simp_all

lemma rewrite_variant_get:
  assumes "rewrite_variant adds rems v = Inr v'"
  shows "rel_option (url_change adds rems (field \<in> set url_fields)) (get v field) (get v' field)"
  using rewrite_members_object[OF assms[unfolded rewrite_variant_def], of field]
  by (simp add: url_fields_def member_change_def[abs_def] url_change_def[abs_def])

lemma rewrite_entry_path:
  assumes "rewrite_entry adds rems v = Inr v'"
  shows "rel_option (url_change adds rems (var \<in> {''payload'', ''manifest''} \<and> field \<in> set url_fields))
    (get_path v [var, field]) (get_path v' [var, field])"
proof (rule get_path_step)
  show "rel_option (member_change (rewrite_variant adds rems) [''payload'', ''manifest''] var) (get v var) (get v' var)"
    by (rule rewrite_members_object[OF assms[unfolded rewrite_entry_def]]) simp
next
  fix x x'
  assume x: "member_change (rewrite_variant adds rems) [''payload'', ''manifest''] var x x'"
  show "rel_option (url_change adds rems (var \<in> {''payload'', ''manifest''} \<and> field \<in> set url_fields))
      (get_path x [field]) (get_path x' [field])"
  proof (cases "var \<in> {''payload'', ''manifest''}")
    case True
    with x have "rewrite_variant adds rems x = Inr x'" by (auto simp: member_change_def)
    with True rewrite_variant_get[of adds rems x x' field] show ?thesis
      by (cases "get x field"; cases "get x' field") auto
  next
    case False
    with x show ?thesis by (auto simp: member_change_def url_change_def intro!: rel_option_same)
  qed
qed

lemma rewrite_stage_path:
  assumes "rewrite_object (rewrite_arches adds rems) v = Inr v'"
  shows "rel_option (url_change adds rems (var \<in> {''payload'', ''manifest''} \<and> field \<in> set url_fields))
    (get_path v [arch, var, field]) (get_path v' [arch, var, field])"
  using assms
proof (cases rule: rewrite_object_get)
  case (1 m m')
  show ?thesis
  proof (rule get_path_step)
    show "rel_option (\<lambda>x x'. rewrite_entry adds rems x = Inr x') (get v arch) (get v' arch)"
      using 1 by (simp add: rewrite_arches_get)
  qed (rule rewrite_entry_path)
next
  case 2
  then show ?thesis by (cases v) (simp_all add: is_object_iff)
qed

lemma rewrite_doc_path:
  assumes "rewrite_doc adds rems doc = Inr doc'"
  shows "rel_option (url_change adds rems (url_place st var field))
      (get_path doc [st, arch, var, field]) (get_path doc' [st, arch, var, field])"
    and "st \<notin> stages \<Longrightarrow> get doc' st = get doc st"
proof -
  let ?g = "rewrite_object (rewrite_arches adds rems)" and ?ks = "[''_stage1'', ''_stage2'']"
  have ks: "set ?ks = stages" by (simp add: stages_def)
  have step: "rel_option (member_change ?g ?ks st) (get doc st) (get doc' st)"
    using assms by (intro rewrite_members_object) (simp_all add: rewrite_doc_def split: if_splits)
  show "rel_option (url_change adds rems (url_place st var field))
      (get_path doc [st, arch, var, field]) (get_path doc' [st, arch, var, field])"
    using step
  proof (rule get_path_step)
    fix x x'
    assume x: "member_change ?g ?ks st x x'"
    show "rel_option (url_change adds rems (url_place st var field)) (get_path x [arch, var, field]) (get_path x' [arch, var, field])"
    proof (cases "st \<in> stages")
      case True
      with x have "?g x = Inr x'" unfolding member_change_def ks by simp
      from rewrite_stage_path[OF this, of var field arch] True show ?thesis
        by (simp only: url_place_def simp_thms)
    next
      case False
      with x have "x' = x" unfolding member_change_def ks by simp
      with False show ?thesis by (auto simp: url_place_def url_change_def intro!: rel_option_same)
    qed
  qed
  assume "st \<notin> stages"
  with step have "rel_option (=) (get doc' st) (get doc st)"
    unfolding member_change_def[abs_def] ks by (cases "get doc st"; cases "get doc' st") simp_all
  then show "get doc' st = get doc st" by (simp add: option.rel_eq)
qed

lemma modify_Inr:
  assumes "modify H a fs = (Inr u, fs')"
  obtains doc doc' where "Option.bind (f_data fs (doc_path H (o_path a))) (value_from_slice (h_deps H)) = Some doc"
    and "rewrite_doc (map (trim_end_char CHR ''/'') (o_add a)) (map (trim_end_char CHR ''/'') (o_remove a)) doc = Inr doc'"
    and "f_data fs' = (f_data fs)(doc_path H (o_path a) := Some (print_doc (h_deps H) doc'))"
  using assms unfolding modify_def Let_def
proof (elim run_elims, goal_cases)
  case (1 doc fs1 doc' fs2 u1 fs3)
  from read_value_Inr[OF 1(2)] 1 show ?case
    by (intro 1(1)[of doc doc']) (auto simp: res_simps print_line_def put_file_def)
qed

end
