(* ===== verification/Stage1_World.thy ===== *)
theory Stage1_World
  imports Effects Ed25519_Sign Metadata_Wire
begin

section \<open>stage1: the world it runs in\<close>

text \<open>
  \<open>crates/stage1/src/main.rs\<close> talks to web servers, the TPM, the file system and the kernel. Those
  are the environment \<open>env\<close>: functions that answer each call. An answer may depend on everything
  that has happened so far (the trace), so servers may change what they serve between two requests
  and any call may fail at any time. The world records the trace, and the in-memory files.

  A descriptor is modelled by the open file it denotes, an index into \<open>w_files\<close>; \<open>w_stdin\<close> is the
  file descriptor 0 was redirected to. Console output, clocks and sleeping are not modelled.
\<close>

datatype http_method = Http_Get | Http_Put

record request =
  req_method :: http_method
  req_url :: string
  req_headers :: "(string \<times> string) list"

record http_response =
  resp_status :: nat
  resp_body :: "bytes option"   \<comment> \<open>\<open>None\<close>: reading the body failed\<close>

datatype event =
    Ev_Request request
  | Ev_Attest bytes                    \<comment> \<open>a quote over the given nonce\<close>
  | Ev_Write_File string string
  | Ev_Extend nat bytes                \<comment> \<open>PCR index and digest\<close>
  | Ev_Exec bytes "string list" bytes  \<comment> \<open>image, argv, standard input\<close>
  | Ev_Sync
  | Ev_Power_Off
  | Ev_Exit nat
  | Ev_Print string

type_synonym trace = "event list"

record memfd =
  mf_name :: string
  mf_data :: bytes
  mf_sealed :: bool
  mf_exec :: bool      \<comment> \<open>created with \<open>MFD_EXEC\<close>\<close>
  mf_pos :: nat        \<comment> \<open>the file offset\<close>
  mf_calls :: nat      \<comment> \<open>\<open>write\<close> calls so far\<close>

record world =
  w_trace :: trace
  w_files :: "memfd list"
  w_stdin :: "nat option"

datatype errno = EINVAL | Other_Errno nat

text \<open>What \<open>fstat\<close> says of descriptor 0.\<close>

datatype file_kind = Regular_File | Fifo | Other_Kind

record env =
  env_deps :: deps
  env_arch :: arch
  client_builds :: "trace \<Rightarrow> bool"
  respond :: "trace \<Rightarrow> request \<Rightarrow> http_response option"
  env_uid :: nat
  env_pid :: nat
  env_args :: "string list"
  env_vars :: "(string \<times> string) list"
  stdin_kind :: "file_kind option"     \<comment> \<open>\<open>None\<close>: \<open>fstat\<close> fails\<close>
  stdin_data :: "bytes option"         \<comment> \<open>\<open>None\<close>: reading it fails\<close>
  env_clock :: string                  \<comment> \<open>seconds since the epoch, printed\<close>
  response_text :: "bytes \<Rightarrow> string"   \<comment> \<open>\<open>Response::text\<close>, which replaces what is not UTF-8\<close>
  tpm_attest :: "trace \<Rightarrow> bytes \<Rightarrow> string option"
  tpm_open :: "trace \<Rightarrow> bool"
  tpm_pcr_extend :: "trace \<Rightarrow> nat \<Rightarrow> bytes \<Rightarrow> bool"
  fs_write :: "trace \<Rightarrow> string \<Rightarrow> string \<Rightarrow> bool"
  sys_memfd_create :: "trace \<Rightarrow> string \<Rightarrow> bool \<Rightarrow> errno option" \<comment> \<open>name, \<open>MFD_EXEC\<close>; \<open>None\<close> is success\<close>
  sys_write :: "trace \<Rightarrow> memfd \<Rightarrow> nat \<Rightarrow> nat option"            \<comment> \<open>file, length asked; \<open>None\<close> is an error\<close>
  sys_add_seals :: "trace \<Rightarrow> memfd \<Rightarrow> bool"
  sys_lseek :: "trace \<Rightarrow> memfd \<Rightarrow> bool"
  sys_dup2 :: "trace \<Rightarrow> memfd \<Rightarrow> bool"
  sys_execveat :: "trace \<Rightarrow> memfd \<Rightarrow> string list \<Rightarrow> string list \<Rightarrow> bool" \<comment> \<open>\<open>True\<close>: the image runs\<close>

datatype stage1_error =
    Http_Client_Failed | Http_Send_Failed | Http_Status nat | Http_Body_Failed
  | No_Url | No_Payload_Url | No_Manifest_Url
  | Checksum_Mismatch string string
  | Payload_Signature verify_error | Args_Signature verify_error | Args_Not_Strings
  | Manifest_Pin_Mismatch string string | Manifest_Signature verify_error
  | No_Stage2_Config | Invalid_Entry | Invalid_Payload meta_error | Invalid_Manifest meta_error
  | Manifest_Cycle string string | Manifest_Not_Json | Entry_Vanished | Reparse_Failed
  | Bad_Json | Stdin_Read | Azure_Base64 | All_Clouds_Failed
  | Attest_Failed | Attest_Write_Failed | Tpm_Open_Failed | Pcr_Extend_Failed
  | Memfd_Create_Failed | Memfd_Write_Failed | Add_Seals_Failed | Lseek_Failed | Dup2_Failed
  | Memfd_Write_Overrun | Argument_Has_Nul | Exec_Failed

type_synonym 'a stage1 = "(world, stage1_error, 'a) act"

text \<open>One more event in the trace.\<close>

definition emit :: "event \<Rightarrow> world \<Rightarrow> world" where
  "emit e w = w\<lparr>w_trace := w_trace w @ [e]\<rparr>"

lemma emit_simps [simp]:
  "w_trace (emit e w) = w_trace w @ [e]"
  "w_files (emit e w) = w_files w"
  "w_stdin (emit e w) = w_stdin w"
  by (simp_all add: emit_def)

text \<open>A stretch of the run that made network requests and nothing else.\<close>

definition only_requests :: "world \<Rightarrow> world \<Rightarrow> bool" where
  "only_requests w w' \<longleftrightarrow> (\<exists>rs. w' = w\<lparr>w_trace := w_trace w @ map Ev_Request rs\<rparr>)"

interpretation net: frame_relation only_requests
proof
  show "only_requests w w" for w
    unfolding only_requests_def by (rule exI[of _ "[]"]) simp
  show "only_requests w u" if "only_requests w v" "only_requests v u" for w v u
    using that unfolding only_requests_def by (auto simp flip: map_append)
qed

lemma only_requests_emit: "only_requests w (emit (Ev_Request r) w)"
  unfolding only_requests_def emit_def by (rule exI[of _ "[r]"]) simp

text \<open>A stretch of the run that only adds events of one kind, and one that adds none.\<close>

definition appends :: "(event \<Rightarrow> bool) \<Rightarrow> world \<Rightarrow> world \<Rightarrow> bool" where
  "appends P w w' \<longleftrightarrow> (\<exists>es. w_trace w' = w_trace w @ es \<and> list_all P es)"

definition same_trace :: "world \<Rightarrow> world \<Rightarrow> bool" where
  "same_trace w w' \<longleftrightarrow> w_trace w' = w_trace w"

interpretation ev: frame_relation "appends P" for P
proof
  show "appends P w w" for w unfolding appends_def by (rule exI[of _ "[]"]) simp
  show "appends P w u" if "appends P w v" "appends P v u" for w v u
    using that by (fastforce simp: appends_def)
qed

interpretation st: frame_relation same_trace
  by unfold_locales (simp_all add: same_trace_def)

lemma appends_emit: "P e \<Longrightarrow> appends P w (emit e w)"
  unfolding appends_def by (rule exI[of _ "[e]"]) simp

lemma same_trace_appends: "same_trace w w' \<Longrightarrow> appends P w w'"
  by (auto simp: same_trace_def appends_def)

lemma only_requests_appends: "only_requests w w' \<Longrightarrow> (\<And>r. P (Ev_Request r)) \<Longrightarrow> appends P w w'"
  by (auto simp: only_requests_def appends_def list_all_iff)

lemma only_requests_trace:
  "only_requests w w' \<Longrightarrow> \<exists>rs. w_trace w' = w_trace w @ map Ev_Request rs"
  by (auto simp: only_requests_def)

end
