(* ===== verification/Stage1_Fetch.thy ===== *)
theory Stage1_Fetch
  imports Stage1_World
begin

section \<open>stage1: downloads and admission\<close>

text \<open>
  \<open>crates/stage1/src/main.rs\<close>: \<open>download_binary\<close>, the mirror loops, \<open>verify_checksum\<close>,
  \<open>admit_from\<close>, \<open>admit_payload\<close>, \<open>fetch_signed_args\<close> and \<open>fetch_manifest\<close>.
\<close>

definition http_client :: "env \<Rightarrow> unit stage1" where
  "http_client E w = (if client_builds E (w_trace w) then Inr () else Inl Http_Client_Failed, w)"

definition send :: "env \<Rightarrow> request \<Rightarrow> http_response stage1" where
  "send E r w = (ok_or Http_Send_Failed (respond E (w_trace w) r), emit (Ev_Request r) w)"

definition read_body :: "http_response \<Rightarrow> stage1_error + bytes" where
  "read_body r = ok_or Http_Body_Failed (resp_body r)"

text \<open>\<open>error_for_status\<close>: the client and server error codes are errors.\<close>

definition error_for_status :: "http_response \<Rightarrow> stage1_error + http_response" where
  "error_for_status r =
     (if 400 \<le> resp_status r \<and> resp_status r < 600 then Inl (Http_Status (resp_status r)) else Inr r)"

definition download_binary :: "env \<Rightarrow> string \<Rightarrow> bytes stage1" where
  "download_binary E url =
     then_do (http_client E) (\<lambda>_.
     then_do (send E \<lparr>req_method = Http_Get, req_url = url, req_headers = []\<rparr>) (\<lambda>r.
     then_do (lift (error_for_status r)) (\<lambda>r.
     lift (read_body r))))"

text \<open>\<open>hex::encode(sha256!(data))\<close>.\<close>

definition hex_sha256 :: "env \<Rightarrow> bytes \<Rightarrow> string" where
  "hex_sha256 E data = hex_encode (env_deps E) (sha256_digest (env_deps E) data)"

text \<open>
  The comparison lowercases both sides. \<open>to_lowercase\<close> maps no character outside ASCII to a
  hexadecimal digit, so comparing the ASCII lowercase forms decides the same.
\<close>

definition verify_checksum :: "env \<Rightarrow> bytes \<Rightarrow> string \<Rightarrow> stage1_error + unit" where
  "verify_checksum E data expected_hex =
     (let actual_hex = hex_sha256 E data in
      if str_lower actual_hex \<noteq> str_lower expected_hex
      then Inl (Checksum_Mismatch expected_hex actual_hex) else Inr ())"

definition substitute :: "string list \<Rightarrow> string \<Rightarrow> string list" where
  "substitute us hash = map (\<lambda>u. str_replace ''{sha256}'' hash u) us"

subsection \<open>Mirror loops\<close>

fun download_first_from :: "env \<Rightarrow> stage1_error option \<Rightarrow> string list \<Rightarrow> bytes stage1" where
  "download_first_from E prev [] w = (Inl (case prev of None \<Rightarrow> No_Url | Some e \<Rightarrow> e), w)"
| "download_first_from E prev (url # rest) w =
     (case download_binary E url w of
        (Inr b, w') \<Rightarrow> (Inr b, w')
      | (Inl e, w') \<Rightarrow> download_first_from E (Some e) rest w')"

definition download_first :: "env \<Rightarrow> string list \<Rightarrow> bytes stage1" where
  "download_first E us = download_first_from E None us"

definition fetch_signed_args ::
    "env \<Rightarrow> url_list \<Rightarrow> url_list option \<Rightarrow> string \<Rightarrow> string \<Rightarrow> string list stage1" where
  "fetch_signed_args E args_url args_sig_url pubkey payload_hash =
     (let args_urls = substitute (urls args_url) payload_hash;
          args_sig_urls = (case args_sig_url of
              Some u \<Rightarrow> substitute (urls u) payload_hash
            | None \<Rightarrow> map (\<lambda>u. u @ ''.sig'') args_urls)
      in then_do (download_first E args_urls) (\<lambda>args_bytes.
         then_do (download_first E args_sig_urls) (\<lambda>sig.
         then_do (lift (map_err Args_Signature (verify (env_deps E) pubkey Stage2Args args_bytes sig))) (\<lambda>_.
         lift (ok_or Args_Not_Strings (strings_from_slice (env_deps E) args_bytes))))))"

definition admit_from :: "env \<Rightarrow> string \<Rightarrow> admit \<Rightarrow> (bytes \<times> string list option) stage1" where
  "admit_from E url mode =
     then_do (download_binary E url) (\<lambda>binary.
       let hash = hex_sha256 E binary in
       case mode of
         Admit_Sha256 expected \<Rightarrow>
           then_do (lift (verify_checksum E binary expected)) (\<lambda>_. ret (binary, None))
       | Admit_Ed25519 pubkey sig_url args_url args_sig_url \<Rightarrow>
           (let sig_urls = (case sig_url of
                Some u \<Rightarrow> substitute (urls u) hash
              | None \<Rightarrow> [url @ ''.sig''])
            in then_do (download_first E sig_urls) (\<lambda>sig.
               then_do (lift (map_err Payload_Signature
                             (verify (env_deps E) pubkey Stage2Payload binary sig))) (\<lambda>_.
               case args_url of
                 None \<Rightarrow> ret (binary, None)
               | Some au \<Rightarrow>
                   then_do (fetch_signed_args E au args_sig_url pubkey hash) (\<lambda>args.
                   ret (binary, Some args))))))"

fun admit_payload_from ::
    "env \<Rightarrow> admit \<Rightarrow> stage1_error option \<Rightarrow> string list \<Rightarrow> (bytes \<times> string list option) stage1" where
  "admit_payload_from E mode prev [] w = (Inl (case prev of None \<Rightarrow> No_Payload_Url | Some e \<Rightarrow> e), w)"
| "admit_payload_from E mode prev (url # rest) w =
     (case admit_from E url mode w of
        (Inr a, w') \<Rightarrow> (Inr a, w')
      | (Inl e, w') \<Rightarrow> admit_payload_from E mode (Some e) rest w')"

definition admit_payload :: "env \<Rightarrow> string list \<Rightarrow> admit \<Rightarrow> (bytes \<times> string list option) stage1" where
  "admit_payload E us mode = admit_payload_from E mode None us"

definition try_fetch_manifest :: "env \<Rightarrow> manifest_ref \<Rightarrow> string \<Rightarrow> (bytes \<times> string) stage1" where
  "try_fetch_manifest E m url =
     then_do (download_binary E url) (\<lambda>b.
       let hash = hex_sha256 E b in
       then_do (lift (case m_sha256 m of
                     Some pin \<Rightarrow> if \<not> eq_ignore_ascii_case pin hash
                                 then Inl (Manifest_Pin_Mismatch pin hash) else Inr ()
                   | None \<Rightarrow> Inr ())) (\<lambda>_.
       let sig_urls = (case m_sig_url m of
              Some u \<Rightarrow> substitute (urls u) hash
            | None \<Rightarrow> [url @ ''.sig''])
       in then_do (download_first E sig_urls) (\<lambda>sig.
          then_do (lift (map_err Manifest_Signature
                        (verify (env_deps E) (m_ed25519 m) Stage2Manifest b sig))) (\<lambda>_.
          ret (b, hash)))))"

fun fetch_manifest_from ::
    "env \<Rightarrow> manifest_ref \<Rightarrow> stage1_error option \<Rightarrow> string list \<Rightarrow> (string \<times> bytes \<times> string) stage1" where
  "fetch_manifest_from E m prev [] w = (Inl (case prev of None \<Rightarrow> No_Manifest_Url | Some e \<Rightarrow> e), w)"
| "fetch_manifest_from E m prev (url # rest) w =
     (case try_fetch_manifest E m url w of
        (Inr (b, hash), w') \<Rightarrow> (Inr (url, b, hash), w')
      | (Inl e, w') \<Rightarrow> fetch_manifest_from E m (Some e) rest w')"

definition fetch_manifest :: "env \<Rightarrow> manifest_ref \<Rightarrow> (string \<times> bytes \<times> string) stage1" where
  "fetch_manifest E m = fetch_manifest_from E m None (urls (m_url m))"

subsection \<open>Only requests are made\<close>

lemma keeps_http_client: "keeps only_requests (http_client E)"
  by (rule keepsI) (auto simp: http_client_def net.refl)

lemma keeps_send: "keeps only_requests (send E r)"
  by (rule keepsI) (auto simp: send_def only_requests_emit)

lemma keeps_download_binary: "keeps only_requests (download_binary E url)"
  unfolding download_binary_def by (intro net.keeps_intros keeps_http_client keeps_send)

interpretation dl: framed_search "download_binary E" "download_first_from E" No_Url only_requests for E
  by unfold_locales (auto simp: keeps_download_binary split: prod.split sum.split)

lemma keeps_download_first: "keeps only_requests (download_first E us)"
  unfolding download_first_def by (rule dl.search_keeps)

lemma keeps_fetch_signed_args: "keeps only_requests (fetch_signed_args E au asu pk h)"
  unfolding fetch_signed_args_def Let_def by (intro net.keeps_intros keeps_download_first)

lemma keeps_admit_from: "keeps only_requests (admit_from E url mode)"
proof (cases mode)
  case (Admit_Sha256 h)
  then show ?thesis
    unfolding admit_from_def Let_def
    by (auto intro!: net.keeps_intros keeps_download_binary)
next
  case (Admit_Ed25519 pk su au asu)
  show ?thesis
    unfolding admit_from_def Let_def Admit_Ed25519 admit.case
    by (intro net.keeps_then_do keeps_download_binary keeps_download_first net.keeps_lift)
       (auto split: option.split intro!: net.keeps_intros keeps_fetch_signed_args)
qed

interpretation adm: framed_search "\<lambda>u. admit_from E u mode" "admit_payload_from E mode" No_Payload_Url
  only_requests for E mode
  by unfold_locales (auto simp: keeps_admit_from split: prod.split sum.split)

lemma keeps_admit_payload: "keeps only_requests (admit_payload E us mode)"
  unfolding admit_payload_def by (rule adm.search_keeps)

lemma keeps_try_fetch_manifest: "keeps only_requests (try_fetch_manifest E m url)"
  unfolding try_fetch_manifest_def Let_def
  by (intro net.keeps_intros keeps_download_binary keeps_download_first)

text \<open>The manifest loop tries each URL and remembers which one served.\<close>

definition fetch_manifest_at :: "env \<Rightarrow> manifest_ref \<Rightarrow> string \<Rightarrow> (string \<times> bytes \<times> string) stage1" where
  "fetch_manifest_at E m url = then_do (try_fetch_manifest E m url) (\<lambda>r. ret (url, r))"

interpretation mf: framed_search "fetch_manifest_at E m" "fetch_manifest_from E m" No_Manifest_Url
  only_requests for E m
proof
  show "fetch_manifest_from E m prev (u # us) s =
      (case fetch_manifest_at E m u s of (Inr a, s') \<Rightarrow> (Inr a, s')
       | (Inl e, s') \<Rightarrow> fetch_manifest_from E m (Some e) us s')" for prev u us s
    by (auto simp: fetch_manifest_at_def then_do_def split: prod.splits sum.splits)
  show "keeps only_requests (fetch_manifest_at E m u)" for u
    unfolding fetch_manifest_at_def by (intro net.keeps_intros keeps_try_fetch_manifest)
qed (auto split: option.splits)

lemma keeps_fetch_manifest: "keeps only_requests (fetch_manifest E m)"
  unfolding fetch_manifest_def by (rule mf.search_keeps)

subsection \<open>What a success means\<close>

text \<open>
  The contract of admission, whatever the servers did: the bytes match the pinned digest, or some
  signature over them verifies under the pinned key in the payload domain; arguments that replace
  the inline ones were verified under the same key in the args domain.
\<close>

definition matches_pin :: "env \<Rightarrow> string \<Rightarrow> bytes \<Rightarrow> bool" where
  "matches_pin E pin b \<longleftrightarrow> str_lower (hex_sha256 E b) = str_lower pin"

definition signed_by :: "env \<Rightarrow> string \<Rightarrow> domain \<Rightarrow> bytes \<Rightarrow> bool" where
  "signed_by E pk d b \<longleftrightarrow> (\<exists>sig. verify (env_deps E) pk d b sig = Inr ())"

definition args_admitted :: "env \<Rightarrow> string \<Rightarrow> string list \<Rightarrow> bool" where
  "args_admitted E pk args \<longleftrightarrow>
     (\<exists>b. signed_by E pk Stage2Args b \<and> strings_from_slice (env_deps E) b = Some args)"

definition payload_admitted :: "env \<Rightarrow> admit \<Rightarrow> bytes \<Rightarrow> string list option \<Rightarrow> bool" where
  "payload_admitted E mode binary sargs =
     (case mode of
        Admit_Sha256 pin \<Rightarrow> matches_pin E pin binary \<and> sargs = None
      | Admit_Ed25519 pk sig_url args_url args_sig_url \<Rightarrow>
          signed_by E pk Stage2Payload binary
          \<and> (case sargs of None \<Rightarrow> args_url = None
                         | Some args \<Rightarrow> args_url \<noteq> None \<and> args_admitted E pk args))"

definition manifest_verified :: "env \<Rightarrow> manifest_ref \<Rightarrow> bytes \<Rightarrow> bool" where
  "manifest_verified E m b \<longleftrightarrow>
     signed_by E (m_ed25519 m) Stage2Manifest b
     \<and> (case m_sha256 m of None \<Rightarrow> True | Some pin \<Rightarrow> matches_pin E pin b)"

lemma download_binary_Inr:
  assumes "download_binary E url w = (Inr b, w')"
  shows "\<exists>r. respond E (w_trace w) \<lparr>req_method = Http_Get, req_url = url, req_headers = []\<rparr> = Some r
           \<and> resp_body r = Some b \<and> \<not> (400 \<le> resp_status r \<and> resp_status r < 600)"
  using assms
  by (auto simp: download_binary_def http_client_def send_def error_for_status_def read_body_def
      res_simps split: if_splits)

lemma verify_checksum_Inr_iff: "verify_checksum E b pin = Inr u \<longleftrightarrow> matches_pin E pin b"
  by (simp add: verify_checksum_def matches_pin_def Let_def)

lemma signed_byI: "verify (env_deps E) pk d b sig = Inr u \<Longrightarrow> signed_by E pk d b"
  by (auto simp: signed_by_def)

lemma fetch_signed_args_sound:
  "fetch_signed_args E au asu pk h w = (Inr args, w') \<Longrightarrow> args_admitted E pk args"
  unfolding fetch_signed_args_def Let_def
  by (auto simp: res_simps args_admitted_def intro: signed_byI)

lemma admit_from_sound:
  assumes "admit_from E url mode w = (Inr (binary, sargs), w')"
  shows "payload_admitted E mode binary sargs"
proof (cases mode)
  case (Admit_Sha256 pin)
  with assms show ?thesis
    by (auto simp: admit_from_def Let_def res_simps payload_admitted_def verify_checksum_Inr_iff)
next
  case (Admit_Ed25519 pk su au asu)
  with assms show ?thesis
    by (auto simp: admit_from_def Let_def res_simps payload_admitted_def
        dest: fetch_signed_args_sound intro: signed_byI split: option.splits)
qed

lemma admit_payload_sound:
  "admit_payload E us mode w = (Inr (binary, sargs), w') \<Longrightarrow> payload_admitted E mode binary sargs"
  unfolding admit_payload_def by (auto dest!: adm.success_from admit_from_sound)

lemma try_fetch_manifest_sound:
  assumes "try_fetch_manifest E m url w = (Inr (b, hash), w')"
  shows "manifest_verified E m b" and "hash = hex_sha256 E b"
  using assms
  by (auto simp: try_fetch_manifest_def Let_def res_simps manifest_verified_def matches_pin_def
      eq_ignore_ascii_case_def intro: signed_byI split: option.splits if_splits)

lemma fetch_manifest_sound:
  assumes "fetch_manifest E m w = (Inr (url, b, hash), w')"
  shows "url \<in> set (urls (m_url m))" and "manifest_verified E m b" and "hash = hex_sha256 E b"
  using mf.success_from[OF assms[unfolded fetch_manifest_def]] try_fetch_manifest_sound
  by (fastforce simp: fetch_manifest_at_def res_simps)+

subsection \<open>Against a forger\<close>

text \<open>
  \<open>only_signs D pk S\<close>: whatever verifies under the key is the preimage of a (domain, message) in
  \<open>S\<close>, the messages its holder signed. This is unforgeability of the signature scheme, for one key.
\<close>

definition only_signs :: "deps \<Rightarrow> string \<Rightarrow> (domain \<times> bytes) set \<Rightarrow> bool" where
  "only_signs D pk S \<longleftrightarrow>
     (\<forall>kb key m sig. b64_decode D (str_trim pk) = Some kb \<longrightarrow> ed_pk_from_slice D kb = Some key \<longrightarrow>
        ed_verify D key m sig \<longrightarrow> (\<exists>(d, msg) \<in> S. m = preimage D d msg))"

definition signed_in :: "env \<Rightarrow> (domain \<times> bytes) set \<Rightarrow> domain \<Rightarrow> bytes \<Rightarrow> bool" where
  "signed_in E S d b \<longleftrightarrow>
     (\<exists>msg. (d, msg) \<in> S \<and> sha256_digest (env_deps E) msg = sha256_digest (env_deps E) b)"

lemma signed_by_signed_in:
  assumes "signed_by E pk d b" and "only_signs (env_deps E) pk S"
    and "sha256_law (env_deps E)" and "tags_separate (env_deps E)"
  shows "signed_in E S d b"
proof -
  from assms(1) obtain sig kb key s where
    "b64_decode (env_deps E) (str_trim pk) = Some kb" "ed_pk_from_slice (env_deps E) kb = Some key"
    "ed_verify (env_deps E) key (preimage (env_deps E) d b) s"
    by (auto simp: signed_by_def verify_Inr_iff)
  with assms(2) obtain e msg where "(e, msg) \<in> S" "preimage (env_deps E) d b = preimage (env_deps E) e msg"
    unfolding only_signs_def by blast
  with preimage_eq_iff[OF assms(3,4)] show ?thesis by (auto simp: signed_in_def)
qed

end
