(* ===== verification/Stage1_Merge.thy ===== *)
theory Stage1_Merge
  imports Metadata_Wire
begin

section \<open>stage1: merging a manifest into the document\<close>

text \<open>
  \<open>deep_merge\<close>, \<open>set_resolved_manifests\<close> and the removal of a consumed \<open>manifest\<close> pointer, from
  \<open>crates/stage1/src/main.rs\<close>. The mutable references of the code become functions from the old
  document to the new one.
\<close>

fun deep_merge :: "json \<Rightarrow> json \<Rightarrow> json" and merge_members :: "fields \<Rightarrow> fields \<Rightarrow> fields" where
  "deep_merge (JObj b) (JObj ov) = JObj (merge_members b ov)"
| "deep_merge b ov = ov"
| "merge_members b [] = b"
| "merge_members b ((k, v) # ov) =
     merge_members
       (case bt_get b k of
          Some existing \<Rightarrow> bt_insert k (deep_merge existing v) b
        | None \<Rightarrow> bt_insert k v b) ov"

text \<open>
  \<open>doc.get_mut("_stage2").and_then(|s| s.get_mut(arch)).and_then(Value::as_object_mut)\<close>, and what
  the caller writes through it; \<open>None\<close> when there is no such object.
\<close>

definition update_arch_entry :: "string \<Rightarrow> (fields \<Rightarrow> fields) \<Rightarrow> json \<Rightarrow> json option" where
  "update_arch_entry arch f doc =
     (case get doc ''_stage2'' of
        None \<Rightarrow> None
      | Some s \<Rightarrow>
        (case get s arch of
           Some (JObj e) \<Rightarrow> Some (set_member ''_stage2'' (set_member arch (JObj (f e)) s) doc)
         | _ \<Rightarrow> None))"

definition consume_pointer :: "string \<Rightarrow> json \<Rightarrow> json" where
  "consume_pointer arch doc =
     (case update_arch_entry arch (bt_remove ''manifest'') doc of
        Some doc' \<Rightarrow> doc'
      | None \<Rightarrow> doc)"

definition set_resolved_manifests :: "json \<Rightarrow> string \<Rightarrow> manifest_ref list \<Rightarrow> json option" where
  "set_resolved_manifests doc arch history =
     update_arch_entry arch (bt_insert ''resolved_manifests'' (ser_manifest_refs history)) doc"

text \<open>The entry the loop looks at: \<open>doc.get("_stage2").and_then(|s| s.get(arch))\<close>.\<close>

definition arch_value :: "string \<Rightarrow> json \<Rightarrow> json option" where
  "arch_value arch doc = (case get doc ''_stage2'' of None \<Rightarrow> None | Some s \<Rightarrow> get s arch)"

subsection \<open>What a merge does, member by member\<close>

lemma bt_get_merge_members:
  "bt_ok ov \<Longrightarrow> bt_get (merge_members b ov) k =
     (case bt_get ov k of
        None \<Rightarrow> bt_get b k
      | Some v \<Rightarrow> (case bt_get b k of None \<Rightarrow> Some v | Some x \<Rightarrow> Some (deep_merge x v)))"
proof (induction ov arbitrary: b k)
  case Nil
  then show ?case by simp
next
  case (Cons p ov)
  obtain j v where p: "p = (j, v)" by fastforce
  with Cons.prems have ok: "bt_ok ov" and fresh: "bt_get ov j = None"
    by (auto simp: bt_get_None_iff)
  show ?case
    by (cases "bt_get b j") (auto simp: p Cons.IH[OF ok] fresh split: option.split)
qed

lemma get_deep_merge:
  assumes "wf_json (JObj ov)"
  shows "get (deep_merge (JObj b) (JObj ov)) k =
     (case get (JObj ov) k of
        None \<Rightarrow> get (JObj b) k
      | Some v \<Rightarrow> (case get (JObj b) k of None \<Rightarrow> Some v | Some x \<Rightarrow> Some (deep_merge x v)))"
  using assms by (simp add: bt_get_merge_members split: option.split)

lemma deep_merge_leaf: "\<not> (is_object b \<and> is_object ov) \<Longrightarrow> deep_merge b ov = ov"
  by (cases b; cases ov) simp_all

lemma bt_ok_merge_members: "bt_ok b \<Longrightarrow> bt_ok (merge_members b ov)"
  by (induction ov arbitrary: b) (auto split: option.split)

lemma wf_deep_merge:
  "wf_json b \<Longrightarrow> wf_json ov \<Longrightarrow> wf_json (deep_merge b ov)"
  "bt_ok m \<Longrightarrow> wf_fields m \<Longrightarrow> wf_fields om \<Longrightarrow> wf_fields (merge_members m om)"
proof (induction b ov and m om rule: deep_merge_merge_members.induct)
  case (1 b ov)
  then show ?case by (simp add: bt_ok_merge_members)
next
  case (4 b k v ov)
  show ?case
  proof (cases "bt_get b k")
    case None
    with 4 show ?thesis by simp
  next
    case (Some x)
    moreover from "4.prems" Some have "wf_json x" by (blast intro: wf_fields_get)
    ultimately show ?thesis using 4 by simp
  qed
qed simp_all

text \<open>A path that the overlay leaves at an absent key.\<close>

fun untouched :: "json \<Rightarrow> string list \<Rightarrow> bool" where
  "untouched ov [] = False"
| "untouched ov (k # ks) =
     (is_object ov \<and> (case get ov k of None \<Rightarrow> True | Some v \<Rightarrow> untouched v ks))"

lemma untouched_absent: "untouched ov ks \<Longrightarrow> get_path ov ks = None"
  by (induction ov ks rule: untouched.induct) (auto split: option.splits)

text \<open>Every path of the merge at once: what the overlay leaves alone, what it cuts off, and what it merges.\<close>

lemma get_path_deep_merge:
  assumes "wf_json ov"
  shows "get_path (deep_merge b ov) ks =
    (if untouched ov ks then get_path b ks
     else map_option (\<lambda>v. case get_path b ks of None \<Rightarrow> v | Some x \<Rightarrow> deep_merge x v) (get_path ov ks))"
  using assms
proof (induction ks arbitrary: b ov)
  case Nil
  then show ?case by simp
next
  case (Cons k ks)
  show ?case
  proof (cases "is_object b \<and> is_object ov")
    case True
    then obtain bm om where "b = JObj bm" "ov = JObj om" by (auto simp: is_object_iff)
    then show ?thesis
      using get_deep_merge[of om bm k] Cons.prems Cons.IH[OF wf_get[OF Cons.prems]]
      by (auto simp: option.map_ident dest: untouched_absent split: option.splits)
  next
    case False
    then have merged: "deep_merge b ov = ov" by (rule deep_merge_leaf)
    have absent: "get v k = None" if "\<not> is_object v" for v using that get_Some_object by fastforce
    show ?thesis
    proof (cases "is_object ov")
      case True
      with False have "get b k = None" by (simp add: absent)
      then show ?thesis by (auto simp: merged option.map_ident dest: untouched_absent split: option.splits)
    qed (simp add: merged absent)
  qed
qed

text \<open>Where the overlay's path ends in a leaf, the merge has that leaf; what it leaves alone survives.\<close>

lemma overlay_leaf_wins:
  assumes "wf_json ov" and "get_path ov ks = Some leaf" and "\<not> is_object leaf"
  shows "get_path (deep_merge b ov) ks = Some leaf"
proof -
  have "\<not> untouched ov ks" using assms(2) untouched_absent by fastforce
  then show ?thesis
    using get_path_deep_merge[OF assms(1), of b ks] assms(2,3) by (auto simp: deep_merge_leaf split: option.splits)
qed

lemma base_survives: "wf_json ov \<Longrightarrow> untouched ov ks \<Longrightarrow> get_path (deep_merge b ov) ks = get_path b ks"
  by (simp add: get_path_deep_merge)

subsection \<open>Writing through the arch entry\<close>

lemma update_arch_entry_Some_iff:
  "update_arch_entry arch f doc = Some doc' \<longleftrightarrow>
     (\<exists>s e. get doc ''_stage2'' = Some s \<and> get s arch = Some (JObj e)
        \<and> doc' = set_member ''_stage2'' (set_member arch (JObj (f e)) s) doc)"
  by (auto simp: update_arch_entry_def split: option.splits json.splits)

lemma update_arch_entry_value:
  assumes "update_arch_entry arch f doc = Some doc'"
  obtains e where "arch_value arch doc = Some (JObj e)" and "arch_value arch doc' = Some (JObj (f e))"
proof -
  from assms obtain s e where s: "get doc ''_stage2'' = Some s" "get s arch = Some (JObj e)"
    and doc': "doc' = set_member ''_stage2'' (set_member arch (JObj (f e)) s) doc"
    by (auto simp: update_arch_entry_Some_iff)
  have "is_object doc" "is_object s" using s get_Some_object by (auto simp: is_object_iff)
  with s doc' show ?thesis by (intro that[of e]) (simp_all add: arch_value_def)
qed

lemma update_arch_entry_frame:
  assumes "update_arch_entry arch f doc = Some doc'" and "k \<noteq> ''_stage2''"
  shows "get doc' k = get doc k"
  using assms get_Some_object by (fastforce simp: update_arch_entry_Some_iff is_object_iff)

lemma wf_update_arch_entry:
  assumes "update_arch_entry arch f doc = Some doc'" and "wf_json doc"
    and "\<And>e. wf_json (JObj e) \<Longrightarrow> wf_json (JObj (f e))"
  shows "wf_json doc'"
proof -
  from assms(1) obtain s e where s: "get doc ''_stage2'' = Some s" "get s arch = Some (JObj e)"
    and doc': "doc' = set_member ''_stage2'' (set_member arch (JObj (f e)) s) doc"
    by (auto simp: update_arch_entry_Some_iff)
  have "wf_json s" using assms(2) s(1) by (rule wf_get)
  moreover from this have "wf_json (JObj e)" using s(2) by (rule wf_get)
  ultimately show ?thesis using assms(2,3) by (simp add: doc' del: wf_json.simps)
qed

lemma update_arch_entry_defined:
  "arch_value arch doc = Some (JObj e) \<Longrightarrow> \<exists>doc'. update_arch_entry arch f doc = Some doc'"
  by (auto simp: arch_value_def update_arch_entry_def split: option.splits)

lemma wf_arch_value: "wf_json doc \<Longrightarrow> arch_value arch doc = Some v \<Longrightarrow> wf_json v"
  by (auto simp: arch_value_def intro: wf_get split: option.splits)

lemma wf_consume_pointer: "wf_json doc \<Longrightarrow> wf_json (consume_pointer arch doc)"
  unfolding consume_pointer_def
  by (auto split: option.split elim!: wf_update_arch_entry)

lemma wf_ser_manifest_refs: "wf_json (ser_manifest_refs ms)"
  unfolding ser_manifest_refs_def by (rule manifest_ref_wire.wf_array)

lemma wf_set_resolved_manifests:
  "set_resolved_manifests doc arch h = Some doc' \<Longrightarrow> wf_json doc \<Longrightarrow> wf_json doc'"
  unfolding set_resolved_manifests_def
  by (erule wf_update_arch_entry) (simp_all add: wf_ser_manifest_refs)

text \<open>A member read as an entry is an object, so stamping the history cannot fail afterwards.\<close>

lemma de_arch_config_object: "de_arch_config v = Some ac \<Longrightarrow> \<exists>e. v = JObj e"
  by (cases v) (simp_all add: de_arch_config_def)

end
