(* ===== verification/Stage1_Resolve.thy ===== *)
theory Stage1_Resolve
  imports Stage1_Fetch Stage1_Merge
begin

section \<open>stage1: resolving \<open>_stage2\<close> to an admitted payload\<close>

text \<open>
  \<open>resolve_payload\<close> of \<open>crates/stage1/src/main.rs\<close>. One pass through its loop is \<open>resolve_step\<close>;
  the loop itself may not end (each hop is chosen by whoever signs the manifests), so it is a
  partial function into \<open>option\<close>, \<open>None\<close> meaning that it never returns.
\<close>

type_synonym resolved = "bytes \<times> string list \<times> bytes"  \<comment> \<open>binary, argv tail, standard input\<close>

datatype progress = Return resolved | Again json "manifest_ref list"

text \<open>\<open>cfg!(target_arch = "aarch64")\<close>: every other target reads the \<open>x86_64\<close> entry.\<close>

definition arch_key :: "env \<Rightarrow> string" where
  "arch_key E = (if env_arch E = Aarch64 then ''aarch64'' else ''x86_64'')"

definition seen_before :: "manifest_ref list \<Rightarrow> string \<Rightarrow> string \<Rightarrow> bool" where
  "seen_before history murl hash =
     list_ex (\<lambda>r. m_sha256 r = Some hash \<and> urls (m_url r) = [murl]) history"

definition hop_record :: "manifest_ref \<Rightarrow> string \<Rightarrow> string \<Rightarrow> manifest_ref" where
  "hop_record m murl hash =
     \<lparr>m_url = UrlList [murl], m_ed25519 = m_ed25519 m, m_sig_url = m_sig_url m, m_sha256 = Some hash\<rparr>"

definition payload_step ::
    "env \<Rightarrow> bytes \<Rightarrow> json \<Rightarrow> manifest_ref list \<Rightarrow> payload \<Rightarrow> progress stage1" where
  "payload_step E raw_json doc history p =
     then_do (lift (map_err Invalid_Payload (admission (env_deps E) p Stage1))) (\<lambda>mode.
     then_do (admit_payload E (urls (p_url p)) mode) (\<lambda>(binary, signed_args).
       let args = (case signed_args of Some a \<Rightarrow> a
                   | None \<Rightarrow> (case p_args p of Some a \<Rightarrow> a | None \<Rightarrow> []))
       in if history = [] then ret (Return (binary, args, raw_json))
          else then_do (lift (ok_or Entry_Vanished (set_resolved_manifests doc (arch_key E) history))) (\<lambda>doc'.
               ret (Return (binary, args, json_compact (env_deps E) doc')))))"

definition manifest_step ::
    "env \<Rightarrow> json \<Rightarrow> manifest_ref list \<Rightarrow> manifest_ref \<Rightarrow> progress stage1" where
  "manifest_step E doc history m =
     then_do (lift (map_err Invalid_Manifest (manifest_validate (env_deps E) m Stage1))) (\<lambda>_.
     then_do (fetch_manifest E m) (\<lambda>(murl, b, hash).
       if seen_before history murl hash then throw (Manifest_Cycle murl hash)
       else then_do (lift (ok_or Manifest_Not_Json (value_from_slice (env_deps E) b))) (\<lambda>manifest_doc.
            ret (Again (deep_merge (consume_pointer (arch_key E) doc) manifest_doc)
                       (history @ [hop_record m murl hash])))))"

definition resolve_step ::
    "env \<Rightarrow> bytes \<Rightarrow> json \<Rightarrow> manifest_ref list \<Rightarrow> progress stage1" where
  "resolve_step E raw_json doc history =
     then_do (lift (ok_or No_Stage2_Config (arch_value (arch_key E) doc))) (\<lambda>entry_val.
     then_do (lift (ok_or Invalid_Entry (de_arch_config entry_val))) (\<lambda>ac.
       case ac_entry ac of
         Payload_Entry p \<Rightarrow> payload_step E raw_json doc history p
       | Manifest_Entry m \<Rightarrow> manifest_step E doc history m))"

partial_function (option) resolve_loop ::
    "env \<Rightarrow> bytes \<Rightarrow> json \<Rightarrow> manifest_ref list \<Rightarrow> world \<Rightarrow> ((stage1_error + resolved) \<times> world) option" where
  "resolve_loop E raw_json doc history w =
     (case resolve_step E raw_json doc history w of
        (Inl e, w') \<Rightarrow> Some (Inl e, w')
      | (Inr p, w') \<Rightarrow>
          (case p of
             Return r \<Rightarrow> Some (Inr r, w')
           | Again doc' history' \<Rightarrow> resolve_loop E raw_json doc' history' w'))"

declare resolve_loop.simps [code]

definition resolve_payload ::
    "env \<Rightarrow> bytes \<Rightarrow> world \<Rightarrow> ((stage1_error + resolved) \<times> world) option" where
  "resolve_payload E raw_json w =
     (case value_from_slice (env_deps E) raw_json of
        None \<Rightarrow> Some (Inl Reparse_Failed, w)
      | Some doc \<Rightarrow> resolve_loop E raw_json doc [] w)"

subsection \<open>The states the loop passes through\<close>

inductive resolving :: "env \<Rightarrow> bytes \<Rightarrow> world \<Rightarrow> json \<Rightarrow> manifest_ref list \<Rightarrow> world \<Rightarrow> bool"
  for E raw_json w0 where
  resolving_start: "value_from_slice (env_deps E) raw_json = Some doc \<Longrightarrow>
     resolving E raw_json w0 doc [] w0"
| resolving_hop: "resolving E raw_json w0 doc history w \<Longrightarrow>
     resolve_step E raw_json doc history w = (Inr (Again doc' history'), w') \<Longrightarrow>
     resolving E raw_json w0 doc' history' w'"

text \<open>
  The rule of the loop: an invariant of its states, kept by every hop, with what it gives where the
  loop ends.
\<close>

lemma resolve_loop_rule:
  assumes run: "resolve_loop E raw_json doc history w = Some (r, w')"
    and start: "I doc history w"
    and hop: "\<And>doc h w doc' h' w'. I doc h w \<Longrightarrow>
       resolve_step E raw_json doc h w = (Inr (Again doc' h'), w') \<Longrightarrow> I doc' h' w'"
    and fail: "\<And>doc h w e w'. I doc h w \<Longrightarrow>
       resolve_step E raw_json doc h w = (Inl e, w') \<Longrightarrow> Q (Inl e) w'"
    and finish: "\<And>doc h w x w'. I doc h w \<Longrightarrow>
       resolve_step E raw_json doc h w = (Inr (Return x), w') \<Longrightarrow> Q (Inr x) w'"
  shows "Q r w'"
proof -
  have "E = E \<longrightarrow> raw_json = raw_json \<longrightarrow> I doc history w \<longrightarrow> Q (fst (r, w')) (snd (r, w'))"
  proof (rule resolve_loop.raw_induct
      [where P = "\<lambda>E' raw' doc h w rw. E' = E \<longrightarrow> raw' = raw_json \<longrightarrow> I doc h w \<longrightarrow> Q (fst rw) (snd rw)",
       OF _ run])
    fix f E' raw' doc h w rw
    assume IH: "\<And>E' raw' doc h w rw. f E' raw' doc h w = Some rw \<Longrightarrow>
        E' = E \<longrightarrow> raw' = raw_json \<longrightarrow> I doc h w \<longrightarrow> Q (fst rw) (snd rw)"
      and eq: "(case resolve_step E' raw' doc h w of
          (Inl e, w') \<Rightarrow> Some (Inl e, w')
        | (Inr (Return r), w') \<Rightarrow> Some (Inr r, w')
        | (Inr (Again doc' h'), w') \<Rightarrow> f E' raw' doc' h' w') = Some rw"
    show "E' = E \<longrightarrow> raw' = raw_json \<longrightarrow> I doc h w \<longrightarrow> Q (fst rw) (snd rw)"
    proof (intro impI)
      assume E: "E' = E" "raw' = raw_json" and inv: "I doc h w"
      obtain x w1 where step: "resolve_step E raw_json doc h w = (x, w1)" by fastforce
      show "Q (fst rw) (snd rw)"
      proof (cases x)
        case (Inl e)
        with eq E step fail[OF inv] show ?thesis by auto
      next
        case (Inr p)
        show ?thesis
        proof (cases p)
          case (Return y)
          with eq E step Inr finish[OF inv] show ?thesis by auto
        next
          case (Again doc' h')
          with eq E step Inr have "f E raw_json doc' h' w1 = Some rw" by simp
          moreover have "I doc' h' w1" using hop[OF inv] step Inr Again by simp
          ultimately show ?thesis using IH by blast
        qed
      qed
    qed
  qed
  with start show ?thesis by simp
qed

text \<open>A result of the loop is the result of its body in one of these states.\<close>

lemma resolve_payload_result:
  assumes "resolve_payload E raw_json w0 = Some (Inr x, w')"
  obtains doc history w where "resolving E raw_json w0 doc history w"
    and "resolve_step E raw_json doc history w = (Inr (Return x), w')"
proof -
  obtain doc where doc: "value_from_slice (env_deps E) raw_json = Some doc"
    and run: "resolve_loop E raw_json doc [] w0 = Some (Inr x, w')"
    using assms by (auto simp: resolve_payload_def split: option.splits)
  have "case Inr x :: stage1_error + resolved of Inl e \<Rightarrow> True | Inr y \<Rightarrow>
      (\<exists>doc h w. resolving E raw_json w0 doc h w
              \<and> resolve_step E raw_json doc h w = (Inr (Return y), w'))"
    by (rule resolve_loop_rule[OF run, where I = "resolving E raw_json w0"])
       (auto intro: resolving_start[OF doc] resolving_hop)
  then show thesis using that by auto
qed

subsection \<open>One pass through the loop\<close>

definition doc_entry :: "env \<Rightarrow> json \<Rightarrow> entry option" where
  "doc_entry E doc =
     Option.bind (arch_value (arch_key E) doc) (\<lambda>v. map_option ac_entry (de_arch_config v))"

definition final_args :: "payload \<Rightarrow> string list option \<Rightarrow> string list" where
  "final_args p sargs = (case sargs of Some a \<Rightarrow> a
                         | None \<Rightarrow> (case p_args p of Some a \<Rightarrow> a | None \<Rightarrow> []))"

text \<open>What the payload reads on standard input.\<close>

definition delivered :: "env \<Rightarrow> bytes \<Rightarrow> json \<Rightarrow> manifest_ref list \<Rightarrow> bytes \<Rightarrow> bool" where
  "delivered E raw_json doc history stdin =
     (if history = [] then stdin = raw_json
      else (\<exists>doc'. set_resolved_manifests doc (arch_key E) history = Some doc'
                 \<and> stdin = json_compact (env_deps E) doc'))"

text \<open>A pass that goes on took a manifest; a pass that returns took a payload.\<close>

lemma resolve_step_entry:
  assumes "resolve_step E raw_json doc h w = (Inr r, w')"
  obtains p where "doc_entry E doc = Some (Payload_Entry p)"
      and "payload_step E raw_json doc h p w = (Inr r, w')"
    | m where "doc_entry E doc = Some (Manifest_Entry m)"
      and "manifest_step E doc h m w = (Inr r, w')"
proof -
  from assms obtain v ac where v: "arch_value (arch_key E) doc = Some v" "de_arch_config v = Some ac"
    and run: "(case ac_entry ac of Payload_Entry p \<Rightarrow> payload_step E raw_json doc h p
       | Manifest_Entry m \<Rightarrow> manifest_step E doc h m) w = (Inr r, w')"
    by (auto simp: resolve_step_def res_simps)
  from v have "doc_entry E doc = Some (ac_entry ac)" by (simp add: doc_entry_def)
  with run that show thesis by (cases "ac_entry ac") auto
qed

lemma payload_step_not_Again: "payload_step E raw_json doc h p w \<noteq> (Inr (Again doc' h'), w')"
  by (auto simp: payload_step_def Let_def res_simps split: if_splits)

lemma manifest_step_not_Return: "manifest_step E doc h m w \<noteq> (Inr (Return x), w')"
  by (auto simp: manifest_step_def res_simps split: if_splits)

lemma resolve_step_Return:
  assumes "resolve_step E raw_json doc h w = (Inr (Return (binary, args, stdin)), w')"
  obtains p sargs where "doc_entry E doc = Some (Payload_Entry p)"
    and "payload_allowed (env_deps E) Stage1 p"
    and "payload_admitted E (mode_of p) binary sargs"
    and "args = final_args p sargs" and "delivered E raw_json doc h stdin"
  using assms
proof (cases rule: resolve_step_entry)
  case (1 p)
  from 1(2) obtain mode sargs w1 where "admission (env_deps E) p Stage1 = Inr mode"
    and adm: "admit_payload E (urls (p_url p)) mode w = (Inr (binary, sargs), w1)"
    and "args = final_args p sargs" and "delivered E raw_json doc h stdin"
    by (auto simp: payload_step_def Let_def res_simps delivered_def final_args_def split: if_splits)
  with admit_payload_sound[OF adm] 1(1) show ?thesis
    by (intro that) (auto simp: admission_Inr_iff)
qed (simp add: manifest_step_not_Return)

lemma manifest_step_Again:
  assumes "manifest_step E doc h m w = (Inr (Again doc' h'), w')"
  obtains murl b mdoc w1 where "manifest_allowed (env_deps E) Stage1 m"
    and "fetch_manifest E m w = (Inr (murl, b, hex_sha256 E b), w1)"
    and "murl \<in> set (urls (m_url m))" and "manifest_verified E m b"
    and "\<not> seen_before h murl (hex_sha256 E b)"
    and "value_from_slice (env_deps E) b = Some mdoc"
    and "doc' = deep_merge (consume_pointer (arch_key E) doc) mdoc"
    and "h' = h @ [hop_record m murl (hex_sha256 E b)]"
proof -
  from assms obtain murl b hash w1 mdoc where
    "manifest_validate (env_deps E) m Stage1 = Inr ()"
    and fetched: "fetch_manifest E m w = (Inr (murl, b, hash), w1)"
    and "\<not> seen_before h murl hash" "value_from_slice (env_deps E) b = Some mdoc"
    and "doc' = deep_merge (consume_pointer (arch_key E) doc) mdoc"
    and "h' = h @ [hop_record m murl hash]"
    by (auto simp: manifest_step_def res_simps split: if_splits)
  with fetch_manifest_sound[OF fetched] show thesis
    by (intro that[of murl b w1 mdoc]) (auto simp: manifest_validate_Inr_iff)
qed

lemma resolve_step_Again:
  assumes "resolve_step E raw_json doc h w = (Inr (Again doc' h'), w')"
  obtains m murl b mdoc w1 where "doc_entry E doc = Some (Manifest_Entry m)"
    and "manifest_allowed (env_deps E) Stage1 m"
    and "fetch_manifest E m w = (Inr (murl, b, hex_sha256 E b), w1)"
    and "murl \<in> set (urls (m_url m))" and "manifest_verified E m b"
    and "\<not> seen_before h murl (hex_sha256 E b)"
    and "value_from_slice (env_deps E) b = Some mdoc"
    and "doc' = deep_merge (consume_pointer (arch_key E) doc) mdoc"
    and "h' = h @ [hop_record m murl (hex_sha256 E b)]"
  using assms
proof (cases rule: resolve_step_entry)
  case (2 m)
  from 2(2) show ?thesis by (rule manifest_step_Again) (rule that[OF 2(1)])
qed (simp add: payload_step_not_Again)

lemma keeps_resolve_step: "keeps only_requests (resolve_step E raw_json doc h)"
  unfolding resolve_step_def payload_step_def manifest_step_def
  by (auto intro!: net.keeps_then_do net.keeps_lift net.keeps_ret net.keeps_throw
      keeps_admit_payload keeps_fetch_manifest simp: Let_def split: entry.split prod.split)

lemma resolve_payload_only_requests:
  "resolve_payload E raw_json w = Some (r, w') \<Longrightarrow> only_requests w w'"
proof -
  assume run: "resolve_payload E raw_json w = Some (r, w')"
  show "only_requests w w'"
  proof (cases "value_from_slice (env_deps E) raw_json")
    case None
    with run show ?thesis by (simp add: resolve_payload_def net.refl)
  next
    case (Some doc)
    with run have loop: "resolve_loop E raw_json doc [] w = Some (r, w')"
      by (simp add: resolve_payload_def)
    show ?thesis
      by (rule resolve_loop_rule[OF loop, where I = "\<lambda>_ _. only_requests w" and Q = "\<lambda>_. only_requests w"])
         (auto intro: net.refl net.trans keepsD[OF keeps_resolve_step])
  qed
qed

subsection \<open>The chain of trust\<close>

text \<open>
  Which documents may decide what runs, said without the network: the document received, and any
  document made from such a one by consuming its manifest pointer and merging a manifest that
  verifies under the key the pointer pins.
\<close>

inductive trusted :: "env \<Rightarrow> bytes \<Rightarrow> json \<Rightarrow> manifest_ref list \<Rightarrow> bool" for E raw_json where
  trusted_start: "value_from_slice (env_deps E) raw_json = Some doc \<Longrightarrow> trusted E raw_json doc []"
| trusted_hop: "trusted E raw_json doc history \<Longrightarrow>
     doc_entry E doc = Some (Manifest_Entry m) \<Longrightarrow>
     manifest_allowed (env_deps E) Stage1 m \<Longrightarrow>
     murl \<in> set (urls (m_url m)) \<Longrightarrow>
     manifest_verified E m b \<Longrightarrow>
     \<not> seen_before history murl (hex_sha256 E b) \<Longrightarrow>
     value_from_slice (env_deps E) b = Some mdoc \<Longrightarrow>
     trusted E raw_json (deep_merge (consume_pointer (arch_key E) doc) mdoc)
       (history @ [hop_record m murl (hex_sha256 E b)])"

lemma resolving_trusted: "resolving E raw_json w0 doc history w \<Longrightarrow> trusted E raw_json doc history"
proof (induction rule: resolving.induct)
  case (resolving_start doc)
  then show ?case by (rule trusted_start)
next
  case (resolving_hop doc history w doc' history' w')
  from resolving_hop.hyps(2) resolving_hop.IH show ?case
    by (elim resolve_step_Again) (auto intro: trusted_hop)
qed

lemma wf_trusted: "trusted E raw_json doc history \<Longrightarrow> wf_json doc"
  by (induction rule: trusted.induct) (auto intro: wf_value_from_slice wf_deep_merge(1) wf_consume_pointer)

definition hop_key :: "manifest_ref \<Rightarrow> string list \<times> string option" where
  "hop_key r = (urls (m_url r), m_sha256 r)"

lemma seen_before_iff: "seen_before h murl hash \<longleftrightarrow> ([murl], Some hash) \<in> set (map hop_key h)"
  by (force simp: seen_before_def list_ex_iff hop_key_def image_iff)

lemma hop_key_record [simp]: "hop_key (hop_record m murl hash) = ([murl], Some hash)"
  by (simp add: hop_key_def hop_record_def)

lemma trusted_distinct: "trusted E raw_json doc history \<Longrightarrow> distinct (map hop_key history)"
  by (induction rule: trusted.induct) (auto simp: seen_before_iff)

text \<open>The whole contract of a successful resolution.\<close>

lemma resolve_payload_sound:
  assumes "resolve_payload E raw_json w = Some (Inr (binary, args, stdin), w')"
  obtains doc history p sargs where "trusted E raw_json doc history"
    and "doc_entry E doc = Some (Payload_Entry p)"
    and "payload_allowed (env_deps E) Stage1 p"
    and "payload_admitted E (mode_of p) binary sargs"
    and "args = final_args p sargs" and "delivered E raw_json doc history stdin"
  using assms by (elim resolve_payload_result resolve_step_Return) (blast dest: resolving_trusted)

text \<open>A document whose entry is a payload is resolved in one pass, and stays as it was received.\<close>

lemma resolve_payload_direct:
  assumes "value_from_slice (env_deps E) raw_json = Some doc" and "doc_entry E doc = Some (Payload_Entry p)"
    and "resolve_payload E raw_json w = Some (Inr (binary, args, stdin), w')"
  shows "resolve_step E raw_json doc [] w = (Inr (Return (binary, args, stdin)), w')"
proof -
  obtain x w1 where step: "resolve_step E raw_json doc [] w = (x, w1)" by fastforce
  from assms(1,3) have "resolve_loop E raw_json doc [] w = Some (Inr (binary, args, stdin), w')"
    by (simp add: resolve_payload_def)
  then have run: "(case x of Inl e \<Rightarrow> Some (Inl e, w1)
      | Inr (Return r) \<Rightarrow> Some (Inr r, w1)
      | Inr (Again doc' h') \<Rightarrow> resolve_loop E raw_json doc' h' w1) = Some (Inr (binary, args, stdin), w')"
    by (subst (asm) resolve_loop.simps) (simp add: step)
  show ?thesis
  proof (cases x)
    case (Inl e)
    with run show ?thesis by simp
  next
    case (Inr p)
    show ?thesis
    proof (cases p)
      case (Return r)
      with run Inr step show ?thesis by simp
    next
      case (Again doc' h')
      with Inr step have "resolve_step E raw_json doc [] w = (Inr (Again doc' h'), w1)" by simp
      then show ?thesis by (rule resolve_step_Again) (use assms(2) in simp)
    qed
  qed
qed

text \<open>The stamped history reads back as the hops that were verified.\<close>

lemma delivered_history:
  assumes "delivered E raw_json doc history stdin" and "history \<noteq> []"
  obtains doc' e where "stdin = json_compact (env_deps E) doc'"
    and "arch_value (arch_key E) doc' = Some (JObj e)"
    and "Option.bind (bt_get e ''resolved_manifests'') (de_list de_manifest_ref) = Some history"
    and "\<And>k. k \<noteq> ''_stage2'' \<Longrightarrow> get doc' k = get doc k"
proof -
  from assms obtain doc' where doc': "set_resolved_manifests doc (arch_key E) history = Some doc'"
    and "stdin = json_compact (env_deps E) doc'"
    by (auto simp: delivered_def)
  moreover from doc' obtain e where
    "arch_value (arch_key E) doc' = Some (JObj (bt_insert ''resolved_manifests'' (ser_manifest_refs history) e))"
    unfolding set_resolved_manifests_def by (rule update_arch_entry_value)
  moreover have "get doc' k = get doc k" if "k \<noteq> ''_stage2''" for k
    using doc' that unfolding set_resolved_manifests_def by (rule update_arch_entry_frame)
  moreover have "de_list de_manifest_ref (ser_manifest_refs history) = Some history"
    by (simp add: ser_manifest_refs_def manifest_ref_wire.de_list_ser)
  ultimately show thesis by (intro that[of doc']) auto
qed

text \<open>Every recorded hop is a manifest that verified under the key it records.\<close>

definition verified_hop :: "env \<Rightarrow> manifest_ref \<Rightarrow> bool" where
  "verified_hop E r \<longleftrightarrow>
     (\<exists>b. m_sha256 r = Some (hex_sha256 E b) \<and> signed_by E (m_ed25519 r) Stage2Manifest b)"

lemma trusted_verified: "trusted E raw_json doc history \<Longrightarrow> \<forall>r \<in> set history. verified_hop E r"
  by (induction rule: trusted.induct) (auto simp: verified_hop_def hop_record_def manifest_verified_def)

end
