(* ===== verification/Stage1_Progress.thy ===== *)
theory Stage1_Progress
  imports Stage1_Resolve
begin

section \<open>stage1: when resolution returns, and what an honest mirror gives\<close>

text \<open>
  The loop of \<open>resolve_payload\<close> has no bound of its own. Its cycle check refuses a (URL, digest) pair
  it has followed before, so it returns whenever the servers answer finitely many URLs: digests have
  32 bytes. The second part is liveness of the mirror loops: one mirror that serves the right bytes
  in every state is enough, whatever the others do.
\<close>

subsection \<open>The cycle check bounds the chain\<close>

definition answered_urls :: "env \<Rightarrow> string set" where
  "answered_urls E = {req_url q | t q r. respond E t q = Some r}"

definition possible_hops :: "env \<Rightarrow> (string list \<times> string option) set" where
  "possible_hops E = {([u], Some (hex_sha256 E b)) | u b. u \<in> answered_urls E}"

lemma finite_possible_hops:
  assumes "finite (answered_urls E)" and "sha256_law (env_deps E)"
  shows "finite (possible_hops E)"
proof -
  have "finite {b :: bytes. length b = 32}"
    using finite_lists_length_eq[of "UNIV :: byte set" 32] by simp
  moreover have "possible_hops E \<subseteq> (\<lambda>(u, d). ([u], Some (hex_encode (env_deps E) d)))
      ` (answered_urls E \<times> {b. length b = 32})"
    using assms(2) by (fastforce simp: possible_hops_def hex_sha256_def sha256_law_def)
  ultimately show ?thesis using assms(1) by (meson finite_SigmaI finite_imageI finite_subset)
qed

lemma download_answered: "download_binary E url w = (Inr b, w') \<Longrightarrow> url \<in> answered_urls E"
  using download_binary_Inr[of E url w b w'] by (force simp: answered_urls_def)

lemma fetch_manifest_answered:
  "fetch_manifest E m w = (Inr (url, b, hash), w') \<Longrightarrow> url \<in> answered_urls E \<and> hash = hex_sha256 E b"
  unfolding fetch_manifest_def
  by (drule mf.success_from)
     (auto simp: fetch_manifest_at_def try_fetch_manifest_def Let_def res_simps intro: download_answered)

lemma resolve_step_hop_key:
  assumes "resolve_step E raw_json doc h w = (Inr (Again doc' h'), w')"
  obtains k where "k \<in> possible_hops E" and "k \<notin> set (map hop_key h)"
    and "map hop_key h' = map hop_key h @ [k]"
  using assms
proof (cases rule: resolve_step_Again)
  case (1 m murl b mdoc w1)
  show ?thesis
  proof (rule that[of "([murl], Some (hex_sha256 E b))"])
    show "([murl], Some (hex_sha256 E b)) \<in> possible_hops E"
      using fetch_manifest_answered[OF 1(3)] by (auto simp: possible_hops_def)
    show "([murl], Some (hex_sha256 E b)) \<notin> set (map hop_key h)" using 1(6) unfolding seen_before_iff .
    show "map hop_key h' = map hop_key h @ [([murl], Some (hex_sha256 E b))]" using 1 by simp
  qed
qed

lemma resolve_loop_returns:
  assumes fin: "finite (possible_hops E)"
  shows "distinct (map hop_key h) \<Longrightarrow> set (map hop_key h) \<subseteq> possible_hops E \<Longrightarrow>
    \<exists>r w'. resolve_loop E raw_json doc h w = Some (r, w')"
proof (induction "card (possible_hops E) - length h" arbitrary: doc h w rule: less_induct)
  case less
  obtain x w1 where step: "resolve_step E raw_json doc h w = (x, w1)" by fastforce
  show ?case
  proof (cases x)
    case (Inl e)
    with step show ?thesis by (subst resolve_loop.simps) simp
  next
    case (Inr p)
    show ?thesis
    proof (cases p)
      case (Return y)
      with step Inr show ?thesis by (subst resolve_loop.simps) simp
    next
      case (Again doc' h')
      with step Inr obtain k where k: "k \<in> possible_hops E" "k \<notin> set (map hop_key h)"
        and h': "map hop_key h' = map hop_key h @ [k]"
        by (auto elim: resolve_step_hop_key)
      have fresh: "distinct (map hop_key h')" and sub: "set (map hop_key h') \<subseteq> possible_hops E"
        using less.prems k unfolding h' by auto
      have "length (map hop_key h') \<le> card (possible_hops E)"
        using card_mono[OF fin sub] distinct_card[OF fresh] by simp
      moreover have "length h' = Suc (length h)" using h' by (metis length_append_singleton length_map)
      ultimately have "card (possible_hops E) - length h' < card (possible_hops E) - length h" by simp
      from less.hyps[OF this fresh sub] show ?thesis using step Inr Again
        by (subst resolve_loop.simps) simp
    qed
  qed
qed

lemma resolve_payload_returns:
  assumes "finite (answered_urls E)" and "sha256_law (env_deps E)"
  shows "\<exists>r w'. resolve_payload E raw_json w = Some (r, w')"
  using resolve_loop_returns[OF finite_possible_hops[OF assms], of "[]"]
  by (auto simp: resolve_payload_def split: option.splits)

text \<open>A loop whose every pass hops once more never returns.\<close>

lemma resolve_loop_diverges:
  assumes "I doc h w"
    and "\<And>doc h w. I doc h w \<Longrightarrow> \<exists>doc' h' w'. resolve_step E raw_json doc h w = (Inr (Again doc' h'), w')
           \<and> I doc' h' w'"
  shows "resolve_loop E raw_json doc h w = None"
proof (rule ccontr)
  assume "resolve_loop E raw_json doc h w \<noteq> None"
  then obtain r w' where run: "resolve_loop E raw_json doc h w = Some (r, w')" by auto
  show False
    by (rule resolve_loop_rule[OF run, where I = I]) (use assms in \<open>fastforce+\<close>)
qed

subsection \<open>One honest mirror is enough\<close>

definition get_request :: "string \<Rightarrow> request" where
  "get_request url = \<lparr>req_method = Http_Get, req_url = url, req_headers = []\<rparr>"

text \<open>A URL that answers every request, at every time, with these bytes.\<close>

definition serves :: "env \<Rightarrow> string \<Rightarrow> bytes \<Rightarrow> bool" where
  "serves E url b \<longleftrightarrow>
     (\<forall>t. client_builds E t \<and> respond E t (get_request url) = Some \<lparr>resp_status = 200, resp_body = Some b\<rparr>)"

lemma download_serves:
  "serves E url b \<Longrightarrow> download_binary E url w = (Inr b, emit (Ev_Request (get_request url)) w)"
  by (simp add: serves_def download_binary_def http_client_def send_def error_for_status_def
      read_body_def then_do_def get_request_def)

lemma download_first_serves:
  assumes "u \<in> set us" and "serves E u b"
  shows "\<exists>b' w'. download_first E us w = (Inr b', w')"
  unfolding download_first_def
  by (rule dl.some_mirror_works[OF assms(1)]) (simp add: download_serves[OF assms(2)])

lemma admit_payload_honest_pin:
  assumes "u \<in> set us" and "serves E u b" and "matches_pin E pin b"
  shows "\<exists>binary w'. admit_payload E us (Admit_Sha256 pin) w = (Inr (binary, None), w')
                   \<and> matches_pin E pin binary"
proof -
  have "\<exists>a w'. admit_from E u (Admit_Sha256 pin) w1 = (Inr a, w')" for w1
    using assms(3) verify_checksum_Inr_iff[of E b pin]
    by (simp add: admit_from_def then_do_def download_serves[OF assms(2)])
  from adm.some_mirror_works[OF assms(1) this] obtain a w' where
    "admit_payload E us (Admit_Sha256 pin) w = (Inr a, w')"
    unfolding admit_payload_def by blast
  then show ?thesis
    using admit_payload_sound by (cases a) (fastforce simp: payload_admitted_def)
qed

text \<open>
  The same for a signed payload: the mirror has the signature next to the bytes, or the first
  signature URL has it.
\<close>

definition first_sig_url :: "env \<Rightarrow> string \<Rightarrow> url_list option \<Rightarrow> bytes \<Rightarrow> string \<Rightarrow> bool" where
  "first_sig_url E url sig_url b s \<longleftrightarrow>
     (case sig_url of None \<Rightarrow> s = url @ ''.sig''
      | Some l \<Rightarrow> (\<exists>rest. substitute (urls l) (hex_sha256 E b) = s # rest))"

lemma download_first_head_serves:
  "serves E s b \<Longrightarrow> download_first E (s # rest) w = (Inr b, emit (Ev_Request (get_request s)) w)"
  by (simp add: download_first_def download_serves)

lemma admit_payload_honest_signed:
  assumes "u \<in> set us" and "serves E u b" and "first_sig_url E u sig_url b s" and "serves E s sig"
    and "verify (env_deps E) pk Stage2Payload b sig = Inr ()"
  shows "\<exists>binary w'. admit_payload E us (Admit_Ed25519 pk sig_url None asu) w = (Inr (binary, None), w')
                   \<and> signed_by E pk Stage2Payload binary"
proof -
  have "\<exists>a w'. admit_from E u (Admit_Ed25519 pk sig_url None asu) w1 = (Inr a, w')" for w1
  proof -
    obtain rest where "(case sig_url of None \<Rightarrow> [u @ ''.sig'']
        | Some l \<Rightarrow> substitute (urls l) (hex_sha256 E b)) = s # rest"
      using assms(3) by (cases sig_url) (auto simp: first_sig_url_def)
    then show ?thesis
      using assms(5) by (simp add: admit_from_def then_do_def download_serves[OF assms(2)] Let_def
          download_first_head_serves[OF assms(4)])
  qed
  from adm.some_mirror_works[OF assms(1) this] obtain a w' where
    "admit_payload E us (Admit_Ed25519 pk sig_url None asu) w = (Inr a, w')"
    unfolding admit_payload_def by blast
  then show ?thesis
    using admit_payload_sound
    by (cases a) (fastforce simp: payload_admitted_def split: option.splits)
qed

end
