(* ===== verification/Stage1_Boot.thy ===== *)
theory Stage1_Boot
  imports Stage1_Progress
begin

section \<open>stage1: finding the document, measuring and executing the payload\<close>

text \<open>
  The rest of \<open>crates/stage1/src/main.rs\<close>: the document comes from standard input or from a cloud
  metadata service, \<open>stage2\<close> resolves it, measures the payload when running as root and executes
  it from a sealed in-memory file; every failure powers the machine off.

  A panic runs the same power-off as an error (\<open>main\<close> installs a hook for it), so it is an error
  value here. \<open>control\<close> tells a process that goes on from one whose image was replaced.
\<close>

datatype control = Returned | Replaced

subsection \<open>The user-data document\<close>

text \<open>\<open>parse_json_to_config\<close>: the document must type-check; the raw bytes are kept.\<close>

definition parse_json_to_config :: "env \<Rightarrow> bytes \<Rightarrow> stage1_error + bytes" where
  "parse_json_to_config E data =
     (case Option.bind (json_typed (env_deps E) data) de_user_data of
        None \<Rightarrow> Inl Bad_Json
      | Some _ \<Rightarrow> Inr data)"

definition stdin_config :: "env \<Rightarrow> stage1_error + bytes option" where
  "stdin_config E =
     (case stdin_kind E of
        None \<Rightarrow> Inr None
      | Some kind \<Rightarrow>
          if kind \<noteq> Regular_File \<and> kind \<noteq> Fifo then Inr None
          else (case stdin_data E of
                  None \<Rightarrow> Inl Stdin_Read
                | Some buf \<Rightarrow> if buf = [] then Inr None else Inr (Some buf)))"

definition ec2_token_url :: string where
  "ec2_token_url = ''http://169.254.169.254/latest/api/token''"

definition ec2_metadata_url :: string where
  "ec2_metadata_url = ''http://169.254.169.254/latest/user-data''"

definition gcp_metadata_url :: string where
  "gcp_metadata_url =
     ''http://metadata.google.internal/computeMetadata/v1/instance/attributes/user-data''"

definition azure_metadata_url :: string where
  "azure_metadata_url =
     ''http://169.254.169.254/metadata/instance/compute/userData?api-version=2021-02-01&format=text''"

text \<open>None of the three looks at the status of the response.\<close>

definition try_fetch_ec2 :: "env \<Rightarrow> bytes stage1" where
  "try_fetch_ec2 E =
     then_do (send E \<lparr>req_method = Http_Put, req_url = ec2_token_url,
                req_headers = [(''X-aws-ec2-metadata-token-ttl-seconds'', ''21600'')]\<rparr>) (\<lambda>r.
     then_do (lift (read_body r)) (\<lambda>token.
     then_do (send E \<lparr>req_method = Http_Get, req_url = ec2_metadata_url,
                req_headers = [(''X-aws-ec2-metadata-token'', response_text E token)]\<rparr>) (\<lambda>r.
     then_do (lift (read_body r)) (\<lambda>body.
     lift (parse_json_to_config E body)))))"

definition try_fetch_gcp :: "env \<Rightarrow> bytes stage1" where
  "try_fetch_gcp E =
     then_do (send E \<lparr>req_method = Http_Get, req_url = gcp_metadata_url,
                req_headers = [(''Metadata-Flavor'', ''Google'')]\<rparr>) (\<lambda>r.
     then_do (lift (read_body r)) (\<lambda>body.
     lift (parse_json_to_config E body)))"

definition try_fetch_azure :: "env \<Rightarrow> bytes stage1" where
  "try_fetch_azure E =
     then_do (send E \<lparr>req_method = Http_Get, req_url = azure_metadata_url,
                req_headers = [(''Metadata'', ''true'')]\<rparr>) (\<lambda>r.
     then_do (lift (read_body r)) (\<lambda>body.
     then_do (lift (ok_or Azure_Base64 (b64_decode (env_deps E) (response_text E body)))) (\<lambda>decoded.
     lift (parse_json_to_config E decoded))))"

definition fetch_cloud_metadata :: "env \<Rightarrow> bytes stage1" where
  "fetch_cloud_metadata E =
     then_do (http_client E) (\<lambda>_ w.
       case try_fetch_ec2 E w of
         (Inr doc, w1) \<Rightarrow> (Inr doc, w1)
       | (Inl _, w1) \<Rightarrow>
         (case try_fetch_gcp E w1 of
            (Inr doc, w2) \<Rightarrow> (Inr doc, w2)
          | (Inl _, w2) \<Rightarrow>
            (case try_fetch_azure E w2 of
               (Inr doc, w3) \<Rightarrow> (Inr doc, w3)
             | (Inl _, w3) \<Rightarrow> (Inl All_Clouds_Failed, w3))))"

subsection \<open>Measuring\<close>

definition attest :: "env \<Rightarrow> bytes \<Rightarrow> string stage1" where
  "attest E nonce w = (ok_or Attest_Failed (tpm_attest E (w_trace w) nonce), emit (Ev_Attest nonce) w)"

definition write_file :: "env \<Rightarrow> string \<Rightarrow> string \<Rightarrow> unit stage1" where
  "write_file E path contents w =
     (if fs_write E (w_trace w) path contents then Inr () else Inl Attest_Write_Failed,
      emit (Ev_Write_File path contents) w)"

definition generate_pre_execution_attestation :: "env \<Rightarrow> bytes \<Rightarrow> unit stage1" where
  "generate_pre_execution_attestation E binary =
     (let path = ''/tmp'' @ ''/stage1.attest'' in
      then_do (attest E (sha256_digest (env_deps E) binary)) (\<lambda>contents.
      write_file E path contents))"

definition pcr_binary :: nat where
  "pcr_binary = 14"

definition open_tpm :: "env \<Rightarrow> unit stage1" where
  "open_tpm E w = (if tpm_open E (w_trace w) then Inr () else Inl Tpm_Open_Failed, w)"

definition pcr_extend :: "env \<Rightarrow> nat \<Rightarrow> bytes \<Rightarrow> unit stage1" where
  "pcr_extend E pcr digest w =
     (if tpm_pcr_extend E (w_trace w) pcr digest then Inr () else Inl Pcr_Extend_Failed,
      emit (Ev_Extend pcr digest) w)"

definition extend_pcrs :: "env \<Rightarrow> bytes \<Rightarrow> unit stage1" where
  "extend_pcrs E binary =
     then_do (open_tpm E) (\<lambda>_. pcr_extend E pcr_binary (sha256_digest (env_deps E) binary))"

subsection \<open>In-memory files\<close>

definition file_at :: "world \<Rightarrow> nat \<Rightarrow> memfd" where
  "file_at w fd = w_files w ! fd"

definition update_file :: "nat \<Rightarrow> (memfd \<Rightarrow> memfd) \<Rightarrow> world \<Rightarrow> world" where
  "update_file fd f w = w\<lparr>w_files := (w_files w)[fd := f (file_at w fd)]\<rparr>"

definition new_file :: "string \<Rightarrow> bool \<Rightarrow> world \<Rightarrow> nat \<times> world" where
  "new_file name exec w =
     (length (w_files w),
      w\<lparr>w_files := w_files w @ [\<lparr>mf_name = name, mf_data = [], mf_sealed = False, mf_exec = exec,
                                   mf_pos = 0, mf_calls = 0\<rparr>]\<rparr>)"

text \<open>\<open>memfd_create\<close>, and once more without \<open>MFD_EXEC\<close> where the kernel does not know that flag.\<close>

definition create_memfd :: "env \<Rightarrow> string \<Rightarrow> bool \<Rightarrow> nat stage1" where
  "create_memfd E name exec w =
     (case sys_memfd_create E (w_trace w) name exec of
        None \<Rightarrow> (let (fd, w') = new_file name exec w in (Inr fd, w'))
      | Some e \<Rightarrow>
          if exec \<and> e = EINVAL
          then (case sys_memfd_create E (w_trace w) name False of
                  None \<Rightarrow> (let (fd, w') = new_file name False w in (Inr fd, w'))
                | Some _ \<Rightarrow> (Inl Memfd_Create_Failed, w))
          else (Inl Memfd_Create_Failed, w))"

text \<open>
  The \<open>write(2)\<close> loop. A call may take any part of what is left; one that takes nothing is tried
  again. The slice expression panics if the kernel claims more than it was given.
\<close>

definition append_data :: "bytes \<Rightarrow> memfd \<Rightarrow> memfd" where
  "append_data d f = f\<lparr>mf_data := mf_data f @ d, mf_pos := mf_pos f + length d, mf_calls := Suc (mf_calls f)\<rparr>"

partial_function (option) write_all ::
    "env \<Rightarrow> nat \<Rightarrow> bytes \<Rightarrow> world \<Rightarrow> ((stage1_error + unit) \<times> world) option" where
  "write_all E fd rest w =
     (if rest = [] then Some (Inr (), w)
      else (case sys_write E (w_trace w) (file_at w fd) (length rest) of
              None \<Rightarrow> Some (Inl Memfd_Write_Failed, w)
            | Some n \<Rightarrow>
                if length rest < n then Some (Inl Memfd_Write_Overrun, w)
                else write_all E fd (drop n rest) (update_file fd (append_data (take n rest)) w)))"

declare write_all.simps [code]

definition add_seals :: "env \<Rightarrow> nat \<Rightarrow> unit stage1" where
  "add_seals E fd w =
     (if sys_add_seals E (w_trace w) (file_at w fd)
      then (Inr (), update_file fd (\<lambda>f. f\<lparr>mf_sealed := True\<rparr>) w)
      else (Inl Add_Seals_Failed, w))"

definition make_memfd ::
    "env \<Rightarrow> string \<Rightarrow> bytes \<Rightarrow> bool \<Rightarrow> bool \<Rightarrow> (world, stage1_error, nat) pact" where
  "make_memfd E name data seal exec =
     then_may (may (create_memfd E name exec)) (\<lambda>fd.
     then_may (write_all E fd data) (\<lambda>_.
     then_may (may (if seal then add_seals E fd else ret ())) (\<lambda>_.
     may (ret fd))))"

subsection \<open>Executing\<close>

definition rewind :: "env \<Rightarrow> nat \<Rightarrow> unit stage1" where
  "rewind E fd w =
     (if sys_lseek E (w_trace w) (file_at w fd)
      then (Inr (), update_file fd (\<lambda>f. f\<lparr>mf_pos := 0\<rparr>) w) else (Inl Lseek_Failed, w))"

definition dup_to_stdin :: "env \<Rightarrow> nat \<Rightarrow> unit stage1" where
  "dup_to_stdin E fd w =
     (if sys_dup2 E (w_trace w) (file_at w fd) then (Inr (), w\<lparr>w_stdin := Some fd\<rparr>)
      else (Inl Dup2_Failed, w))"

text \<open>\<open>CString::new\<close> refuses an interior NUL.\<close>

definition has_nul :: "string \<Rightarrow> bool" where
  "has_nul s = (CHR 0x00 \<in> set s)"

definition c_argv :: "string list \<Rightarrow> stage1_error + string list" where
  "c_argv args = (let argv = ''stage2'' # args
                  in if list_ex has_nul argv then Inl Argument_Has_Nul else Inr argv)"

definition c_envp :: "(string \<times> string) list \<Rightarrow> string list" where
  "c_envp vars = filter (\<lambda>kv. \<not> has_nul kv) (map (\<lambda>(k, v). k @ ''='' @ v) vars)"

text \<open>What the new image reads: the file behind descriptor 0, from its offset on.\<close>

definition stdin_bytes :: "world \<Rightarrow> bytes" where
  "stdin_bytes w = (case w_stdin w of None \<Rightarrow> [] | Some fd \<Rightarrow> drop (mf_pos (file_at w fd)) (mf_data (file_at w fd)))"

definition execveat :: "env \<Rightarrow> nat \<Rightarrow> string list \<Rightarrow> string list \<Rightarrow> control stage1" where
  "execveat E fd argv envp w =
     (if sys_execveat E (w_trace w) (file_at w fd) argv envp
      then (Inr Replaced, emit (Ev_Exec (mf_data (file_at w fd)) argv (stdin_bytes w)) w)
      else (Inl Exec_Failed, w))"

definition execute_binary ::
    "env \<Rightarrow> bytes \<Rightarrow> string list \<Rightarrow> bytes \<Rightarrow> (world, stage1_error, control) pact" where
  "execute_binary E data args json_config =
     then_may (make_memfd E ''stage2'' data True True) (\<lambda>exe.
     then_may (make_memfd E ''stage2-config'' json_config False False) (\<lambda>cfg.
     then_may (may (rewind E cfg)) (\<lambda>_.
     then_may (may (dup_to_stdin E cfg)) (\<lambda>_.
     then_may (may (lift (c_argv args))) (\<lambda>argv.
     may (execveat E exe argv (c_envp (env_vars E))))))))"

definition stage2 :: "env \<Rightarrow> bytes \<Rightarrow> (world, stage1_error, control) pact" where
  "stage2 E raw_json =
     then_may (resolve_payload E raw_json) (\<lambda>(binary, args, stdin_doc).
     then_may (may (if env_uid E = 0
                    then then_do (generate_pre_execution_attestation E binary) (\<lambda>_. extend_pcrs E binary)
                    else ret ())) (\<lambda>_.
     execute_binary E binary args stdin_doc))"

subsection \<open>\<open>main\<close>\<close>

definition attest_nonce :: "env \<Rightarrow> bytes" where
  "attest_nonce E = str_bytes (if 2 < length (env_args E) then env_args E ! 2 else env_clock E)"

definition main_inner :: "env \<Rightarrow> (world, stage1_error, control) pact" where
  "main_inner E =
     then_may (may (lift (stdin_config E))) (\<lambda>piped.
     case piped of
       Some bytes \<Rightarrow>
         then_may (may (lift (parse_json_to_config E bytes))) (\<lambda>raw_json. stage2 E raw_json)
     | None \<Rightarrow>
         if 1 < length (env_args E) \<and> env_args E ! 1 = ''--attest'' then
           then_may (may (attest E (attest_nonce E))) (\<lambda>report w.
             Some (Inr Returned, emit (Ev_Print report) w))
         else
           then_may (may (fetch_cloud_metadata E)) (\<lambda>raw_json. stage2 E raw_json))"

text \<open>\<open>poweroff\<close>; process 1 syncs and powers the machine off, any other exits with status 1.\<close>

definition poweroff :: "env \<Rightarrow> world \<Rightarrow> world" where
  "poweroff E w = (if env_pid E = 1 then emit Ev_Power_Off (emit Ev_Sync w) else emit (Ev_Exit 1) w)"

definition main :: "env \<Rightarrow> world \<Rightarrow> world option" where
  "main E w =
     (case main_inner E w of
        None \<Rightarrow> None
      | Some (Inl e, w') \<Rightarrow> Some (poweroff E w')
      | Some (Inr Returned, w') \<Rightarrow> Some (emit (Ev_Exit 0) w')
      | Some (Inr Replaced, w') \<Rightarrow> Some w')"

definition start :: world where
  "start = \<lparr>w_trace = [], w_files = [], w_stdin = None\<rparr>"

subsection \<open>Files written by the loop\<close>

lemma file_at_last: "w_files w = fs @ [f] \<Longrightarrow> fd = length fs \<Longrightarrow> file_at w fd = f"
  by (simp add: file_at_def)

lemma update_file_last:
  "w_files w = fs @ [f] \<Longrightarrow> fd = length fs \<Longrightarrow> update_file fd g w = w\<lparr>w_files := fs @ [g f]\<rparr>"
  by (simp add: update_file_def file_at_def)

lemma write_all_Inr:
  assumes "write_all E fd rest w = Some (r, w')" and "r = Inr u"
    and "w_files w = fs @ [f]" and "fd = length fs"
  shows "\<exists>n. w' = w\<lparr>w_files := fs @ [f\<lparr>mf_data := mf_data f @ rest, mf_pos := mf_pos f + length rest,
                                        mf_calls := n\<rparr>]\<rparr>"
proof -
  have "\<forall>fs f. r = Inr u \<longrightarrow> w_files w = fs @ [f] \<longrightarrow> fd = length fs \<longrightarrow>
    (\<exists>n. w' = w\<lparr>w_files := fs @ [f\<lparr>mf_data := mf_data f @ rest, mf_pos := mf_pos f + length rest,
                                        mf_calls := n\<rparr>]\<rparr>)"
  proof (rule write_all.raw_induct[where P = "\<lambda>E fd rest w rw. \<forall>fs f. fst rw = Inr u \<longrightarrow>
      w_files w = fs @ [f] \<longrightarrow> fd = length fs \<longrightarrow> (\<exists>n. snd rw = w\<lparr>w_files := fs @
       [f\<lparr>mf_data := mf_data f @ rest, mf_pos := mf_pos f + length rest, mf_calls := n\<rparr>]\<rparr>)",
      OF _ assms(1), unfolded fst_conv snd_conv], intro allI impI, goal_cases)
    case (1 go E fd rest w rw fs f)
    show ?case
    proof (cases "rest = []")
      case True
      with 1 have "rw = (Inr (), w)" by simp
      then show ?thesis using 1(4) True by (intro exI[of _ "mf_calls f"]) simp
    next
      case False
      from 1 False obtain n where n: "\<not> length rest < n"
        and step: "go E fd (drop n rest) (w\<lparr>w_files := fs @ [append_data (take n rest) f]\<rparr>) = Some rw"
        by (auto simp: file_at_last update_file_last split: option.splits if_splits)
      from 1(1)[OF step] 1(3,5) obtain k where
        "snd rw = w\<lparr>w_files := fs @ [append_data (take n rest) f\<lparr>
            mf_data := mf_data (append_data (take n rest) f) @ drop n rest,
            mf_pos := mf_pos (append_data (take n rest) f) + length (drop n rest), mf_calls := k\<rparr>]\<rparr>"
        by fastforce
      then show ?thesis using n by (intro exI[of _ k]) (simp add: append_data_def)
    qed
  qed
  with assms(2-4) show ?thesis by blast
qed

text \<open>The loop ends when every call takes at least one byte, and no more than it is given.\<close>

definition writes_progress :: "env \<Rightarrow> bool" where
  "writes_progress E \<longleftrightarrow>
     (\<forall>t f k. 0 < k \<longrightarrow> (\<exists>n. sys_write E t f k = Some n \<and> 0 < n \<and> n \<le> k))"

lemma write_all_returns:
  assumes "writes_progress E"
  shows "\<exists>w'. write_all E fd rest w = Some (Inr (), w')"
proof (induction "length rest" arbitrary: rest w rule: less_induct)
  case less
  show ?case
  proof (cases "rest = []")
    case True
    then show ?thesis by (subst write_all.simps) simp
  next
    case False
    then obtain n where n: "sys_write E (w_trace w) (file_at w fd) (length rest) = Some n" "0 < n"
        "n \<le> length rest"
      using assms unfolding writes_progress_def by (metis length_greater_0_conv)
    then show ?thesis using False less[of "drop n rest"] by (subst write_all.simps) simp
  qed
qed

lemma pkeeps_write_all: "pkeeps same_trace (write_all E fd rest)"
proof (rule pkeepsI)
  fix w r w'
  assume run: "write_all E fd rest w = Some (r, w')"
  have "same_trace w (snd (r, w'))"
  proof (rule write_all.raw_induct[where P = "\<lambda>E fd rest w rw. same_trace w (snd rw)", OF _ run], goal_cases)
    case (1 go E fd rest w rw)
    show ?case
    proof (cases "rest = []")
      case True
      with 1(2) show ?thesis by (auto simp: same_trace_def)
    next
      case False
      with 1(2) consider (stop) "snd rw = w"
        | (more) n where "go E fd (drop n rest) (update_file fd (append_data (take n rest)) w) = Some rw"
        by (auto split: option.splits if_splits)
      then show ?thesis
      proof cases
        case stop
        then show ?thesis by (simp add: same_trace_def)
      next
        case (more n)
        from 1(1)[OF more] show ?thesis by (simp add: same_trace_def update_file_def)
      qed
    qed
  qed
  then show "same_trace w w'" by simp
qed

lemma keeps_file_ops:
  "keeps same_trace (create_memfd E name exec)" "keeps same_trace (add_seals E fd)"
  "keeps same_trace (rewind E fd)" "keeps same_trace (dup_to_stdin E fd)"
  by (auto intro!: keepsI simp: create_memfd_def add_seals_def rewind_def dup_to_stdin_def same_trace_def
      new_file_def update_file_def split: option.splits if_splits)

lemma pkeeps_make_memfd: "pkeeps same_trace (make_memfd E name data seal exec)"
  unfolding make_memfd_def
  by (intro st.pkeeps_then_may pkeeps_may keeps_file_ops pkeeps_write_all st.keeps_ret)
     (simp add: keeps_file_ops st.keeps_ret)

text \<open>\<open>make_memfd\<close>: one new file with exactly the bytes given, sealed if asked; nothing else changes.\<close>

lemma make_memfd_Inr:
  assumes "make_memfd E name data seal exec w = Some (Inr fd, w')"
  shows "fd = length (w_files w)"
    and "\<exists>f. w' = w\<lparr>w_files := w_files w @ [f]\<rparr> \<and> mf_data f = data \<and> mf_name f = name \<and> mf_sealed f = seal"
proof -
  from assms obtain u w1 w2 where create: "create_memfd E name exec w = (Inr fd, w1)"
    and written: "write_all E fd data w1 = Some (Inr u, w2)"
    and finish: "(if seal then add_seals E fd else ret ()) w2 = (Inr (), w')"
    by (auto simp: make_memfd_def res_simps)
  from create show fd: "fd = length (w_files w)"
    by (auto simp: create_memfd_def new_file_def split: option.splits if_splits)
  from create obtain f where w1: "w1 = w\<lparr>w_files := w_files w @ [f]\<rparr>"
    and f: "mf_data f = []" "mf_name f = name" "\<not> mf_sealed f"
    by (auto simp: create_memfd_def new_file_def split: option.splits if_splits)
  from write_all_Inr[OF written, of u "w_files w" f] obtain n where
    w2: "w2 = w\<lparr>w_files := w_files w @ [f\<lparr>mf_data := data, mf_pos := mf_pos f + length data, mf_calls := n\<rparr>]\<rparr>"
    using w1 f fd by auto
  show "\<exists>f. w' = w\<lparr>w_files := w_files w @ [f]\<rparr> \<and> mf_data f = data \<and> mf_name f = name \<and> mf_sealed f = seal"
    using finish f by (auto simp: w2 add_seals_def update_file_last fd split: if_splits)
qed

lemma create_memfd_returns:
  "(\<And>t n x. sys_memfd_create E t n x = None) \<Longrightarrow>
   create_memfd E name exec w = (Inr (length (w_files w)), snd (new_file name exec w))"
  by (simp add: create_memfd_def new_file_def)

subsection \<open>Execution\<close>

lemma execveat_Inr:
  "execveat E fd argv envp w = (Inr c, w') \<longleftrightarrow>
     sys_execveat E (w_trace w) (file_at w fd) argv envp \<and> c = Replaced
     \<and> w' = emit (Ev_Exec (mf_data (file_at w fd)) argv (stdin_bytes w)) w"
  by (auto simp: execveat_def)

text \<open>
  The image that runs is the first of the two files, sealed, with the payload's bytes; standard
  input is the second, read from its start.
\<close>

lemma execute_binary_Inr:
  assumes "execute_binary E data args cfg w = Some (Inr c, w')"
  shows "c = Replaced" and "c_argv args = Inr (''stage2'' # args)"
    and "w_trace w' = w_trace w @ [Ev_Exec data (''stage2'' # args) cfg]"
    and "\<exists>exe conf. w_files w' = w_files w @ [exe, conf] \<and> mf_sealed exe \<and> mf_data exe = data
           \<and> mf_data conf = cfg"
proof -
  from assms obtain exe w1 conf w2 w3 w4 argv where
    exe: "make_memfd E ''stage2'' data True True w = Some (Inr exe, w1)"
    and conf: "make_memfd E ''stage2-config'' cfg False False w1 = Some (Inr conf, w2)"
    and w3: "rewind E conf w2 = (Inr (), w3)" and w4: "dup_to_stdin E conf w3 = (Inr (), w4)"
    and argv: "c_argv args = Inr argv"
    and run: "execveat E exe argv (c_envp (env_vars E)) w4 = (Inr c, w')"
    by (auto simp: execute_binary_def res_simps)
  obtain f where f: "w1 = w\<lparr>w_files := w_files w @ [f]\<rparr>" "mf_data f = data" "mf_sealed f"
    and fd1: "exe = length (w_files w)"
    using make_memfd_Inr[OF exe] by auto
  obtain g where g: "w2 = w\<lparr>w_files := w_files w @ [f, g]\<rparr>" "mf_data g = cfg"
    and fd2: "conf = Suc (length (w_files w))"
    using make_memfd_Inr[OF conf] f(1) by auto
  have w4': "w4 = w\<lparr>w_files := w_files w @ [f, g\<lparr>mf_pos := 0\<rparr>], w_stdin := Some conf\<rparr>"
    using w3 w4 by (auto simp: rewind_def dup_to_stdin_def update_file_def file_at_def g fd2 nth_append
        list_update_append split: if_splits)
  have files: "file_at w4 exe = f" "stdin_bytes w4 = cfg"
    by (simp_all add: w4' file_at_def stdin_bytes_def nth_append fd1 fd2 g(2))
  show "c = Replaced" using run by (simp add: execveat_Inr)
  have "argv = ''stage2'' # args" using argv by (auto simp: c_argv_def Let_def split: if_splits)
  with argv run show "c_argv args = Inr (''stage2'' # args)"
    and "w_trace w' = w_trace w @ [Ev_Exec data (''stage2'' # args) cfg]"
    by (simp_all add: execveat_Inr files f(2)) (simp add: w4')
  show "\<exists>exe conf. w_files w' = w_files w @ [exe, conf] \<and> mf_sealed exe \<and> mf_data exe = data
           \<and> mf_data conf = cfg"
    using run f(2,3) g(2) by (auto simp: execveat_Inr w4')
qed

lemma execute_binary_fails: "fail_keeps same_trace (execute_binary E data args cfg)"
  unfolding execute_binary_def
  by (intro st.fail_keeps_then_may pkeeps_make_memfd pkeeps_may keeps_file_ops st.pkeeps_lift)
     (auto intro!: fail_keepsI simp: may_def execveat_def same_trace_def split: if_splits)

subsection \<open>What a boot does to the outside world\<close>

text \<open>The events before the end of a run: requests, the quote and its file, extensions of PCR 14.\<close>

fun quiet :: "event \<Rightarrow> bool" where
  "quiet (Ev_Request r) = True"
| "quiet (Ev_Attest n) = True"
| "quiet (Ev_Write_File p c) = True"
| "quiet (Ev_Extend n d) = (n = 14)"
| "quiet _ = False"

text \<open>The events of measuring one binary.\<close>

definition measurement :: "env \<Rightarrow> bytes \<Rightarrow> string \<Rightarrow> event list" where
  "measurement E binary report =
     (let d = sha256_digest (env_deps E) binary
      in [Ev_Attest d, Ev_Write_File ''/tmp/stage1.attest'' report, Ev_Extend 14 d])"

definition measure_payload :: "env \<Rightarrow> bytes \<Rightarrow> unit stage1" where
  "measure_payload E binary = (if env_uid E = 0
     then then_do (generate_pre_execution_attestation E binary) (\<lambda>_. extend_pcrs E binary) else ret ())"

lemma stage2_measure: "stage2 E raw_json =
     then_may (resolve_payload E raw_json) (\<lambda>(binary, args, stdin_doc).
     then_may (may (measure_payload E binary)) (\<lambda>_. execute_binary E binary args stdin_doc))"
  by (simp add: stage2_def measure_payload_def cong: if_cong)

lemma measure_Inr:
  assumes "measure_payload E binary w = (Inr u, w')"
  shows "\<exists>report. w_trace w' = w_trace w @ (if env_uid E = 0 then measurement E binary report else [])"
  using assms
  by (auto simp: measure_payload_def generate_pre_execution_attestation_def extend_pcrs_def attest_def
      write_file_def open_tpm_def pcr_extend_def pcr_binary_def measurement_def Let_def res_simps
      split: if_splits)

lemma keeps_measure: "keeps (appends quiet) (measure_payload E binary)"
proof -
  have "keeps (appends quiet) (attest E n)" "keeps (appends quiet) (write_file E p c)"
    "keeps (appends quiet) (open_tpm E)" "keeps (appends quiet) (pcr_extend E pcr_binary d)" for n p c d
    by (auto intro!: keepsI appends_emit ev.refl
        simp: attest_def write_file_def open_tpm_def pcr_extend_def pcr_binary_def)
  then show ?thesis
    unfolding measure_payload_def generate_pre_execution_attestation_def extend_pcrs_def Let_def
    by (auto intro!: ev.keeps_then_do ev.keeps_ret)
qed

lemma pkeeps_resolve_payload: "pkeeps only_requests (resolve_payload E raw_json)"
  by (rule pkeepsI) (rule resolve_payload_only_requests)

lemma stage2_Inr:
  assumes "stage2 E raw_json w = Some (Inr c, w')"
  obtains binary args stdin_doc w1 reqs report
  where "c = Replaced" and "resolve_payload E raw_json w = Some (Inr (binary, args, stdin_doc), w1)"
    and "w_trace w' = w_trace w @ map Ev_Request reqs
          @ (if env_uid E = 0 then measurement E binary report else [])
          @ [Ev_Exec binary (''stage2'' # args) stdin_doc]"
    and "\<exists>exe conf. w_files w' = w_files w @ [exe, conf] \<and> mf_sealed exe \<and> mf_data exe = binary
           \<and> mf_data conf = stdin_doc"
proof -
  from assms obtain binary args stdin_doc w1 u w2 where
    resolved: "resolve_payload E raw_json w = Some (Inr (binary, args, stdin_doc), w1)"
    and measured: "measure_payload E binary w1 = (Inr u, w2)"
    and run: "execute_binary E binary args stdin_doc w2 = Some (Inr c, w')"
    by (auto simp: stage2_measure res_simps)
  obtain reqs where reqs: "w1 = w\<lparr>w_trace := w_trace w @ map Ev_Request reqs\<rparr>"
    using resolve_payload_only_requests[OF resolved] by (auto simp: only_requests_def)
  obtain report where "w_trace w2 = w_trace w1 @ (if env_uid E = 0 then measurement E binary report else [])"
    using measure_Inr[OF measured] by auto
  moreover have "w_files w2 = w_files w1"
    using measured by (auto simp: measure_payload_def generate_pre_execution_attestation_def extend_pcrs_def
        attest_def write_file_def open_tpm_def pcr_extend_def Let_def res_simps split: if_splits)
  ultimately show thesis
    using execute_binary_Inr[OF run] resolved reqs by (intro that) auto
qed

lemma stage2_fails: "fail_keeps (appends quiet) (stage2 E raw_json)"
proof -
  have "fail_keeps (appends quiet) (execute_binary E d a c)" for d a c
    using execute_binary_fails[of E d a c] by (auto simp: fail_keeps_def intro: same_trace_appends)
  moreover have "pkeeps (appends quiet) (resolve_payload E raw_json)"
    using pkeeps_resolve_payload by (rule pkeeps_mono) (auto intro: only_requests_appends)
  ultimately show ?thesis
    unfolding stage2_measure
    by (intro ev.fail_keeps_then_may) (auto intro!: ev.fail_keeps_then_may pkeeps_may keeps_measure)
qed

lemma keeps_fetch_cloud_metadata: "keeps only_requests (fetch_cloud_metadata E)"
proof -
  have fetches: "keeps only_requests (try_fetch_ec2 E)" "keeps only_requests (try_fetch_gcp E)"
    "keeps only_requests (try_fetch_azure E)"
    unfolding try_fetch_ec2_def try_fetch_gcp_def try_fetch_azure_def
    by (intro net.keeps_then_do keeps_send net.keeps_lift)+
  have "keeps only_requests (\<lambda>w. case try_fetch_ec2 E w of
         (Inr doc, w1) \<Rightarrow> (Inr doc, w1)
       | (Inl _, w1) \<Rightarrow>
         (case try_fetch_gcp E w1 of
            (Inr doc, w2) \<Rightarrow> (Inr doc, w2)
          | (Inl _, w2) \<Rightarrow>
            (case try_fetch_azure E w2 of
               (Inr doc, w3) \<Rightarrow> (Inr doc, w3)
             | (Inl _, w3) \<Rightarrow> (Inl All_Clouds_Failed, w3))))"
    by (rule keepsI)
       (auto split: prod.splits sum.splits dest!: keepsD[OF fetches(1)] keepsD[OF fetches(2)]
         keepsD[OF fetches(3)] intro: net.trans)
  then show ?thesis
    unfolding fetch_cloud_metadata_def by (intro net.keeps_then_do keeps_http_client)
qed

subsection \<open>A whole boot\<close>

text \<open>The document a boot uses: what is piped in wins over the metadata services.\<close>

definition document :: "env \<Rightarrow> bytes stage1" where
  "document E =
     then_do (lift (stdin_config E)) (\<lambda>piped.
       case piped of Some b \<Rightarrow> lift (parse_json_to_config E b) | None \<Rightarrow> fetch_cloud_metadata E)"

definition wants_report :: "env \<Rightarrow> bool" where
  "wants_report E \<longleftrightarrow>
     stdin_config E = Inr None \<and> 1 < length (env_args E) \<and> env_args E ! 1 = ''--attest''"

lemma may_then: "may (then_do m f) = then_may (may m) (\<lambda>a. may (f a))"
  by (rule ext) (auto simp: may_def then_may_def then_do_def split: prod.splits sum.splits)

lemma main_inner_document:
  "\<not> wants_report E \<Longrightarrow> main_inner E = then_may (may (document E)) (stage2 E)"
  by (rule ext) (auto simp: main_inner_def document_def wants_report_def then_may_def may_def then_do_def
      split: sum.splits option.splits)

lemma main_inner_report:
  "wants_report E \<Longrightarrow> main_inner E w =
     (case tpm_attest E (w_trace w) (attest_nonce E) of
        None \<Rightarrow> Some (Inl Attest_Failed, emit (Ev_Attest (attest_nonce E)) w)
      | Some report \<Rightarrow> Some (Inr Returned, emit (Ev_Print report) (emit (Ev_Attest (attest_nonce E)) w)))"
  by (simp add: main_inner_def wants_report_def then_may_def may_def attest_def split: option.split)

lemma keeps_document: "keeps only_requests (document E)"
  unfolding document_def
  by (auto intro!: net.keeps_then_do net.keeps_lift keeps_fetch_cloud_metadata split: option.split)

lemma main_inner_fails:
  assumes "main_inner E w = Some (Inl e, w')"
  shows "appends quiet w w'"
proof (cases "wants_report E")
  case True
  with assms show ?thesis
    by (auto simp: main_inner_report appends_emit split: option.splits)
next
  case False
  have "pkeeps (appends quiet) (may (document E))"
    by (rule pkeeps_mono[OF pkeeps_may[OF keeps_document]]) (auto intro: only_requests_appends)
  then have "fail_keeps (appends quiet) (then_may (may (document E)) (stage2 E))"
    by (rule ev.fail_keeps_then_may) (rule stage2_fails)
  with assms False show ?thesis by (simp add: main_inner_document fail_keepsD)
qed

lemma main_inner_Returned:
  assumes "main_inner E w = Some (Inr Returned, w')"
  shows "wants_report E"
    and "\<exists>report. w_trace w' = w_trace w @ [Ev_Attest (attest_nonce E), Ev_Print report]"
proof -
  show report: "wants_report E"
  proof (rule ccontr)
    assume "\<not> wants_report E"
    with assms obtain raw w1 where "stage2 E raw w1 = Some (Inr Returned, w')"
      by (auto simp: main_inner_document res_simps)
    then show False by (rule stage2_Inr) simp
  qed
  show "\<exists>report. w_trace w' = w_trace w @ [Ev_Attest (attest_nonce E), Ev_Print report]"
    using assms report by (auto simp: main_inner_report split: option.splits)
qed

lemma main_inner_Replaced:
  assumes "main_inner E w = Some (Inr Replaced, w')"
  obtains raw w1 where "\<not> wants_report E" and "document E w = (Inr raw, w1)" and "only_requests w w1"
    and "stage2 E raw w1 = Some (Inr Replaced, w')"
proof -
  have "\<not> wants_report E" using assms by (auto simp: main_inner_report split: option.splits)
  with assms that keeps_document show thesis
    by (auto simp: main_inner_document res_simps dest: keepsD)
qed

text \<open>
  The four ways a run of the program ends. In each, everything before the last event or two is
  quiet; a payload is executed in the first only.
\<close>

lemma main_ends:
  assumes "main E start = Some w'"
  obtains (execs) raw w1 w2 binary args stdin_doc reqs report
    where "document E start = (Inr raw, w1)"
      and "resolve_payload E raw w1 = Some (Inr (binary, args, stdin_doc), w2)"
      and "w_trace w' = map Ev_Request reqs @ (if env_uid E = 0 then measurement E binary report else [])
             @ [Ev_Exec binary (''stage2'' # args) stdin_doc]"
      and "\<exists>exe conf. w_files w' = [exe, conf] \<and> mf_sealed exe \<and> mf_data exe = binary
             \<and> mf_data conf = stdin_doc"
  | (reports) report where "wants_report E"
      and "w_trace w' = [Ev_Attest (attest_nonce E), Ev_Print report, Ev_Exit 0]"
  | (fails) es where "list_all quiet es"
      and "w_trace w' = es @ (if env_pid E = 1 then [Ev_Sync, Ev_Power_Off] else [Ev_Exit 1])"
proof -
  obtain r v where inner: "main_inner E start = Some (r, v)"
    using assms by (auto simp: main_def split: option.splits)
  show thesis
  proof (cases r)
    case (Inl e)
    with inner have "appends quiet start v" using main_inner_fails by blast
    then obtain es where "list_all quiet es" "w_trace v = es" by (auto simp: appends_def start_def)
    with assms inner Inl show ?thesis
      by (intro fails[of es]) (auto simp: main_def poweroff_def)
  next
    case (Inr c)
    show ?thesis
    proof (cases c)
      case Returned
      with inner Inr have ret: "main_inner E start = Some (Inr Returned, v)" by simp
      obtain report where "w_trace v = w_trace start @ [Ev_Attest (attest_nonce E), Ev_Print report]"
        using main_inner_Returned(2)[OF ret] by blast
      with assms ret main_inner_Returned(1)[OF ret] show ?thesis
        by (intro reports[of report]) (auto simp: main_def start_def)
    next
      case Replaced
      with inner Inr have run: "main_inner E start = Some (Inr Replaced, v)" by simp
      with assms have "w' = v" by (simp add: main_def)
      with run obtain raw w1 where doc: "document E start = (Inr raw, w1)" "only_requests start w1"
        and s2: "stage2 E raw w1 = Some (Inr Replaced, w')"
        by (auto elim: main_inner_Replaced)
      obtain rs where w1: "w1 = start\<lparr>w_trace := map Ev_Request rs\<rparr>"
        using doc(2) by (auto simp: only_requests_def start_def)
      from s2 show ?thesis
      proof (rule stage2_Inr, goal_cases)
        case (1 binary args stdin_doc w2 reqs report)
        then show ?case
          by (intro execs[of raw w1 binary args stdin_doc w2 "rs @ reqs" report])
             (use doc(1) in \<open>auto simp: w1 start_def\<close>)
      qed
    qed
  qed
qed

text \<open>Nothing is executed along a run that ends in the other two ways.\<close>

lemma quiet_no_exec: "list_all quiet es \<Longrightarrow> Ev_Exec b a i \<notin> set es"
  by (auto simp: list_all_iff)

lemma main_execs:
  assumes "main E start = Some w'" and "Ev_Exec img argv input \<in> set (w_trace w')"
  obtains raw w1 w2 args reqs report
    where "document E start = (Inr raw, w1)"
      and "resolve_payload E raw w1 = Some (Inr (img, args, input), w2)"
      and "argv = ''stage2'' # args"
      and "w_trace w' = map Ev_Request reqs @ (if env_uid E = 0 then measurement E img report else [])
             @ [Ev_Exec img argv input]"
      and "\<exists>exe conf. w_files w' = [exe, conf] \<and> mf_sealed exe \<and> mf_data exe = img
             \<and> mf_data conf = input"
  using assms(1)
proof (cases rule: main_ends)
  case (execs raw w1 w2 binary args stdin_doc reqs report)
  have "img = binary \<and> argv = ''stage2'' # args \<and> input = stdin_doc"
    using assms(2) execs(3) by (auto simp: measurement_def Let_def split: if_splits)
  with execs show ?thesis by (intro that) auto
next
  case (reports report)
  with assms(2) show ?thesis by simp
next
  case (fails es)
  with assms(2) show ?thesis by (auto dest: quiet_no_exec split: if_splits)
qed

lemma exec_is_last:
  assumes "main E start = Some w'" and "Ev_Exec img argv input \<in> set (w_trace w')"
  obtains es where "w_trace w' = es @ [Ev_Exec img argv input]"
  using assms
proof (cases rule: main_execs)
  case (1 raw w1 w2 args reqs report)
  then show thesis by (metis append.assoc that)
qed

subsection \<open>A machine that cooperates boots\<close>

definition cooperates :: "env \<Rightarrow> bool" where
  "cooperates E \<longleftrightarrow> writes_progress E
     \<and> (\<forall>t n x. sys_memfd_create E t n x = None) \<and> (\<forall>t f. sys_add_seals E t f)
     \<and> (\<forall>t f. sys_lseek E t f) \<and> (\<forall>t f. sys_dup2 E t f) \<and> (\<forall>t f a e. sys_execveat E t f a e)
     \<and> (\<forall>t n. tpm_attest E t n \<noteq> None) \<and> (\<forall>t. tpm_open E t) \<and> (\<forall>t n d. tpm_pcr_extend E t n d)
     \<and> (\<forall>t p c. fs_write E t p c)"

lemma make_memfd_returns:
  assumes "cooperates E"
  shows "\<exists>fd w'. make_memfd E name data seal exec w = Some (Inr fd, w')"
proof -
  have create: "create_memfd E name exec w = (Inr (length (w_files w)), snd (new_file name exec w))"
    using assms by (simp add: cooperates_def create_memfd_returns)
  have progress: "writes_progress E" using assms by (simp add: cooperates_def)
  from write_all_returns[OF progress] obtain w2 where
    "write_all E (length (w_files w)) data (snd (new_file name exec w)) = Some (Inr (), w2)" by (rule exE)
  then show ?thesis using assms
    by (simp add: make_memfd_def then_may_def may_def create cooperates_def add_seals_def)
qed

lemma execute_binary_returns:
  assumes "cooperates E" and "\<not> list_ex has_nul args"
  shows "\<exists>w'. execute_binary E data args cfg w = Some (Inr Replaced, w')"
proof -
  obtain fd w1 where exe: "make_memfd E ''stage2'' data True True w = Some (Inr fd, w1)"
    using make_memfd_returns[OF assms(1)] by blast
  obtain cd w2 where conf: "make_memfd E ''stage2-config'' cfg False False w1 = Some (Inr cd, w2)"
    using make_memfd_returns[OF assms(1)] by blast
  have "c_argv args = Inr (''stage2'' # args)" using assms(2) by (simp add: c_argv_def has_nul_def)
  with assms(1) show ?thesis
    by (simp add: execute_binary_def then_may_def exe conf may_def rewind_def dup_to_stdin_def
        execveat_def cooperates_def)
qed

lemma measure_returns:
  assumes "cooperates E"
  shows "\<exists>w'. measure_payload E binary w = (Inr (), w')"
proof (cases "env_uid E = 0")
  case True
  have "\<exists>c. tpm_attest E t n = Some c" for t n using assms by (auto simp: cooperates_def)
  then obtain c where "tpm_attest E (w_trace w) (sha256_digest (env_deps E) binary) = Some c" by blast
  with True assms show ?thesis
    by (simp add: measure_payload_def generate_pre_execution_attestation_def extend_pcrs_def attest_def Let_def
        then_do_def write_file_def open_tpm_def pcr_extend_def cooperates_def)
qed (simp add: measure_payload_def)

lemma main_boots:
  assumes coop: "cooperates E" and "\<not> wants_report E" and doc: "document E start = (Inr raw, w1)"
    and resolved: "resolve_payload E raw w1 = Some (Inr (binary, args, input), w2)"
    and "\<not> list_ex has_nul args"
  shows "\<exists>w'. main E start = Some w' \<and> Ev_Exec binary (''stage2'' # args) input \<in> set (w_trace w')"
proof -
  obtain w3 where measured: "measure_payload E binary w2 = (Inr (), w3)" using measure_returns[OF coop] by blast
  obtain w4 where run: "execute_binary E binary args input w3 = Some (Inr Replaced, w4)"
    using execute_binary_returns[OF coop assms(5)] by blast
  have "stage2 E raw w1 = Some (Inr Replaced, w4)"
    by (simp add: stage2_measure then_may_def resolved may_def measured run)
  then have "main E start = Some w4"
    using assms(2) doc by (simp add: main_def main_inner_document then_may_def may_def)
  moreover have "Ev_Exec binary (''stage2'' # args) input \<in> set (w_trace w4)"
    using execute_binary_Inr(3)[OF run] by simp
  ultimately show ?thesis by blast
qed

lemma main_boots_last:
  assumes "cooperates E" and "\<not> wants_report E" and "document E start = (Inr raw, w1)"
    and "resolve_payload E raw w1 = Some (Inr (binary, args, input), w2)" and "\<not> list_ex has_nul args"
  shows "\<exists>es w'. main E start = Some w' \<and> w_trace w' = es @ [Ev_Exec binary (''stage2'' # args) input]"
  using main_boots[OF assms] by (blast elim: exec_is_last)

end
