(* ===== verification/Deploy_Boot.thy ===== *)
theory Deploy_Boot
  imports Deploy_Laws Stage1_Progress Stage1_Boot
begin

section \<open>From deploy to stage1\<close>

text \<open>
  The two ends of a release meet: what \<open>create\<close> publishes is what \<open>resolve_payload\<close> admits. The
  mirrors serve the files of the directory (\<open>hosts\<close>), the machine was given the \<open>user-data.json\<close> that
  \<open>create\<close> wrote, and both sides use the same crates.
\<close>

definition hosts :: "env \<Rightarrow> string list \<Rightarrow> string \<Rightarrow> (string \<Rightarrow> bytes option) \<Rightarrow> bool" where
  "hosts E bases arch at \<longleftrightarrow>
     (\<forall>base \<in> set bases. \<forall>name \<in> arch_names. \<forall>b. at name = Some b \<longrightarrow> serves E (compose_url arch name base) b)"

text \<open>No \<open>{sha256}\<close> placeholder can hide in the URLs: they have no brace.\<close>

definition brace_free :: "string \<Rightarrow> bool" where
  "brace_free s \<longleftrightarrow> CHR ''{'' \<notin> set s"

lemma str_replace_brace_free: "brace_free s \<Longrightarrow> str_replace (CHR ''{'' # pat) rep s = s"
  by (induction s) (auto simp: brace_free_def starts_with_def)

lemma substitute_brace_free: "\<forall>u \<in> set us. brace_free u \<Longrightarrow> substitute us h = us"
  by (induction us) (simp_all add: substitute_def str_replace_brace_free)

lemma brace_free_compose: "brace_free (compose_url arch name b) \<longleftrightarrow> brace_free b \<and> brace_free arch \<and> brace_free name"
  by (auto simp: brace_free_def compose_url_def)

lemma compose_url_sig: "compose_url arch name b @ ''.sig'' = compose_url arch (name @ ''.sig'') b"
  by (simp add: compose_url_def)

lemma sign_same_key:
  "sign D pem d m = Inr s \<Longrightarrow> sign D pem e n = Inr t \<Longrightarrow> pubkey_b64 s = pubkey_b64 t"
  by (auto simp: sign_def and_then_Inr_iff)

lemma matches_own_digest: "hex_law (env_deps E) \<Longrightarrow> matches_pin E (sha256_hex (env_deps E) b) b"
  by (simp add: matches_pin_def hex_sha256_def sha256_hex_def hex_law_def)

lemma json_lawD: "json_law D \<Longrightarrow> wf_json v \<Longrightarrow> printable v \<Longrightarrow> prints_back D v"
  by (simp add: json_law_def)

lemma print_doc_back:
  assumes "json_law D" and "wf_json doc" and "printable doc"
  shows "value_from_slice D (print_doc D doc) = Some doc" and "json_typed D (print_doc D doc) = Some doc"
    and "\<exists>text. string_from_utf8 (print_doc D doc) = Some text"
  using assms value_roundtrip(3)[of D doc] by (auto simp: print_doc_def json_law_def prints_back_def)

lemma strings_read_back:
  assumes "json_law D"
  shows "strings_from_slice D (json_compact D (ser_strings l)) = Some l"
proof -
  have "printable (ser_strings l)"
    using nesting_urls(2)[of l] by (simp add: printable_def strings_wire.ser_no_float)
  then show ?thesis
    using json_lawD[OF assms strings_wire.ser_wf, of l]
    by (simp add: prints_back_def strings_from_slice_def strings_wire.de_ser)
qed

lemma hostsD:
  "hosts E (base # rest) arch at \<Longrightarrow> name \<in> arch_names \<Longrightarrow> at name = Some b \<Longrightarrow> serves E (compose_url arch name base) b"
  by (simp add: hosts_def)

subsection \<open>The payload\<close>

definition default_args :: "string list option \<Rightarrow> string list" where
  "default_args args = (case args of None \<Rightarrow> [] | Some l \<Rightarrow> l)"

lemma fetch_hosted_args:
  assumes "crate_laws (env_deps E)" and "hosts E (base # rest) arch at"
    and "\<forall>b \<in> set (base # rest). brace_free b" and "brace_free arch"
    and "at ''args.json'' = Some (json_compact (env_deps E) (ser_strings l))"
    and "sign (env_deps E) pem Stage2Args (json_compact (env_deps E) (ser_strings l)) = Inr t"
    and "at ''args.json.sig'' = Some (signature t)"
  shows "\<exists>w'. fetch_signed_args E (compose_urls (base # rest) arch ''args.json'') None (pubkey_b64 t) h w = (Inr l, w')"
proof -
  let ?b = "json_compact (env_deps E) (ser_strings l)"
  have "\<forall>u \<in> set (urls (compose_urls (base # rest) arch ''args.json'')). brace_free u"
    using assms(3,4) by (auto simp: compose_urls_def brace_free_compose) (simp_all add: brace_free_def)
  then have urls: "substitute (urls (compose_urls (base # rest) arch ''args.json'')) h
      = compose_url arch ''args.json'' base # map (compose_url arch ''args.json'') rest"
    by (simp add: substitute_brace_free) (simp add: compose_urls_def)
  have served: "serves E (compose_url arch ''args.json'' base) ?b"
    "serves E (compose_url arch ''args.json.sig'' base) (signature t)"
    using assms(5,7) by (auto intro!: hostsD[OF assms(2)] simp: arch_names_def)
  have sig: "compose_url arch ''args.json'' base @ ''.sig'' = compose_url arch ''args.json.sig'' base"
    by (simp add: compose_url_def)
  have "verify (env_deps E) (pubkey_b64 t) Stage2Args ?b (signature t) = Inr ()"
    using verify_signed crate_lawsD[OF assms(1)] assms(6) by blast
  then show ?thesis
    using strings_read_back[OF crate_lawsD(6)[OF assms(1)]]
    by (simp add: fetch_signed_args_def urls then_do_def download_first_head_serves[OF served(1)]
        sig download_first_head_serves[OF served(2)])
qed

lemma admit_hosted_pin:
  assumes "crate_laws (env_deps E)" and "serves E u b" and "p_sha256 p = Some (sha256_hex (env_deps E) b)" and "p_args p = args"
  shows "\<exists>sargs w'. admit_from E u (mode_of p) w = (Inr (b, sargs), w') \<and> final_args p sargs = default_args args"
proof -
  have "verify_checksum E b (sha256_hex (env_deps E) b) = Inr ()"
    using matches_own_digest[OF crate_lawsD(2)[OF assms(1)], of b] by (simp add: verify_checksum_Inr_iff)
  then show ?thesis
    using assms(3,4)
    by (simp add: admit_from_def then_do_def download_serves[OF assms(2)] mode_of_def final_args_def default_args_def)
qed

lemma admit_hosted_signed:
  assumes "crate_laws (env_deps E)" and "hosts E (base # rest) arch at"
    and "\<forall>b \<in> set (base # rest). brace_free b" and "brace_free arch"
    and "u = compose_url arch ''stage2'' base" and "serves E u b"
    and "p_sha256 p = None" "p_ed25519 p = Some (pubkey_b64 s)" "p_sig_url p = None" "p_args_sig_url p = None"
    and "sign (env_deps E) pem Stage2Payload b = Inr s" "at ''stage2.sig'' = Some (signature s)"
    and "args_hosted (env_deps E) at (base # rest) arch pem p args"
  shows "\<exists>sargs w'. admit_from E u (mode_of p) w = (Inr (b, sargs), w') \<and> final_args p sargs = default_args args"
proof -
  have sig: "serves E (u @ ''.sig'') (signature s)"
    using hostsD[OF assms(2) _ assms(12)] by (simp add: assms(5) compose_url_sig arch_names_def)
  have good: "verify (env_deps E) (pubkey_b64 s) Stage2Payload b (signature s) = Inr ()"
    using verify_signed crate_lawsD[OF assms(1)] assms(11) by blast
  note run = admit_from_def then_do_def download_serves[OF assms(6)] download_first_head_serves[OF sig]
    mode_of_def assms(7-10) good Let_def
  show ?thesis
  proof (cases "p_args_url p")
    case None
    with assms(13) show ?thesis by (auto simp: args_hosted_def run final_args_def default_args_def)
  next
    case (Some au)
    with assms(13) obtain l t where l: "args = Some l" "au = compose_urls (base # rest) arch ''args.json''"
      "at ''args.json'' = Some (json_compact (env_deps E) (ser_strings l))"
      "sign (env_deps E) pem Stage2Args (json_compact (env_deps E) (ser_strings l)) = Inr t"
      "at ''args.json.sig'' = Some (signature t)"
      by (auto simp: args_hosted_def)
    have key: "pubkey_b64 s = pubkey_b64 t" using assms(11) l(4) by (rule sign_same_key)
    let ?w = "emit (Ev_Request (get_request (u @ ''.sig''))) (emit (Ev_Request (get_request u)) w)"
    obtain w2 where fetched: "fetch_signed_args E au None (pubkey_b64 t) (hex_sha256 E b) ?w = (Inr l, w2)"
      using fetch_hosted_args[OF assms(1-4) l(3-5)] l(2) by blast
    have "admit_from E u (mode_of p) w = (Inr (b, Some l), w2)" using good fetched by (simp add: run Some key)
    then show ?thesis using l(1) by (simp add: final_args_def default_args_def)
  qed
qed

lemma admit_hosted:
  assumes "crate_laws (env_deps E)" and "hosts E (base # rest) arch at"
    and "\<forall>b \<in> set (base # rest). brace_free b" and "brace_free arch"
    and "payload_hosted (env_deps E) at (base # rest) arch p b args"
  shows "\<exists>sargs w'. admit_payload E (urls (p_url p)) (mode_of p) w = (Inr (b, sargs), w')
    \<and> final_args p sargs = default_args args"
proof -
  let ?u = "compose_url arch ''stage2'' base"
  from assms(5) have url: "urls (p_url p) = ?u # map (compose_url arch ''stage2'') rest" and served: "serves E ?u b"
    by (auto simp: payload_hosted_def compose_urls_def arch_names_def intro: hostsD[OF assms(2)])
  have "\<exists>sargs w'. admit_from E ?u (mode_of p) w = (Inr (b, sargs), w') \<and> final_args p sargs = default_args args"
  proof (cases "p_sha256 p")
    case (Some pin)
    with assms(5) show ?thesis
      by (intro admit_hosted_pin[OF assms(1) served]) (auto simp: payload_hosted_def)
  next
    case None
    with assms(5) obtain pem s where "p_ed25519 p = Some (pubkey_b64 s)" "p_sig_url p = None" "p_args_sig_url p = None"
      "sign (env_deps E) pem Stage2Payload b = Inr s" "at ''stage2.sig'' = Some (signature s)"
      "args_hosted (env_deps E) at (base # rest) arch pem p args"
      by (auto simp: payload_hosted_def)
    with None show ?thesis by (rule admit_hosted_signed[OF assms(1-4) refl served])
  qed
  then show ?thesis
    unfolding admit_payload_def url using adm.head_success by blast
qed

subsection \<open>What is published is allowed\<close>

definition graphic :: "string \<Rightarrow> bool" where
  "graphic s \<longleftrightarrow> (\<forall>c \<in> set s. 33 \<le> (of_char c :: nat) \<and> (of_char c :: nat) \<le> 126)"

lemma url_allowed_compose:
  assumes "starts_with b ''http://''"
  shows "url_allowed profile (compose_url arch name b) \<longleftrightarrow> graphic b \<and> graphic arch \<and> graphic name"
proof -
  obtain r where "b = ''http://'' @ r" using assms by (auto simp: starts_with_iff)
  then have "\<exists>r. compose_url arch name b = ''http://'' @ r" by (simp add: compose_url_def)
  then show ?thesis
    unfolding url_allowed_def graphic_def by (auto simp: compose_url_def)
qed

lemma list_allowed_compose:
  assumes "\<forall>b \<in> set bases. starts_with b ''http://''" and "list_allowed profile (compose_urls bases arch name)"
    and "graphic name'"
  shows "list_allowed profile' (compose_urls bases arch name')"
  using assms unfolding list_allowed_def compose_urls_def
  by (auto simp: url_allowed_compose)

lemma hex_lower_digits: "list_all is_ascii_hexdigit (hex_lower b)"
proof -
  have "\<forall>n \<in> set [0..<16]. is_ascii_hexdigit (hex_digit n)"
    by (simp add: hex_digit_def is_ascii_hexdigit_def upt_conv_Cons)
  then have "is_ascii_hexdigit (hex_digit (n mod 16))" for n by simp
  then have "is_ascii_hexdigit (hex_digit n)" for n by (simp add: hex_digit_def)
  then show ?thesis by (induction b) (simp_all add: hex_lower_def hex_byte_def)
qed

lemma ok_sha256_own: "sha256_law D \<Longrightarrow> ok_sha256 (sha256_hex D b)"
  by (simp add: ok_sha256_def sha256_hex_def sha256_law_def hex_lower_digits)

lemma signed_key_allowed:
  assumes "b64_law D" and "ed_sign_law D" and "sign D pem d b = Inr s"
  shows "key_allowed D (pubkey_b64 s)"
  using assms(3) by (auto simp: sign_def and_then_Inr_iff key_allowed_def b64_trim[OF assms(1)]
      b64_decode_encode[OF assms(1)] assms(2)[unfolded ed_sign_law_def])

lemma hosted_payload_allowed:
  assumes "crate_laws D" and "payload_hosted D at bases arch p b args"
    and "\<forall>b \<in> set bases. starts_with b ''http://''" and "list_allowed profile (compose_urls bases arch name)"
  shows "payload_allowed D Stage1 p"
proof -
  have lists: "list_allowed Stage1 (compose_urls bases arch ''stage2'')"
    "list_allowed Stage1 (compose_urls bases arch ''args.json'')"
    by (rule list_allowed_compose[OF assms(3,4)]; simp add: graphic_def)+
  from assms(2) show ?thesis
    using lists ok_sha256_own[OF crate_lawsD(1)[OF assms(1)]]
      signed_key_allowed[OF crate_lawsD(3)[OF assms(1)] crate_lawsD(5)[OF assms(1)]]
    unfolding payload_hosted_def payload_allowed_def
    by (auto simp: opt_list_allowed_def args_hosted_def)
qed

subsection \<open>Resolution\<close>

lemma payload_step_hosted:
  assumes "crate_laws (env_deps E)" and "hosts E (base # rest) arch at"
    and "\<forall>b \<in> set (base # rest). brace_free b" and "brace_free arch"
    and "payload_hosted (env_deps E) at (base # rest) arch p b args"
    and "payload_allowed (env_deps E) Stage1 p" and "arch_value (arch_key E) doc = Some (JObj e)"
  shows "\<exists>input w'. payload_step E raw doc h p w = (Inr (Return (b, default_args args, input)), w')
    \<and> (h = [] \<longrightarrow> input = raw)"
proof -
  obtain sargs w1 where adm: "admit_payload E (urls (p_url p)) (mode_of p) w = (Inr (b, sargs), w1)"
    and args: "final_args p sargs = default_args args"
    using admit_hosted[OF assms(1-5)] by blast
  have mode: "admission (env_deps E) p Stage1 = Inr (mode_of p)"
    using assms(6) by (simp add: admission_Inr_iff)
  obtain doc' where "set_resolved_manifests doc (arch_key E) h = Some doc'"
    using update_arch_entry_defined[OF assms(7)] by (auto simp: set_resolved_manifests_def)
  then show ?thesis
    using args by (simp add: payload_step_def mode then_do_def adm Let_def final_args_def)
qed

lemma fetch_hosted_manifest:
  assumes "crate_laws (env_deps E)" and "hosts E (base # rest) arch at"
    and "manifest_hosted (env_deps E) at (base # rest) arch p m"
  shows "\<exists>w'. fetch_manifest E m w = (let b = json_pretty (env_deps E) (manifest_fragment ''_stage2'' arch p)
    in (Inr (compose_url arch ''stage2.manifest.json'' base, b, hex_sha256 E b), w'))"
proof -
  let ?b = "json_pretty (env_deps E) (manifest_fragment ''_stage2'' arch p)"
  let ?u = "compose_url arch ''stage2.manifest.json'' base"
  from assms(3) obtain pem s where m: "urls (m_url m) = ?u # map (compose_url arch ''stage2.manifest.json'') rest"
    "m_sig_url m = None" "m_sha256 m = None" "m_ed25519 m = pubkey_b64 s"
    and s: "sign (env_deps E) pem Stage2Manifest ?b = Inr s"
    and at: "at ''stage2.manifest.json'' = Some ?b" "at ''stage2.manifest.json.sig'' = Some (signature s)"
    by (auto simp: manifest_hosted_def compose_urls_def Let_def)
  have served: "serves E ?u ?b" "serves E (?u @ ''.sig'') (signature s)"
    using hostsD[OF assms(2) _ at(1)] hostsD[OF assms(2) _ at(2)]
    by (simp_all add: arch_names_def compose_url_sig)
  have "verify (env_deps E) (pubkey_b64 s) Stage2Manifest ?b (signature s) = Inr ()"
    using verify_signed crate_lawsD[OF assms(1)] s by blast
  then obtain w1 where "try_fetch_manifest E m ?u w = (Inr (?b, hex_sha256 E ?b), w1)"
    by (simp add: try_fetch_manifest_def then_do_def download_serves[OF served(1)] Let_def m
        download_first_head_serves[OF served(2)])
  then show ?thesis by (simp add: fetch_manifest_def m(1) Let_def)
qed

lemma wf_fragment: "wf_json (manifest_fragment st arch p)" "printable (manifest_fragment st arch p)"
  using nesting_refs(1)[of p]
  by (simp_all add: manifest_fragment_def printable_def payload_wire.ser_wf payload_wire.ser_no_float)

lemma merge_fragment:
  assumes "arch_value arch doc = Some (JObj em)"
  shows "arch_value arch (deep_merge doc (manifest_fragment ''_stage2'' arch p))
    = Some (JObj (merge_members em [(''payload'', ser_payload p)]))"
proof -
  obtain d s where "doc = JObj d" "bt_get d ''_stage2'' = Some (JObj s)" "bt_get s arch = Some (JObj em)"
  proof (cases doc)
    case (JObj d)
    with assms obtain v where v: "bt_get d ''_stage2'' = Some v" "get v arch = Some (JObj em)"
      by (auto simp: arch_value_def split: option.splits)
    then obtain s where "v = JObj s" using get_Some_object by blast
    with v JObj that show thesis by simp
  qed (use assms in \<open>simp_all add: arch_value_def\<close>)
  then show ?thesis by (simp add: manifest_fragment_def arch_value_def)
qed

lemma ser_direct: "ser_arch_config (direct_entry p) = JObj [(''payload'', ser_payload p)]"
  by (simp add: ser_arch_config_def direct_entry_def member_def btree_of_def)

lemma ser_pointer:
  "ac_entry e = Manifest_Entry m \<Longrightarrow> ac_resolved_manifests e = [] \<Longrightarrow>
     ser_arch_config e = JObj [(''manifest'', ser_manifest_ref m)]"
  by (simp add: ser_arch_config_def member_def btree_of_def)

lemma doc_entry_ser:
  "arch_value (arch_key E) doc = Some (ser_arch_config e) \<Longrightarrow> doc_entry E doc = Some (ac_entry e)"
  by (simp add: doc_entry_def arch_config_wire.de_ser)

lemma consumed_value:
  assumes "arch_value arch doc = Some (JObj [(''manifest'', v)])"
  shows "arch_value arch (consume_pointer arch doc) = Some (JObj [])"
proof -
  obtain doc' where "update_arch_entry arch (bt_remove ''manifest'') doc = Some doc'"
    using update_arch_entry_defined[OF assms] by blast
  with assms show ?thesis
    by (auto simp: consume_pointer_def bt_remove_def elim!: update_arch_entry_value)
qed

lemma resolve_step_ser:
  assumes "arch_value (arch_key E) doc = Some (ser_arch_config e)"
  shows "resolve_step E raw doc h w =
    (case ac_entry e of Payload_Entry p \<Rightarrow> payload_step E raw doc h p w | Manifest_Entry m \<Rightarrow> manifest_step E doc h m w)"
  using assms by (simp add: resolve_step_def arch_config_wire.de_ser split: entry.split)

lemma resolve_loop_Return:
  "resolve_step E raw doc h w = (Inr (Return x), w') \<Longrightarrow> resolve_loop E raw doc h w = Some (Inr x, w')"
  by (subst resolve_loop.simps) simp

text \<open>
  A release on its mirrors. The payload is where the entry says, or where the fragment the entry's
  manifest signs says; that manifest may be on other mirrors (\<open>mbases\<close>) than its payload (\<open>bases\<close>).
\<close>

definition release_entry ::
    "env \<Rightarrow> (string \<Rightarrow> bytes option) \<Rightarrow> string \<Rightarrow> arch_config \<Rightarrow> payload \<Rightarrow> bool" where
  "release_entry E at arch e p \<longleftrightarrow>
     ac_resolved_manifests e = [] \<and> payload_allowed (env_deps E) Stage1 p
     \<and> (ac_entry e = Payload_Entry p
        \<or> (\<exists>m mbases. ac_entry e = Manifest_Entry m \<and> manifest_hosted (env_deps E) at mbases arch p m
            \<and> manifest_allowed (env_deps E) Stage1 m \<and> hosts E mbases arch at))"

lemma list_allowed_compose_Cons:
  "list_allowed profile (compose_urls bases arch name) \<Longrightarrow> \<exists>base rest. bases = base # rest"
  by (cases bases) (auto simp: list_allowed_def compose_urls_def)

lemma hosted_bases:
  assumes "payload_hosted D at bases arch p b args" and "payload_allowed D Stage1 p"
  obtains base rest where "bases = base # rest"
  using assms list_allowed_compose_Cons[of Stage1 bases arch "''stage2''"]
  by (auto simp: payload_hosted_def payload_allowed_def)

lemma resolve_direct:
  assumes laws: "crate_laws (env_deps E)" and hosts: "hosts E bases arch at"
    and braces: "\<forall>b \<in> set bases. brace_free b" "brace_free arch" and arch: "arch_key E = arch"
    and p: "payload_hosted (env_deps E) at bases arch p b args" "payload_allowed (env_deps E) Stage1 p"
    and val: "arch_value arch doc = Some (JObj [(''payload'', ser_payload p)])"
  shows "\<exists>input w'. resolve_step E raw doc h w = (Inr (Return (b, default_args args, input)), w') \<and> (h = [] \<longrightarrow> input = raw)"
proof -
  obtain base rest where bases: "bases = base # rest" using p by (rule hosted_bases)
  have "arch_value (arch_key E) doc = Some (ser_arch_config (direct_entry p))"
    using val arch by (simp add: ser_direct)
  from resolve_step_ser[OF this, of raw h w]
  have "resolve_step E raw doc h w = payload_step E raw doc h p w" by (simp add: direct_entry_def)
  moreover obtain input w' where "payload_step E raw doc h p w = (Inr (Return (b, default_args args, input)), w')"
    "h = [] \<longrightarrow> input = raw"
    using payload_step_hosted[OF laws hosts[unfolded bases] braces(1)[unfolded bases] braces(2)
        p(1)[unfolded bases] p(2) val[folded arch], of raw h w] by blast
  ultimately show ?thesis by simp
qed

lemma resolve_pointer:
  assumes laws: "crate_laws (env_deps E)" and arch: "arch_key E = arch"
    and m: "manifest_hosted (env_deps E) at mbases arch p m" "manifest_allowed (env_deps E) Stage1 m" "hosts E mbases arch at"
    and val: "arch_value arch doc = Some (JObj [(''manifest'', ser_manifest_ref m)])"
  shows "\<exists>doc' h w'. resolve_step E raw doc [] w = (Inr (Again doc' h), w')
    \<and> arch_value arch doc' = Some (JObj [(''payload'', ser_payload p)])"
proof -
  obtain base rest where bases: "mbases = base # rest"
    using m(1,2) list_allowed_compose_Cons[of Stage1 mbases arch "''stage2.manifest.json''"]
    by (auto simp: manifest_hosted_def manifest_allowed_def)
  let ?b = "json_pretty (env_deps E) (manifest_fragment ''_stage2'' arch p)"
  let ?u = "compose_url arch ''stage2.manifest.json'' base"
  let ?doc = "deep_merge (consume_pointer arch doc) (manifest_fragment ''_stage2'' arch p)"
  obtain w1 where fetched: "fetch_manifest E m w = (Inr (?u, ?b, hex_sha256 E ?b), w1)"
    using fetch_hosted_manifest[OF laws m(3)[unfolded bases] m(1)[unfolded bases], of w] by (auto simp: Let_def)
  have read: "value_from_slice (env_deps E) ?b = Some (manifest_fragment ''_stage2'' arch p)"
    using value_roundtrip(2) json_lawD[OF crate_lawsD(6)[OF laws]] wf_fragment by blast
  have valid: "manifest_validate (env_deps E) m Stage1 = Inr ()"
    using m(2) by (simp add: manifest_validate_Inr_iff)
  let ?e = "\<lparr>ac_entry = Manifest_Entry m, ac_resolved_manifests = []\<rparr>"
  have "arch_value (arch_key E) doc = Some (ser_arch_config ?e)"
    using val arch ser_pointer[of ?e m] by simp
  from resolve_step_ser[OF this, of raw "[]" w]
  have "resolve_step E raw doc [] w = (Inr (Again ?doc [hop_record m ?u (hex_sha256 E ?b)]), w1)"
    by (simp add: manifest_step_def then_do_def valid fetched seen_before_def read arch)
  moreover have "arch_value arch ?doc = Some (JObj [(''payload'', ser_payload p)])"
    using merge_fragment[OF consumed_value[OF val], of p] by simp
  ultimately show ?thesis by blast
qed

lemma resolve_hosted:
  assumes laws: "crate_laws (env_deps E)" and hosts: "hosts E bases arch at"
    and braces: "\<forall>b \<in> set bases. brace_free b" "brace_free arch" and arch: "arch_key E = arch"
    and doc: "value_from_slice (env_deps E) raw = Some doc" "arch_value arch doc = Some (ser_arch_config e)"
    and p: "payload_hosted (env_deps E) at bases arch p b args" and entry: "release_entry E at arch e p"
  shows "\<exists>input w'. resolve_payload E raw w = Some (Inr (b, default_args args, input), w')
    \<and> ((\<exists>p. ac_entry e = Payload_Entry p) \<longrightarrow> input = raw)"
proof -
  from entry have plain: "ac_resolved_manifests e = []" and good: "payload_allowed (env_deps E) Stage1 p"
    by (auto simp: release_entry_def)
  note direct = resolve_direct[OF laws hosts braces arch p good]
  show ?thesis
  proof (cases "ac_entry e = Payload_Entry p")
    case True
    have "e = direct_entry p" using True plain by (simp add: direct_entry_def)
    with direct[of doc raw "[]" w] doc(2) have "\<exists>w'. resolve_step E raw doc [] w = (Inr (Return (b, default_args args, raw)), w')"
      by (auto simp: ser_direct)
    with doc(1) show ?thesis by (auto simp: resolve_payload_def dest: resolve_loop_Return)
  next
    case False
    with entry obtain m mbases where m: "ac_entry e = Manifest_Entry m"
      and hosted: "manifest_hosted (env_deps E) at mbases arch p m" "manifest_allowed (env_deps E) Stage1 m"
        "hosts E mbases arch at"
      by (auto simp: release_entry_def)
    obtain doc' h w1 where hop: "resolve_step E raw doc [] w = (Inr (Again doc' h), w1)"
      and val: "arch_value arch doc' = Some (JObj [(''payload'', ser_payload p)])"
      using resolve_pointer[OF laws arch hosted, of doc raw w] doc(2) ser_pointer[OF m plain] by auto
    obtain input w2 where "resolve_step E raw doc' h w1 = (Inr (Return (b, default_args args, input)), w2)"
      using direct[OF val, of raw h w1] by blast
    then have "resolve_loop E raw doc [] w = Some (Inr (b, default_args args, input), w2)"
      using hop by (subst resolve_loop.simps) (simp add: resolve_loop_Return)
    with doc(1) m show ?thesis by (auto simp: resolve_payload_def)
  qed
qed

text \<open>An entry as \<open>create\<close> makes it, on the mirrors it was made for.\<close>

lemma hosted_release_entry:
  assumes "crate_laws (env_deps E)" and "entry_hosted (env_deps E) at bases arch e b args"
    and "entry_allowed (env_deps E) Stage1 e" and "\<forall>b \<in> set bases. starts_with b ''http://''" and "hosts E bases arch at"
  obtains p where "payload_hosted (env_deps E) at bases arch p b args" and "release_entry E at arch e p"
proof -
  from assms(2) obtain p where plain: "ac_resolved_manifests e = []"
    and p: "payload_hosted (env_deps E) at bases arch p b args"
    and cases: "ac_entry e = Payload_Entry p
      \<or> (\<exists>m. ac_entry e = Manifest_Entry m \<and> manifest_hosted (env_deps E) at bases arch p m)"
    by (auto simp: entry_hosted_def)
  from cases assms(3) p obtain name where list: "list_allowed Stage1 (compose_urls bases arch name)"
    by (auto simp: entry_allowed_def payload_allowed_def payload_hosted_def manifest_allowed_def manifest_hosted_def)
  have "payload_allowed (env_deps E) Stage1 p"
    using hosted_payload_allowed[OF assms(1) p assms(4) list] .
  then have "release_entry E at arch e p"
    using plain cases assms(3,5) by (auto simp: release_entry_def entry_allowed_def)
  with p show thesis by (rule that)
qed

text \<open>The document \<open>create\<close> wrote is the one the machine gets.\<close>

lemma create_resolves:
  assumes "create H a fs = (Inr u, fs')" and "plain_arch (c_arch a)" and "brace_free (c_arch a)"
    and "\<forall>b \<in> set (x_bases (create_ctx a)). brace_free b"
    and "env_deps E = h_deps H" and "crate_laws (h_deps H)" and "arch_key E = c_arch a"
    and "hosts E (x_bases (create_ctx a)) (c_arch a) (published a fs')"
    and "\<And>doc. old_doc H a fs = Some doc \<Longrightarrow> printable doc"
  shows "\<exists>raw b input w'. f_data fs' (ud_path a) = Some raw \<and> published a fs' ''stage2'' = Some b
    \<and> resolve_payload E raw w = Some (Inr (b, default_args (given_args H a), input), w')
    \<and> (\<not> c_manifest a \<longrightarrow> input = raw)"
  using assms(1,2)
proof (rule create_Inr, goal_cases)
  case (1 e1 e2 doc doc' b)
  note doc = 1(1-3) and allowed = 1(5) and hosted = 1(6) and http = 1(8) and direct = 1(9)
  have doc': "wf_json doc'" "printable doc'"
    using merge_doc_wf[OF doc(2)] merge_doc_printable[OF doc(2)] wf_old_doc assms(9) doc(1) by blast+
  have read: "value_from_slice (env_deps E) (print_doc (h_deps H) doc') = Some doc'"
    unfolding assms(5) using print_doc_back(1)[OF crate_lawsD(6)[OF assms(6)]] doc' by blast
  have "arch_value (c_arch a) doc' = Some (ser_arch_config e2)"
    using merge_doc_get(2)[OF doc(2)] by (auto simp: arch_value_def split: option.splits)
  from hosted_release_entry[OF assms(6)[folded assms(5)] hosted[folded assms(5)] allowed[folded assms(5)] http assms(8)]
  obtain p where p: "payload_hosted (env_deps E) (published a fs') (x_bases (create_ctx a)) (c_arch a) p b (given_args H a)"
    "release_entry E (published a fs') (c_arch a) e2 p" .
  from resolve_hosted[OF assms(6)[folded assms(5)] assms(8,4,3,7) read \<open>arch_value (c_arch a) doc' = _\<close> p, of w]
  obtain input w' where run: "resolve_payload E (print_doc (h_deps H) doc') w = Some (Inr (b, default_args (given_args H a), input), w')"
    "(\<exists>p. ac_entry e2 = Payload_Entry p) \<longrightarrow> input = print_doc (h_deps H) doc'" by blast
  have "published a fs' ''stage2'' = Some b"
    using hosted by (auto simp: entry_hosted_def payload_hosted_def)
  with run doc(3) direct show ?case by blast
qed

text \<open>What is in \<open>user-data.json\<close> after \<open>create\<close>.\<close>

lemma create_merges:
  assumes "create H a fs = (Inr u, fs')" and "plain_arch (c_arch a)" and "crate_laws (h_deps H)"
    and "\<And>doc. old_doc H a fs = Some doc \<Longrightarrow> printable doc"
  obtains doc doc' raw e1 e2 where "old_doc H a fs = Some doc" and "merge_doc (c_arch a) e1 e2 doc = Inr doc'"
    and "entry_allowed (h_deps H) Stage0 e1" and "entry_allowed (h_deps H) Stage1 e2"
    and "f_data fs' (ud_path a) = Some raw" and "value_from_slice (h_deps H) raw = Some doc'"
    and "json_typed (h_deps H) raw = Some doc'" and "\<exists>text. string_from_utf8 raw = Some text"
    and "touches (insert (ud_path a) (arch_files a)) fs fs'"
  using assms(1,2)
proof (rule create_Inr, goal_cases)
  case (1 e1 e2 doc doc' b)
  have doc': "wf_json doc'" "printable doc'"
    using merge_doc_wf[OF 1(3)] merge_doc_printable[OF 1(3)] wf_old_doc assms(4) 1(2) by blast+
  note reads = print_doc_back[OF crate_lawsD(6)[OF assms(3)] doc']
  show ?case by (rule that[OF 1(2,3,5,6,4) reads(1,2,3) 1(8)])
qed

lemma created_document_sound:
  assumes "create H a fs = (Inr u, fs')" and "c_arch a \<in> {''x86_64'', ''aarch64''}" and "crate_laws (h_deps H)"
    and "\<And>doc. old_doc H a fs = Some doc \<Longrightarrow> printable doc \<and> sound_doc (h_deps H) doc"
  shows "\<exists>raw ud text. f_data fs' (ud_path a) = Some raw \<and> string_from_utf8 raw = Some text
    \<and> user_data_from_slice (h_deps H) raw = Some ud \<and> document_allowed (h_deps H) ud"
proof -
  have plain: "plain_arch (c_arch a)" using assms(2) by (auto simp: plain_arch_def)
  from assms(1) plain assms(3) show ?thesis
  proof (rule create_merges)
    fix doc doc' raw e1 e2
    assume doc: "old_doc H a fs = Some doc" "merge_doc (c_arch a) e1 e2 doc = Inr doc'"
      and allowed: "entry_allowed (h_deps H) Stage0 e1" "entry_allowed (h_deps H) Stage1 e2"
      and raw: "f_data fs' (ud_path a) = Some raw" "json_typed (h_deps H) raw = Some doc'"
      and utf8: "\<exists>text. string_from_utf8 raw = Some text"
    have "\<exists>ud. de_user_data doc' = Some ud \<and> document_allowed (h_deps H) ud"
      using merged_document[OF doc(2) wf_old_doc[OF doc(1)] assms(2) _ allowed] assms(4)[OF doc(1)] by blast
    with raw utf8 show ?thesis by (auto simp: user_data_from_slice_def)
  qed (use assms(4) in blast)
qed

text \<open>The machine reads the document from its standard input.\<close>

lemma piped_document:
  assumes "stdin_config E = Inr (Some raw)" and "user_data_from_slice (env_deps E) raw \<noteq> None"
  shows "document E w = (Inr raw, w)" and "\<not> wants_report E"
  using assms
  by (auto simp: document_def then_do_def parse_json_to_config_def user_data_from_slice_def wants_report_def
      split: option.split)

end
