(* ===== verification/Deploy_Total.thy ===== *)
theory Deploy_Total
  imports Deploy_Boot
begin

section \<open>deploy: when \<open>create\<close> cannot fail\<close>

text \<open>
  \<open>create\<close> has some twenty early returns. These lemmas run it forwards: on a host whose disk takes every
  write, for inputs that are there and arguments that make sense together, none of them is taken.
\<close>

definition willing :: "host \<Rightarrow> bool" where
  "willing H \<longleftrightarrow> (\<forall>p. h_write H p = Written \<and> h_can_read H p \<and> h_can_mkdir H p)"

definition signable :: "deps \<Rightarrow> string \<Rightarrow> bool" where
  "signable D pem \<longleftrightarrow> (\<exists>seed. seed_from_pkcs8_pem D pem = Inr seed)"

definition text_file :: "files \<Rightarrow> string \<Rightarrow> string \<Rightarrow> bool" where
  "text_file fs path s \<longleftrightarrow> (\<exists>b. f_data fs path = Some b \<and> string_from_utf8 b = Some s)"

text \<open>The bases are http and printable; the key is one where a key is needed; \<open>clap\<close> checks the latter too.\<close>

definition good_bases :: "create_args \<Rightarrow> bool" where
  "good_bases a \<longleftrightarrow> x_bases (create_ctx a) \<noteq> [] \<and> graphic (c_arch a)
     \<and> (\<forall>b \<in> set (x_bases (create_ctx a)). starts_with b ''http://'' \<and> graphic b)"

definition good_key :: "host \<Rightarrow> create_args \<Rightarrow> files \<Rightarrow> bool" where
  "good_key H a fs \<longleftrightarrow>
     (case c_key a of
        None \<Rightarrow> \<not> c_sign_args a \<and> \<not> c_manifest a
      | Some p \<Rightarrow> \<not> (c_sign_args a \<and> c_manifest a) \<and> (\<exists>pem. text_file fs p pem \<and> signable (h_deps H) pem))"

definition good_inputs :: "host \<Rightarrow> create_args \<Rightarrow> files \<Rightarrow> bool" where
  "good_inputs H a fs \<longleftrightarrow> f_data fs (c_uki a) \<noteq> None \<and> f_data fs (c_stage2 a) \<noteq> None
     \<and> (c_args a \<noteq> None \<longrightarrow> given_args H a \<noteq> None)"

text \<open>The document to merge into is absent, or one whose stages are objects.\<close>

definition mergeable :: "json \<Rightarrow> bool" where
  "mergeable doc \<longleftrightarrow> is_object doc \<and> (\<forall>st \<in> stages. \<forall>v. get doc st = Some v \<longrightarrow> is_object v)"

definition good_document :: "host \<Rightarrow> create_args \<Rightarrow> files \<Rightarrow> bool" where
  "good_document H a fs \<longleftrightarrow>
     (path_exists H (ud_path a) fs \<longrightarrow> (\<exists>s. text_file fs (ud_path a) s))
     \<and> (\<exists>doc. old_doc H a fs = Some doc \<and> mergeable doc)"

subsection \<open>Each operation goes through\<close>

definition grows :: "files \<Rightarrow> files \<Rightarrow> bool" where
  "grows fs fs' \<longleftrightarrow> (\<forall>p. f_data fs p \<noteq> None \<longrightarrow> f_data fs' p \<noteq> None)"

lemma grows_put: "grows fs (put_file p b fs)"
  by (simp add: grows_def)

lemma grows_trans: "grows fs fs1 \<Longrightarrow> grows fs1 fs2 \<Longrightarrow> grows fs fs2"
  by (simp add: grows_def)

lemma sign_runs: "signable D pem \<Longrightarrow> \<exists>s. sign D pem d m = Inr s"
  by (auto simp: signable_def sign_def)

lemma write_runs: "willing H \<Longrightarrow> write_bytes H p b fs = (Inr (), put_file p b fs)"
  by (simp add: willing_def write_bytes_Inr)

lemma read_runs: "willing H \<Longrightarrow> f_data fs p = Some b \<Longrightarrow> read_bytes H p fs = (Inr b, fs)"
  by (simp add: willing_def read_bytes_Inr)

lemma read_text_runs: "willing H \<Longrightarrow> text_file fs p s \<Longrightarrow> read_to_string H p fs = (Inr s, fs)"
  by (auto simp: willing_def text_file_def read_to_string_Inr)

lemma build_payload_runs:
  assumes "willing H" and "f_data fs src \<noteq> None" and "\<And>pem. key = Some pem \<Longrightarrow> signable (h_deps H) pem"
  shows "\<exists>p fs'. build_payload H ctx name src key d fs = (Inr p, fs') \<and> grows fs fs'"
proof -
  obtain b where b: "f_data fs src = Some b" using assms(2) by blast
  show ?thesis
  proof (cases key)
    case None
    then show ?thesis
      by (simp add: build_payload_def then_do_def read_runs[OF assms(1) b] write_runs[OF assms(1)] Let_def grows_put)
  next
    case (Some pem)
    obtain s where "sign (h_deps H) pem d b = Inr s" using sign_runs[OF assms(3)[OF Some]] by blast
    then show ?thesis
      using grows_trans[OF grows_put grows_put]
      by (simp add: build_payload_def then_do_def read_runs[OF assms(1) b] write_runs[OF assms(1)] Let_def Some)
  qed
qed

lemma attach_args_runs:
  assumes "willing H" and "c_args a \<noteq> None \<longrightarrow> given_args H a \<noteq> None"
    and "c_sign_args a \<Longrightarrow> \<exists>pem. key = Some pem \<and> signable (h_deps H) pem"
  shows "\<exists>p' fs'. attach_args H a ctx key p fs = (Inr p', fs')"
proof (cases "c_args a")
  case None
  then show ?thesis by (simp add: attach_args_def)
next
  case (Some j)
  then obtain l where l: "strings_from_slice (h_deps H) (str_bytes j) = Some l"
    using assms(2) by (auto simp: given_args_def)
  show ?thesis
  proof (cases "c_sign_args a")
    case True
    then obtain pem s where "key = Some pem" "sign (h_deps H) pem Stage2Args (json_compact (h_deps H) (ser_strings l)) = Inr s"
      using assms(3) sign_runs by blast
    then show ?thesis
      by (simp add: attach_args_def Some then_do_def l True Let_def write_runs[OF assms(1)])
  qed (simp add: attach_args_def Some l)
qed

lemma wrap_manifest_runs:
  assumes "willing H" and "signable (h_deps H) pem"
  shows "\<exists>e fs'. wrap_manifest H ctx st name p pem d fs = (Inr e, fs')"
proof -
  obtain s where "sign (h_deps H) pem d (json_pretty (h_deps H) (manifest_fragment st (x_arch ctx) p)) = Inr s"
    using sign_runs[OF assms(2)] by blast
  then show ?thesis by (simp add: wrap_manifest_def then_do_def Let_def write_runs[OF assms(1)])
qed

subsection \<open>What is built is allowed\<close>

lemma good_list:
  assumes "good_bases a" and "graphic name"
  shows "list_allowed profile (compose_urls (x_bases (create_ctx a)) (c_arch a) name)"
  using assms url_allowed_compose[of _ profile "c_arch a" name]
  by (auto simp: good_bases_def list_allowed_def compose_urls_def)

lemma graphic_names: "name \<in> arch_names \<Longrightarrow> graphic name"
  by (auto simp: arch_names_def graphic_def)

lemma built_payload_allowed:
  assumes "build_payload H (create_ctx a) name src key d fs = (Inr p, fs')" and "crate_laws (h_deps H)"
    and "good_bases a" and "name \<in> arch_names"
  shows "payload_allowed (h_deps H) profile p" and "p_args_url p = None" and "key \<noteq> None \<Longrightarrow> p_ed25519 p \<noteq> None"
proof -
  note facts = good_list[OF assms(3) graphic_names[OF assms(4)], of profile]
    ok_sha256_own[OF crate_lawsD(1)[OF assms(2)]]
    signed_key_allowed[OF crate_lawsD(3)[OF assms(2)] crate_lawsD(5)[OF assms(2)]]
  show "payload_allowed (h_deps H) profile p"
    using assms(1) by (rule build_payload_Inr)
      (cases key; use facts in \<open>force simp: payload_allowed_def opt_list_allowed_def\<close>)
  show "p_args_url p = None" using assms(1) by (rule build_payload_Inr)
  show "p_ed25519 p \<noteq> None" if "key \<noteq> None" using assms(1) by (rule build_payload_Inr) (use that in auto)
qed

lemma attached_payload_allowed:
  assumes "attach_args H a (create_ctx a) key p fs = (Inr p', fs')" and "payload_allowed (h_deps H) profile p"
    and "c_sign_args a \<Longrightarrow> p_ed25519 p \<noteq> None" and "good_bases a"
  shows "payload_allowed (h_deps H) profile p'"
proof -
  have list: "list_allowed profile (compose_urls (x_bases (create_ctx a)) (c_arch a) ''args.json'')"
    by (rule good_list[OF assms(4)]) (simp add: graphic_def)
  from assms(1) show ?thesis
    by (cases rule: attach_args_Inr) (use assms(2,3) list in \<open>auto simp: payload_allowed_def opt_list_allowed_def\<close>)
qed

lemma wrapped_entry_allowed:
  assumes "wrap_manifest H (create_ctx a) st name p pem d fs = (Inr e, fs')" and "crate_laws (h_deps H)"
    and "good_bases a" and "manifest_name name \<in> arch_names"
  shows "entry_allowed (h_deps H) profile e"
  using assms(1)
proof (rule wrap_manifest_Inr)
  fix m
  assume "ac_entry e = Manifest_Entry m"
    and "pointer_hosted (h_deps H) (published a fs') (x_bases (create_ctx a)) (c_arch a) st name d p m"
  then show ?thesis
    using good_list[OF assms(3) graphic_names[OF assms(4)], of profile]
      signed_key_allowed[OF crate_lawsD(3)[OF assms(2)] crate_lawsD(5)[OF assms(2)]]
    by (auto simp: entry_allowed_def pointer_hosted_def manifest_allowed_def opt_list_allowed_def Let_def)
qed

subsection \<open>The whole command\<close>

lemma read_key_runs:
  assumes "willing H" and "good_key H a fs"
  obtains key where "read_key H a fs = (Inr key, fs)" and "\<And>pem. key = Some pem \<Longrightarrow> signable (h_deps H) pem"
    and "c_sign_args a \<or> c_manifest a \<Longrightarrow> key \<noteq> None"
proof (cases "c_key a")
  case None
  then show thesis using that[of None] assms(2) by (simp add: read_key_def good_key_def)
next
  case (Some p)
  then obtain pem where "text_file fs p pem" "signable (h_deps H) pem" using assms(2) by (auto simp: good_key_def)
  then show thesis
    using that[of "Some pem"] by (simp add: read_key_def Some then_do_def read_text_runs[OF assms(1)])
qed

lemma make_entries_runs:
  assumes "willing H" and "good_bases a" and "crate_laws (h_deps H)"
    and "c_manifest a \<Longrightarrow> \<exists>pem. key = Some pem \<and> signable (h_deps H) pem"
    and "payload_allowed (h_deps H) Stage0 uki" and "payload_allowed (h_deps H) Stage1 p2"
  obtains e1 e2 fs' where "make_entries H a (create_ctx a) key uki p2 fs = (Inr (e1, e2), fs')"
    and "entry_allowed (h_deps H) Stage0 e1" and "entry_allowed (h_deps H) Stage1 e2"
proof (cases "c_manifest a")
  case False
  then show thesis
    using that[of "direct_entry uki" "direct_entry p2" fs] assms(5,6)
    by (simp add: make_entries_def entry_allowed_def direct_entry_def)
next
  case True
  let ?ctx = "create_ctx a"
  obtain pem where pem: "key = Some pem" "signable (h_deps H) pem" using assms(4)[OF True] by blast
  obtain e1 fs1 where w1: "wrap_manifest H ?ctx ''_stage1'' ''linux.efi'' uki pem Stage1Manifest fs = (Inr e1, fs1)"
    using wrap_manifest_runs[OF assms(1) pem(2)] by blast
  obtain e2 fs2 where w2: "wrap_manifest H ?ctx ''_stage2'' ''stage2'' p2 pem Stage2Manifest fs1 = (Inr e2, fs2)"
    using wrap_manifest_runs[OF assms(1) pem(2)] by blast
  have "manifest_name ''linux.efi'' \<in> arch_names" "manifest_name ''stage2'' \<in> arch_names"
    by (simp_all add: arch_names_def manifest_name_def)
  note allowed = wrapped_entry_allowed[OF w1 assms(3,2) this(1)] wrapped_entry_allowed[OF w2 assms(3,2) this(2)]
  show thesis
    using that[of e1 e2 fs2] w1 w2 allowed by (simp add: make_entries_def True pem(1) then_do_def)
qed

lemma prepare_runs:
  assumes "willing H" and "good_bases a" and "good_key H a fs" and "good_inputs H a fs" and "crate_laws (h_deps H)"
  shows "\<exists>e1 e2 fs'. prepare H a fs = (Inr (e1, e2), fs')"
proof -
  let ?ctx = "create_ctx a" and ?D = "h_deps H"
  have bases: "check_bases (x_bases ?ctx) = Inr ()" using assms(2) by (simp add: check_bases_Inr_iff good_bases_def)
  have dir: "create_dir_all H (x_dir ?ctx) = ret ()" using assms(1) by (simp add: create_dir_all_def willing_def)
  obtain key where key: "read_key H a fs = (Inr key, fs)" "\<And>pem. key = Some pem \<Longrightarrow> signable ?D pem"
    "c_sign_args a \<or> c_manifest a \<Longrightarrow> key \<noteq> None"
    using read_key_runs[OF assms(1,3)] by metis
  have modes: "\<not> (c_sign_args a \<and> c_manifest a)" using assms(3) by (auto simp: good_key_def split: option.splits)
  let ?pk = "if c_manifest a then None else key"
  have pk: "\<And>pem. ?pk = Some pem \<Longrightarrow> signable ?D pem" using key(2) by (simp split: if_splits)
  have inputs: "f_data fs (c_uki a) \<noteq> None" "f_data fs (c_stage2 a) \<noteq> None" "c_args a \<noteq> None \<longrightarrow> given_args H a \<noteq> None"
    using assms(4) by (simp_all add: good_inputs_def)
  obtain uki fs1 where b1: "build_payload H ?ctx ''linux.efi'' (c_uki a) ?pk Stage1Uki fs = (Inr uki, fs1)" and "grows fs fs1"
    using build_payload_runs[OF assms(1) inputs(1) pk] by blast
  then have "f_data fs1 (c_stage2 a) \<noteq> None" using inputs(2) by (simp add: grows_def)
  then obtain p2 fs2 where b2: "build_payload H ?ctx ''stage2'' (c_stage2 a) ?pk Stage2Payload fs1 = (Inr p2, fs2)"
    using build_payload_runs[OF assms(1) _ pk] by blast
  obtain stage2 fs3 where at: "attach_args H a ?ctx key p2 fs2 = (Inr stage2, fs3)"
    using attach_args_runs[OF assms(1) inputs(3), of key ?ctx p2 fs2] key(2,3) by (cases key) auto
  have names: "''linux.efi'' \<in> arch_names" "''stage2'' \<in> arch_names" by (simp_all add: arch_names_def)
  note built = built_payload_allowed[OF b2 assms(5,2) names(2)]
  have "c_sign_args a \<Longrightarrow> p_ed25519 p2 \<noteq> None" using built(3) key(3) modes by auto
  then have stage2: "payload_allowed ?D Stage1 stage2" by (rule attached_payload_allowed[OF at built(1) _ assms(2)])
  obtain e1 e2 fs4 where "make_entries H a ?ctx key uki stage2 fs3 = (Inr (e1, e2), fs4)"
    and "arch_validate ?D e1 Stage0 = Inr ()" "arch_validate ?D e2 Stage1 = Inr ()"
    unfolding arch_validate_allowed
    using make_entries_runs[OF assms(1,2,5) _ built_payload_allowed(1)[OF b1 assms(5,2) names(1)] stage2] key(2,3) by blast
  then show ?thesis
    using modes by (simp add: prepare_def Let_def then_do_def bases dir key(1) b1 b2 at)
qed

lemma set_arch_runs:
  assumes "\<And>v. bt_get m st = Some v \<Longrightarrow> is_object v"
  shows "\<exists>m'. set_arch st arch e m = Inr m'"
  using assms by (cases "bt_get m st") (auto simp: set_arch_def is_object_iff)

lemma merge_doc_runs:
  assumes "mergeable doc"
  shows "\<exists>doc'. merge_doc arch e1 e2 doc = Inr doc'"
proof -
  obtain m where m: "doc = JObj m" using assms by (auto simp: mergeable_def is_object_iff)
  have obj: "is_object v" if "bt_get m st = Some v" "st \<in> stages" for st v
    using assms that by (auto simp: mergeable_def m)
  obtain m1 where m1: "set_arch ''_stage1'' arch (ser_arch_config e1) m = Inr m1"
    using set_arch_runs[of m "''_stage1''" arch "ser_arch_config e1"] obj[of "''_stage1''"] by (auto simp: stages_def)
  have "bt_get m1 ''_stage2'' = bt_get m ''_stage2''" by (rule set_arch_get(2)[OF m1]) simp
  then obtain m2 where "set_arch ''_stage2'' arch (ser_arch_config e2) m1 = Inr m2"
    using set_arch_runs[of m1 "''_stage2''" arch "ser_arch_config e2"] obj[of "''_stage2''"] by (auto simp: stages_def)
  with m1 show ?thesis by (simp add: merge_doc_def m)
qed

lemma create_runs:
  assumes "willing H" and "good_bases a" and "good_key H a fs" and "good_inputs H a fs" and "good_document H a fs"
    and "crate_laws (h_deps H)" and "plain_arch (c_arch a)"
  shows "\<exists>fs'. create H a fs = (Inr (), fs')"
proof -
  obtain e1 e2 fs1 where prep: "prepare H a fs = (Inr (e1, e2), fs1)"
    using prepare_runs[OF assms(1-4,6)] by blast
  have same: "f_data fs1 (ud_path a) = f_data fs (ud_path a)"
    using keepsD[OF keeps_prepare prep] ud_path_not_arch_file[OF assms(7)] by (simp add: touches_def)
  then have exists: "path_exists H (ud_path a) fs1 = path_exists H (ud_path a) fs" by (simp add: path_exists_def)
  obtain doc where doc: "old_doc H a fs = Some doc" "mergeable doc" using assms(5) by (auto simp: good_document_def)
  obtain doc' where merged: "merge_doc (c_arch a) e1 e2 doc = Inr doc'" using merge_doc_runs[OF doc(2)] by blast
  have "(if path_exists H (ud_path a) fs1 then read_value H (ud_path a) else ret (JObj [])) fs1 = (Inr doc, fs1)"
  proof (cases "path_exists H (ud_path a) fs")
    case True
    then obtain s b where s: "f_data fs (ud_path a) = Some b" "string_from_utf8 b = Some s"
      using assms(5) by (auto simp: good_document_def text_file_def)
    then have "read_to_string H (ud_path a) fs1 = (Inr s, fs1)"
      using read_text_runs[OF assms(1), of fs1] same by (simp add: text_file_def)
    moreover have "value_from_slice (h_deps H) (str_bytes s) = Some doc"
      using doc(1) True s by (simp add: old_doc_def string_from_utf8_bytes)
    ultimately show ?thesis using True exists by (simp add: read_value_def then_do_def)
  next
    case False
    then show ?thesis using doc(1) exists by (simp add: old_doc_def)
  qed
  then show ?thesis
    by (simp add: create_def then_do_def prep merge_user_data_def merged write_runs[OF assms(1)] print_line_def)
qed

subsection \<open>The first release in a directory\<close>

text \<open>What is in a document that held nothing before.\<close>

definition fresh_document :: "string \<Rightarrow> arch_config \<Rightarrow> arch_config \<Rightarrow> json" where
  "fresh_document arch e1 e2 =
     JObj [(''_stage1'', JObj [(arch, ser_arch_config e1)]), (''_stage2'', JObj [(arch, ser_arch_config e2)])]"

lemma merge_fresh: "merge_doc arch e1 e2 (JObj []) = Inr doc \<longleftrightarrow> doc = fresh_document arch e1 e2"
  by (auto simp: merge_doc_def set_arch_def less_char_def fresh_document_def)

lemma fresh_document_typed:
  "de_user_data (fresh_document ''x86_64'' e1 e2) = Some
     \<lparr>ud_stage1 = Some \<lparr>sc_aarch64 = None, sc_x86_64 = Some e1\<rparr>, ud_stage2 = Some \<lparr>sc_aarch64 = None, sc_x86_64 = Some e2\<rparr>\<rparr>"
  by (simp add: fresh_document_def de_user_data_def struct_fields_def opt_field_def or_default_def de_option_def
      de_stage_config_def arch_config_wire.de_ser arch_config_wire.ser_not_null)

end
