(* ===== verification/Deploy_Modify.thy ===== *)
theory Deploy_Modify
  imports Deploy_Boot
begin

section \<open>deploy: a release whose mirrors were edited\<close>

text \<open>
  What \<open>modify\<close> means for the documents it rewrites. The abstract side edits the URL lists of the
  typed document (\<open>edit_user_data\<close>); the code walks a JSON value and rewrites members in place. The
  lemmas show that the walk refines the edit, on everything a writer produced and on any document that
  reads back, and what \<open>stage1\<close> then makes of a release that \<open>create\<close> wrote and \<open>modify\<close> edited.
\<close>

subsection \<open>The edit of the typed document\<close>

definition edit_urls :: "string list \<Rightarrow> string list \<Rightarrow> url_list \<Rightarrow> url_list" where
  "edit_urls adds rems l = UrlList (rewritten_urls adds rems (urls l))"

definition edit_payload :: "string list \<Rightarrow> string list \<Rightarrow> payload \<Rightarrow> payload" where
  "edit_payload adds rems p =
     (let e = edit_urls adds rems in
      p\<lparr>p_url := e (p_url p), p_sig_url := map_option e (p_sig_url p),
        p_args_url := map_option e (p_args_url p), p_args_sig_url := map_option e (p_args_sig_url p)\<rparr>)"

definition edit_manifest :: "string list \<Rightarrow> string list \<Rightarrow> manifest_ref \<Rightarrow> manifest_ref" where
  "edit_manifest adds rems m =
     (let e = edit_urls adds rems in m\<lparr>m_url := e (m_url m), m_sig_url := map_option e (m_sig_url m)\<rparr>)"

fun edit_entry :: "string list \<Rightarrow> string list \<Rightarrow> entry \<Rightarrow> entry" where
  "edit_entry adds rems (Payload_Entry p) = Payload_Entry (edit_payload adds rems p)"
| "edit_entry adds rems (Manifest_Entry m) = Manifest_Entry (edit_manifest adds rems m)"

text \<open>The history of resolved manifests is not a list of mirrors: it is kept.\<close>

definition edit_arch_config :: "string list \<Rightarrow> string list \<Rightarrow> arch_config \<Rightarrow> arch_config" where
  "edit_arch_config adds rems ac = ac\<lparr>ac_entry := edit_entry adds rems (ac_entry ac)\<rparr>"

definition edit_stage :: "string list \<Rightarrow> string list \<Rightarrow> stage_config \<Rightarrow> stage_config" where
  "edit_stage adds rems s =
     (let e = edit_arch_config adds rems in
      \<lparr>sc_aarch64 = map_option e (sc_aarch64 s), sc_x86_64 = map_option e (sc_x86_64 s)\<rparr>)"

definition edit_user_data :: "string list \<Rightarrow> string list \<Rightarrow> user_data \<Rightarrow> user_data" where
  "edit_user_data adds rems u =
     (let e = edit_stage adds rems in
      \<lparr>ud_stage1 = map_option e (ud_stage1 u), ud_stage2 = map_option e (ud_stage2 u)\<rparr>)"

lemma edit_payload_simps [simp]:
  "p_url (edit_payload adds rems p) = edit_urls adds rems (p_url p)"
  "p_sig_url (edit_payload adds rems p) = map_option (edit_urls adds rems) (p_sig_url p)"
  "p_args_url (edit_payload adds rems p) = map_option (edit_urls adds rems) (p_args_url p)"
  "p_args_sig_url (edit_payload adds rems p) = map_option (edit_urls adds rems) (p_args_sig_url p)"
  "p_sha256 (edit_payload adds rems p) = p_sha256 p" "p_ed25519 (edit_payload adds rems p) = p_ed25519 p"
  "p_args (edit_payload adds rems p) = p_args p"
  by (simp_all add: edit_payload_def Let_def)

lemma edit_manifest_simps [simp]:
  "m_url (edit_manifest adds rems m) = edit_urls adds rems (m_url m)"
  "m_sig_url (edit_manifest adds rems m) = map_option (edit_urls adds rems) (m_sig_url m)"
  "m_ed25519 (edit_manifest adds rems m) = m_ed25519 m" "m_sha256 (edit_manifest adds rems m) = m_sha256 m"
  by (simp_all add: edit_manifest_def Let_def)

subsection \<open>Rewriting what a writer wrote\<close>

text \<open>An object is rewritten member by member, whatever the order of the keys.\<close>

lemma rewrite_members_ok:
  "try_fold (rewrite_member f) ks m = Inr m' \<Longrightarrow> bt_ok m \<Longrightarrow> bt_ok m'"
  by (erule try_fold_invariant) (auto simp: rewrite_member_def res_simps split: option.splits)

definition member_rewritten :: "(json \<Rightarrow> tool_error + json) \<Rightarrow> json option \<Rightarrow> json option \<Rightarrow> bool" where
  "member_rewritten f x x' \<longleftrightarrow> (case x of None \<Rightarrow> x' = None | Some v \<Rightarrow> (\<exists>v'. f v = Inr v' \<and> x' = Some v'))"

lemma member_rewritten_iff: "member_rewritten f x x' \<longleftrightarrow> rel_option (\<lambda>v v'. f v = Inr v') x x'"
  by (cases x; cases x') (auto simp: member_rewritten_def)

lemma rewrite_members_exact:
  assumes "bt_ok m" and "bt_ok n" and "distinct ks"
    and "\<And>k. k \<in> set ks \<Longrightarrow> member_rewritten f (bt_get m k) (bt_get n k)"
    and "\<And>k. k \<notin> set ks \<Longrightarrow> bt_get n k = bt_get m k"
  shows "try_fold (rewrite_member f) ks m = Inr n"
  using assms
proof (induction ks arbitrary: m)
  case Nil
  then have "m = n" by (intro btree_eqI) simp_all
  then show ?case by simp
next
  case (Cons k ks)
  show ?case
  proof (cases "bt_get m k")
    case None
    with Cons.prems(4)[of k] have "bt_get n k = None" by (simp add: member_rewritten_def)
    with None Cons.prems have "try_fold (rewrite_member f) ks m = Inr n"
      by (intro Cons.IH) (auto, metis)
    moreover have "rewrite_member f k m = Inr m" using None by (simp add: rewrite_member_def)
    ultimately show ?thesis by simp
  next
    case (Some v)
    then obtain v' where v': "f v = Inr v'" "bt_get n k = Some v'"
      using Cons.prems(4)[of k] by (auto simp: member_rewritten_def)
    have "try_fold (rewrite_member f) ks (bt_insert k v' m) = Inr n"
    proof (rule Cons.IH)
      fix j
      assume "j \<in> set ks"
      with Cons.prems(3) have "j \<noteq> k" "j \<in> set (k # ks)" by auto
      with Cons.prems(4)[of j] show "member_rewritten f (bt_get (bt_insert k v' m) j) (bt_get n j)" by simp
    next
      fix j
      assume "j \<notin> set ks"
      with Cons.prems(5)[of j] v'(2) show "bt_get n j = bt_get (bt_insert k v' m) j" by simp
    qed (use Cons.prems in simp_all)
    moreover have "rewrite_member f k m = Inr (bt_insert k v' m)" using Some v'(1) by (simp add: rewrite_member_def)
    ultimately show ?thesis by simp
  qed
qed

lemma rewritten_url_member:
  "member_rewritten (rewrite_urls adds rems) (map_option ser_url_list x) (map_option ser_url_list (map_option (edit_urls adds rems) x))"
  "member_rewritten (rewrite_urls adds rems) (Some (ser_url_list l)) (Some (ser_url_list (edit_urls adds rems l)))"
  "member_rewritten f None None"
  by (cases x; simp add: member_rewritten_def rewrite_urls_ser edit_urls_def)
     (simp_all add: member_rewritten_def rewrite_urls_ser edit_urls_def)

lemma rewrite_ser_payload:
  "rewrite_variant adds rems (ser_payload p) = Inr (ser_payload (edit_payload adds rems p))"
proof -
  let ?m = "\<lambda>p. member ''url'' (ser_url_list (p_url p)) @ opt_member ''sha256'' JStr (p_sha256 p)
      @ opt_member ''ed25519'' JStr (p_ed25519 p) @ opt_member ''sig_url'' ser_url_list (p_sig_url p)
      @ opt_member ''args'' ser_strings (p_args p) @ opt_member ''args_url'' ser_url_list (p_args_url p)
      @ opt_member ''args_sig_url'' ser_url_list (p_args_sig_url p)"
  have "try_fold (rewrite_member (rewrite_urls adds rems)) url_fields (btree_of (?m p))
      = Inr (btree_of (?m (edit_payload adds rems p)))"
    by (rule rewrite_members_exact) (auto simp: url_fields_def wire_simps rewritten_url_member)
  then show ?thesis by (simp add: rewrite_variant_def rewrite_object_def ser_payload_def)
qed

lemma rewrite_ser_manifest:
  "rewrite_variant adds rems (ser_manifest_ref m) = Inr (ser_manifest_ref (edit_manifest adds rems m))"
proof -
  let ?m = "\<lambda>m. member ''url'' (ser_url_list (m_url m)) @ member ''ed25519'' (JStr (m_ed25519 m))
      @ opt_member ''sig_url'' ser_url_list (m_sig_url m) @ opt_member ''sha256'' JStr (m_sha256 m)"
  have "try_fold (rewrite_member (rewrite_urls adds rems)) url_fields (btree_of (?m m))
      = Inr (btree_of (?m (edit_manifest adds rems m)))"
    by (rule rewrite_members_exact) (auto simp: url_fields_def wire_simps rewritten_url_member)
  then show ?thesis by (simp add: rewrite_variant_def rewrite_object_def ser_manifest_ref_def)
qed

lemma rewrite_ser_arch_config:
  "rewrite_entry adds rems (ser_arch_config e) = Inr (ser_arch_config (edit_arch_config adds rems e))"
proof -
  let ?m = "\<lambda>e. ser_entry (ac_entry e) @ (if ac_resolved_manifests e = [] then []
      else member ''resolved_manifests'' (ser_manifest_refs (ac_resolved_manifests e)))"
  have "try_fold (rewrite_member (rewrite_variant adds rems)) [''payload'', ''manifest''] (btree_of (?m e))
      = Inr (btree_of (?m (edit_arch_config adds rems e)))"
    by (rule rewrite_members_exact)
       (cases "ac_entry e"; auto simp: edit_arch_config_def wire_simps member_rewritten_def
         rewrite_ser_payload rewrite_ser_manifest)+
  then show ?thesis by (simp add: rewrite_entry_def rewrite_object_def ser_arch_config_def)
qed

subsection \<open>Rewriting a document that reads back\<close>

text \<open>
  A reader commutes with a rewrite: what is read after it is the edit of what was read before. The
  laws carry over to the fields of a struct, once for every level of the document.
\<close>

locale reads_edited =
  fixes de :: "json \<Rightarrow> 'a option" and f :: "json \<Rightarrow> tool_error + json" and edit :: "'a \<Rightarrow> 'a"
    and good :: "json \<Rightarrow> bool"
  assumes reads: "good v \<Longrightarrow> de v = Some a \<Longrightarrow> f v = Inr v' \<Longrightarrow> de v' = Some (edit a)"
    and null_iff: "f v = Inr v' \<Longrightarrow> v' = JNull \<longleftrightarrow> v = JNull"
begin

lemma required_edited:
  assumes "rel_option (\<lambda>v v'. f v = Inr v') x x'" and "\<And>v. x = Some v \<Longrightarrow> good v" and "required de x = Some a"
  shows "required de x' = Some (edit a)"
  using assms by (cases x; cases x') (auto simp: required_def intro: reads)

lemma opt_field_edited:
  assumes "rel_option (\<lambda>v v'. f v = Inr v') x x'" and "\<And>v. x = Some v \<Longrightarrow> v \<noteq> JNull \<Longrightarrow> good v"
    and "opt_field de x = Some a"
  shows "opt_field de x' = Some (map_option edit a)"
proof (cases x)
  case None
  with assms show ?thesis by (cases x') (auto simp: opt_field_def or_default_def)
next
  case (Some v)
  with assms(1) obtain v' where v': "x' = Some v'" "f v = Inr v'" by (cases x') auto
  show ?thesis
  proof (cases "v = JNull")
    case True
    with assms(3) Some v' null_iff[OF v'(2)] show ?thesis by (auto simp: opt_field_def or_default_def de_option_def)
  next
    case False
    with assms(3) Some obtain b where "de v = Some b" "a = Some b"
      by (auto simp: opt_field_def or_default_def de_option_def)
    moreover from this have "de v' = Some (edit b)" using reads[OF assms(2)[OF Some False]] v'(2) by blast
    ultimately show ?thesis
      using v' null_iff[OF v'(2)] False by (simp add: opt_field_def or_default_def de_option_def)
  qed
qed

end

lemma as_str_strings: "de_list de_string (JArr xs) = Some us \<Longrightarrow> List.map_filter as_str xs = us"
proof (induction xs arbitrary: us)
  case (Cons x xs)
  then obtain s vs where "x = JStr s" "us = s # vs" "de_list de_string (JArr xs) = Some vs"
    by (cases x) (auto simp: de_list_def split: option.splits)
  with Cons.IH[of vs] show ?case by (simp add: List.map_filter_simps)
qed (simp add: de_list_def List.map_filter_simps)

lemma rewrite_urls_reads:
  assumes "de_url_list v = Some l"
  shows "rewrite_urls adds rems v = Inr (ser_url_list (edit_urls adds rems l))"
proof -
  have "url_values v = Inr (urls l)"
  proof (cases v)
    case (JArr xs)
    with assms as_str_strings[of xs] show ?thesis by (auto simp: de_url_list_def url_values_def)
  qed (use assms in \<open>auto simp: de_url_list_def url_values_def de_list_def\<close>)
  then show ?thesis by (simp add: rewrite_urls_def edit_urls_def)
qed

interpretation url_edit: reads_edited de_url_list "rewrite_urls adds rems" "edit_urls adds rems" "\<lambda>_. True"
  for adds rems
proof
  fix v v' a
  assume "de_url_list v = Some a" "rewrite_urls adds rems v = Inr v'"
  then show "de_url_list v' = Some (edit_urls adds rems a)"
    by (auto simp: rewrite_urls_reads url_list_wire.de_ser)
next
  fix v v'
  assume "rewrite_urls adds rems v = Inr v'"
  then show "v' = JNull \<longleftrightarrow> v = JNull"
    by (auto simp: rewrite_urls_def res_simps url_values_def url_list_wire.ser_not_null)
qed

text \<open>A variant is rewritten when it is given as an object (the reader also takes an array of its fields).\<close>

definition struct_object :: "json \<Rightarrow> bool" where
  "struct_object v \<longleftrightarrow> wf_json v \<and> is_object v"

lemma rewrite_variant_object:
  assumes "struct_object v" and "rewrite_variant adds rems v = Inr v'"
  obtains m m' where "v = JObj m" and "v' = JObj m'" and "bt_ok m" and "bt_ok m'"
    and "\<And>k. k \<in> set url_fields \<Longrightarrow> rel_option (\<lambda>v v'. rewrite_urls adds rems v = Inr v') (bt_get m k) (bt_get m' k)"
    and "\<And>k. k \<notin> set url_fields \<Longrightarrow> bt_get m' k = bt_get m k"
proof -
  from assms obtain m m' where v: "v = JObj m" "v' = JObj m'" "bt_ok m"
    and run: "try_fold (rewrite_member (rewrite_urls adds rems)) url_fields m = Inr m'"
    by (auto simp: struct_object_def is_object_iff rewrite_variant_def elim!: rewrite_object_get)
  have "distinct url_fields" by (simp add: url_fields_def)
  from that[OF v rewrite_members_ok[OF run v(3)]] rewrite_members_get[OF run this] show thesis by blast
qed

lemma rewrite_object_null: "rewrite_object f v = Inr v' \<Longrightarrow> v' = JNull \<longleftrightarrow> v = JNull"
  by (erule rewrite_object_get) auto

interpretation payload_edit: reads_edited de_payload "rewrite_variant adds rems" "edit_payload adds rems" struct_object
  for adds rems
proof
  fix v v' a
  assume "struct_object v" and a: "de_payload v = Some a" and "rewrite_variant adds rems v = Inr v'"
  from this(1,3) obtain m m' where v: "v = JObj m" "v' = JObj m'" "bt_ok m" "bt_ok m'"
    and urls: "\<And>k. k \<in> set url_fields \<Longrightarrow> rel_option (\<lambda>v v'. rewrite_urls adds rems v = Inr v') (bt_get m k) (bt_get m' k)"
    and other: "\<And>k. k \<notin> set url_fields \<Longrightarrow> bt_get m' k = bt_get m k"
    by (rule rewrite_variant_object) blast
  show "de_payload v' = Some (edit_payload adds rems a)"
    using a url_edit.required_edited[OF urls[of "''url''"]] url_edit.opt_field_edited[OF urls[of "''sig_url''"]]
      url_edit.opt_field_edited[OF urls[of "''args_url''"]] url_edit.opt_field_edited[OF urls[of "''args_sig_url''"]]
    by (auto simp: de_payload_def v struct_fields_object bind_eq_Some_conv other url_fields_def edit_payload_def Let_def)
qed (auto simp: rewrite_variant_def dest: rewrite_object_null)

interpretation manifest_edit: reads_edited de_manifest_ref "rewrite_variant adds rems" "edit_manifest adds rems" struct_object
  for adds rems
proof
  fix v v' a
  assume "struct_object v" and a: "de_manifest_ref v = Some a" and "rewrite_variant adds rems v = Inr v'"
  from this(1,3) obtain m m' where v: "v = JObj m" "v' = JObj m'" "bt_ok m" "bt_ok m'"
    and urls: "\<And>k. k \<in> set url_fields \<Longrightarrow> rel_option (\<lambda>v v'. rewrite_urls adds rems v = Inr v') (bt_get m k) (bt_get m' k)"
    and other: "\<And>k. k \<notin> set url_fields \<Longrightarrow> bt_get m' k = bt_get m k"
    by (rule rewrite_variant_object) blast
  show "de_manifest_ref v' = Some (edit_manifest adds rems a)"
    using a url_edit.required_edited[OF urls[of "''url''"]] url_edit.opt_field_edited[OF urls[of "''sig_url''"]]
    by (auto simp: de_manifest_ref_def v struct_fields_object bind_eq_Some_conv other url_fields_def edit_manifest_def Let_def)
qed (auto simp: rewrite_variant_def dest: rewrite_object_null)

text \<open>The levels above: an architecture's entry, a stage, the document.\<close>

definition object_entry :: "json \<Rightarrow> bool" where
  "object_entry v \<longleftrightarrow> wf_json v
     \<and> (\<forall>k \<in> {''payload'', ''manifest''}. \<forall>x. get v k = Some x \<longrightarrow> is_object x)"

definition object_stage :: "json \<Rightarrow> bool" where
  "object_stage v \<longleftrightarrow> wf_json v \<and> is_object v \<and> (\<forall>arch x. get v arch = Some x \<longrightarrow> object_entry x)"

definition object_document :: "json \<Rightarrow> bool" where
  "object_document doc \<longleftrightarrow> wf_json doc
     \<and> (\<forall>st \<in> stages. \<forall>v. get doc st = Some v \<longrightarrow> v \<noteq> JNull \<longrightarrow> object_stage v)"

lemma variant_edited:
  assumes "rel_option (\<lambda>v v'. rewrite_variant adds rems v = Inr v') x x'"
    and "rel_option (\<lambda>v v'. rewrite_variant adds rems v = Inr v') y y'"
    and "\<And>v. x = Some v \<Longrightarrow> struct_object v" and "\<And>v. y = Some v \<Longrightarrow> struct_object v"
    and "de_variant x y = Some e"
  shows "de_variant x' y' = Some (edit_entry adds rems e)"
proof (cases x)
  case None
  with assms(5) obtain v p where v: "y = Some v" "de_payload v = Some p" "e = Payload_Entry p"
    by (auto simp: de_variant_def split: option.splits)
  with assms(2) obtain v' where v': "y' = Some v'" "rewrite_variant adds rems v = Inr v'" by (cases y') auto
  have "x' = None" using assms(1) None by (cases x') simp_all
  then show ?thesis
    using payload_edit.reads[OF assms(4)[OF v(1)] v(2) v'(2)] v' v(3) by (simp add: de_variant_def)
next
  case (Some v)
  with assms(5) obtain m where m: "de_manifest_ref v = Some m" "e = Manifest_Entry m"
    by (auto simp: de_variant_def split: option.splits)
  with assms(1) Some obtain v' where v': "x' = Some v'" "rewrite_variant adds rems v = Inr v'" by (cases x') auto
  then show ?thesis
    using manifest_edit.reads[OF assms(3)[OF Some] m(1) v'(2)] m(2) by (simp add: de_variant_def)
qed

interpretation arch_edit: reads_edited de_arch_config "rewrite_entry adds rems" "edit_arch_config adds rems" object_entry
  for adds rems
proof
  fix v v' a
  assume good: "object_entry v" and a: "de_arch_config v = Some a" and run: "rewrite_entry adds rems v = Inr v'"
  obtain m where m: "v = JObj m" using a de_arch_config_object by blast
  with run obtain m' where m': "v' = JObj m'"
    and fold: "try_fold (rewrite_member (rewrite_variant adds rems)) [''payload'', ''manifest''] m = Inr m'"
    by (auto simp: rewrite_entry_def elim!: rewrite_object_get)
  have ok: "bt_ok m" "bt_ok m'" using good m rewrite_members_ok[OF fold] by (auto simp: object_entry_def)
  note change = rewrite_members_get[OF fold]
  have same: "bt_get m' ''resolved_manifests'' = bt_get m ''resolved_manifests''" by (rule change(1)) simp_all
  have rel: "rel_option (\<lambda>v v'. rewrite_variant adds rems v = Inr v') (bt_get m k) (bt_get m' k)"
    if "k \<in> {''payload'', ''manifest''}" for k using that by (intro change(2)) simp_all
  have obj: "struct_object x" if "bt_get m k = Some x" "k \<in> {''payload'', ''manifest''}" for k x
    using that good m wf_get[of v k x] by (auto simp: object_entry_def struct_object_def)
  obtain e r where e: "de_variant (bt_get m ''manifest'') (bt_get m ''payload'') = Some e"
    and r: "or_default [] (de_list de_manifest_ref) (bt_get m ''resolved_manifests'') = Some r"
    and ac: "a = \<lparr>ac_entry = e, ac_resolved_manifests = r\<rparr>"
    using a ok m by (auto simp: de_arch_config_value bind_eq_Some_conv)
  have "de_variant (bt_get m' ''manifest'') (bt_get m' ''payload'') = Some (edit_entry adds rems e)"
    using rel obj e by (intro variant_edited) auto
  with ok same r ac show "de_arch_config v' = Some (edit_arch_config adds rems a)"
    by (simp add: de_arch_config_value m' edit_arch_config_def)
qed (auto simp: rewrite_entry_def dest: rewrite_object_null)

lemma rewrite_arches_ok: "rewrite_arches adds rems m = Inr m' \<Longrightarrow> map fst m' = map fst m"
  by (induction adds rems m arbitrary: m' rule: rewrite_arches.induct) (auto simp: res_simps)

interpretation stage_edit: reads_edited de_stage_config "rewrite_object (rewrite_arches adds rems)" "edit_stage adds rems" object_stage
  for adds rems
proof
  fix v v' a
  assume good: "object_stage v" and a: "de_stage_config v = Some a"
    and run: "rewrite_object (rewrite_arches adds rems) v = Inr v'"
  then obtain m m' where m: "v = JObj m" "v' = JObj m'" and arches: "rewrite_arches adds rems m = Inr m'"
    by (auto simp: object_stage_def elim!: rewrite_object_get)
  have ok: "bt_ok m" "bt_ok m'"
    using good m rewrite_arches_ok[OF arches] by (auto simp: object_stage_def bt_ok_def)
  have obj: "object_entry x" if "bt_get m k = Some x" for k x
    using that good m by (auto simp: object_stage_def)
  show "de_stage_config v' = Some (edit_stage adds rems a)"
    using a arch_edit.opt_field_edited[OF rewrite_arches_get[OF arches] obj]
    by (auto simp: de_stage_config_value m ok bind_eq_Some_conv edit_stage_def Let_def)
qed (auto dest: rewrite_object_null)

lemma rewrite_doc_reads:
  assumes "object_document doc" and "de_user_data doc = Some ud" and "rewrite_doc adds rems doc = Inr doc'"
  shows "de_user_data doc' = Some (edit_user_data adds rems ud)"
proof -
  let ?g = "rewrite_object (rewrite_arches adds rems)"
  obtain m m' where m: "doc = JObj m" "doc' = JObj m'"
    and fold: "try_fold (rewrite_member ?g) [''_stage1'', ''_stage2''] m = Inr m'"
    using assms(3) by (auto simp: rewrite_doc_def is_object_iff split: if_splits elim!: rewrite_object_get)
  have ok: "bt_ok m" "bt_ok m'" using assms(1) m rewrite_members_ok[OF fold] by (auto simp: object_document_def)
  have rel: "rel_option (\<lambda>v v'. ?g v = Inr v') (bt_get m k) (bt_get m' k)" if "k \<in> stages" for k
    using that by (intro rewrite_members_get(2)[OF fold]) (simp_all add: stages_def)
  have obj: "object_stage x" if "bt_get m k = Some x" "x \<noteq> JNull" "k \<in> stages" for k x
    using that assms(1) m by (auto simp: object_document_def)
  note stage = stage_edit.opt_field_edited[OF rel obj]
  show ?thesis
    using assms(2) stage[of "''_stage1''"] stage[of "''_stage2''"]
    by (auto simp: de_user_data_def struct_fields_object m ok bind_eq_Some_conv edit_user_data_def Let_def stages_def)
qed

text \<open>
  The two forms that keep \<open>modify\<close> from the edit although the readers accept them: an optional list
  given as \<open>null\<close> stops the command, and a payload given as an array of its fields is passed over.
\<close>

lemma null_list_stops_modify:
  "opt_field de_url_list (Some JNull) = Some None" "rewrite_urls adds rems JNull = Inl Bad_Url_Field"
  by (simp_all add: opt_field_def or_default_def de_option_def rewrite_urls_def url_values_def)

lemma array_payload_is_passed_over:
  "de_payload (JArr [JStr u, JStr h]) = Some \<lparr>p_url = UrlList [u], p_sha256 = Some h, p_ed25519 = None,
     p_sig_url = None, p_args = None, p_args_url = None, p_args_sig_url = None\<rparr>"
  "rewrite_variant adds rems (JArr xs) = Inr (JArr xs)"
  by (simp_all add: de_payload_def struct_fields_def payload_names_def required_def opt_field_def or_default_def
      de_option_def de_url_list_def rewrite_variant_def rewrite_object_def)

subsection \<open>The rewritten document can be printed and read\<close>

text \<open>A list of URLs may become an array, one level deeper than a string, but far from the parser's limit.\<close>

definition fits :: "nat \<Rightarrow> json \<Rightarrow> bool" where
  "fits n v \<longleftrightarrow> wf_json v \<and> no_float v \<and> nesting v \<le> n"

definition keeps_fit :: "nat \<Rightarrow> (json \<Rightarrow> tool_error + json) \<Rightarrow> bool" where
  "keeps_fit n f \<longleftrightarrow> (\<forall>v v'. fits n v \<longrightarrow> f v = Inr v' \<longrightarrow> fits n v')"

lemma fits_object: "fits (Suc n) (JObj m) \<longleftrightarrow> bt_ok m \<and> (\<forall>p \<in> set m. fits n (snd p))"
  by (auto simp: fits_def wf_fields_iff no_float_fields_iff nesting_le)

lemma fits_urls: "0 < n \<Longrightarrow> fits n (ser_url_list l)"
  using nesting_urls(1)[of l] by (simp add: fits_def url_list_wire.ser_wf url_list_wire.ser_no_float)

lemma keeps_fit_urls: "0 < n \<Longrightarrow> keeps_fit n (rewrite_urls adds rems)"
  by (auto simp: keeps_fit_def rewrite_urls_def res_simps fits_urls)

lemma keeps_fit_object:
  assumes "\<And>m m'. fits (Suc n) (JObj m) \<Longrightarrow> f m = Inr m' \<Longrightarrow> fits (Suc n) (JObj m')"
  shows "keeps_fit (Suc n) (rewrite_object f)"
  using assms unfolding keeps_fit_def by (blast elim: rewrite_object_get)

lemma keeps_fit_members:
  assumes "keeps_fit n f"
  shows "keeps_fit (Suc n) (rewrite_object (try_fold (rewrite_member f) ks))"
proof (rule keeps_fit_object)
  fix m m'
  assume start: "fits (Suc n) (JObj m)" and run: "try_fold (rewrite_member f) ks m = Inr m'"
  show "fits (Suc n) (JObj m')"
    using run start
  proof (rule try_fold_invariant)
    fix k m1 m2
    assume m1: "fits (Suc n) (JObj m1)" and "rewrite_member f k m1 = Inr m2"
    then consider "m2 = m1" | v v' where "bt_get m1 k = Some v" "f v = Inr v'" "m2 = bt_insert k v' m1"
      by (auto simp: rewrite_member_def res_simps split: option.splits)
    then show "fits (Suc n) (JObj m2)"
    proof cases
      case (2 v v')
      then have "fits n v" using m1 by (force simp: fits_object dest: bt_get_in_set)
      with assms 2(2) have "fits n v'" by (auto simp: keeps_fit_def)
      with m1 2(3) set_bt_insert[of k v' m1] show ?thesis by (fastforce simp: fits_object)
    qed (use m1 in simp)
  qed
qed

lemma rewrite_arches_fits:
  "rewrite_arches adds rems m = Inr m' \<Longrightarrow> keeps_fit n (rewrite_entry adds rems) \<Longrightarrow>
     \<forall>p \<in> set m. fits n (snd p) \<Longrightarrow> \<forall>p \<in> set m'. fits n (snd p)"
  by (induction adds rems m arbitrary: m' rule: rewrite_arches.induct) (auto simp: res_simps keeps_fit_def, force)

lemma rewrite_doc_fits:
  assumes "rewrite_doc adds rems doc = Inr doc'" and "wf_json doc" and "printable doc"
  shows "wf_json doc'" and "printable doc'"
proof -
  have urls: "keeps_fit (Suc n) (rewrite_urls adds rems)" for n by (rule keeps_fit_urls) simp
  then have entry: "keeps_fit (Suc (Suc (Suc n))) (rewrite_entry adds rems)" for n
    unfolding rewrite_entry_def rewrite_variant_def by (intro keeps_fit_members)
  then have "keeps_fit (Suc (Suc (Suc (Suc n)))) (rewrite_object (rewrite_arches adds rems))" for n
    using rewrite_arches_fits rewrite_arches_ok
    by (intro keeps_fit_object) (metis bt_ok_def fits_object)
  then have "keeps_fit (Suc (Suc (Suc (Suc (Suc 122)))))
      (rewrite_object (try_fold (rewrite_member (rewrite_object (rewrite_arches adds rems))) [''_stage1'', ''_stage2'']))"
    by (rule keeps_fit_members)
  moreover have "fits 127 doc" using assms(2,3) by (simp add: fits_def printable_def)
  ultimately have "fits 127 doc'"
    using assms(1) by (auto simp: keeps_fit_def rewrite_doc_def split: if_splits)
  then show "wf_json doc'" and "printable doc'" by (simp_all add: fits_def printable_def)
qed

subsection \<open>A release on other mirrors\<close>

text \<open>
  What was composed from the old bases is, after the edit, composed from the new ones: the files need
  no change, so a payload that was published is published where the edited document says. A signed
  manifest cannot be edited: the payload it names stays on the mirrors the release was made for.
\<close>

definition host_bases :: "string list \<Rightarrow> bool" where
  "host_bases bases \<longleftrightarrow> bases \<noteq> [] \<and> (\<forall>b \<in> set bases. host_base b)"

lemma edit_compose:
  assumes "host_bases bases" and "\<forall>r \<in> set rems. host_base r"
  shows "edit_urls adds rems (compose_urls bases arch name) = compose_urls (edit_bases adds rems bases) arch name"
  using assms rewritten_urls_compose[of bases rems adds arch name]
  by (simp add: edit_urls_def compose_urls_def host_bases_def)

lemma edited_payload_hosted:
  assumes "payload_hosted D at bases arch p b args" and "host_bases bases" and "\<forall>r \<in> set rems. host_base r"
  shows "payload_hosted D at (edit_bases adds rems bases) arch (edit_payload adds rems p) b args"
proof -
  have args: "args_hosted D at bases arch pem p args \<Longrightarrow>
      args_hosted D at (edit_bases adds rems bases) arch pem (edit_payload adds rems p) args" for pem
    by (auto simp: args_hosted_def edit_compose[OF assms(2,3)])
  from assms(1) show ?thesis
    unfolding payload_hosted_def by (auto simp: edit_compose[OF assms(2,3)] intro: args)
qed

lemma edited_manifest_hosted:
  assumes "manifest_hosted D at bases arch p m" and "host_bases bases" and "\<forall>r \<in> set rems. host_base r"
  shows "manifest_hosted D at (edit_bases adds rems bases) arch p (edit_manifest adds rems m)"
  using assms(1) by (auto simp: manifest_hosted_def edit_compose[OF assms(2,3)])

lemma set_add_new: "set (add_new bs us) = set us \<union> set bs"
  by (induction bs arbitrary: us) auto

lemma set_edit_bases: "set (edit_bases adds rems bases) = (set bases - set rems) \<union> set adds"
  by (auto simp: edit_bases_def set_add_new)

lemma host_base_http: "host_base b \<Longrightarrow> starts_with b ''http://''"
  by (auto simp: host_base_def starts_with_iff)

text \<open>The rules of admission hold on the new mirrors, once their names are printable.\<close>

lemma list_allowed_edited:
  assumes "list_allowed profile (compose_urls bases arch name)" and "host_bases bases"
    and "\<forall>b \<in> set adds. host_base b \<and> graphic b" and "edit_bases adds rems bases \<noteq> []"
  shows "list_allowed profile (compose_urls (edit_bases adds rems bases) arch name)"
proof -
  have old: "graphic b \<and> graphic arch \<and> graphic name" if "b \<in> set bases" for b
    using that assms(1,2) url_allowed_compose[OF host_base_http[of b]]
    by (auto simp: list_allowed_def compose_urls_def host_bases_def)
  obtain b where "b \<in> set bases" using assms(2) by (cases bases) (auto simp: host_bases_def)
  with old have "graphic arch" "graphic name" by blast+
  moreover have "host_base c \<and> graphic c" if "c \<in> set (edit_bases adds rems bases)" for c
    using that assms(2,3) old by (auto simp: set_edit_bases host_bases_def)
  ultimately show ?thesis
    using assms(4) by (auto simp: list_allowed_def compose_urls_def url_allowed_compose host_base_http)
qed

lemma edited_payload_allowed:
  assumes "payload_hosted D at bases arch p b args" and "payload_allowed D profile p" and "host_bases bases"
    and "\<forall>r \<in> set rems. host_base r" and "\<forall>b \<in> set adds. host_base b \<and> graphic b"
    and "edit_bases adds rems bases \<noteq> []"
  shows "payload_allowed D profile (edit_payload adds rems p)"
proof -
  note edit = edit_compose[OF assms(3,4)] and allowed = list_allowed_edited[OF _ assms(3,5,6), of profile]
  have url: "list_allowed profile (edit_urls adds rems (p_url p))"
    using assms(1,2) allowed by (auto simp: payload_hosted_def payload_allowed_def edit)
  have args: "opt_list_allowed profile (map_option (edit_urls adds rems) (p_args_url p))"
    using assms(1,2) allowed
    by (auto simp: payload_hosted_def args_hosted_def payload_allowed_def opt_list_allowed_def edit)
  from assms(1) have none: "p_sig_url p = None" "p_args_sig_url p = None" by (auto simp: payload_hosted_def)
  show ?thesis
    using assms(2) url args by (auto simp: payload_allowed_def none opt_list_allowed_def)
qed

lemma edited_manifest_allowed:
  assumes "manifest_hosted D at bases arch p m" and "manifest_allowed D profile m" and "host_bases bases"
    and "\<forall>r \<in> set rems. host_base r" and "\<forall>b \<in> set adds. host_base b \<and> graphic b"
    and "edit_bases adds rems bases \<noteq> []"
  shows "manifest_allowed D profile (edit_manifest adds rems m)"
  using assms(1,2) list_allowed_edited[OF _ assms(3,5,6), of profile]
  by (auto simp: manifest_allowed_def manifest_hosted_def edit_compose[OF assms(3,4)] opt_list_allowed_def)

subsection \<open>\<open>create\<close>, then \<open>modify\<close>, then a boot\<close>

lemma rewrite_doc_entry:
  assumes "rewrite_doc adds rems doc = Inr doc'" and "st \<in> stages"
  shows "rel_option (\<lambda>v v'. rewrite_entry adds rems v = Inr v') (get_path doc [st, arch]) (get_path doc' [st, arch])"
proof (rule get_path_step)
  let ?g = "rewrite_object (rewrite_arches adds rems)" and ?ks = "[''_stage1'', ''_stage2'']"
  show "rel_option (member_change ?g ?ks st) (get doc st) (get doc' st)"
    using assms(1) by (intro rewrite_members_object) (simp_all add: rewrite_doc_def split: if_splits)
next
  fix x x'
  assume "member_change (rewrite_object (rewrite_arches adds rems)) [''_stage1'', ''_stage2''] st x x'"
  with assms(2) have "rewrite_object (rewrite_arches adds rems) x = Inr x'"
    by (auto simp: member_change_def stages_def)
  then show "rel_option (\<lambda>v v'. rewrite_entry adds rems v = Inr v') (get_path x [arch]) (get_path x' [arch])"
  proof (cases rule: rewrite_object_get)
    case (1 m m')
    with rewrite_arches_get[OF 1(3), of arch] show ?thesis
      by (cases "bt_get m arch"; cases "bt_get m' arch") simp_all
  next
    case 2
    then show ?thesis by (cases x) simp_all
  qed
qed

definition given_bases :: "string list \<Rightarrow> string list" where
  "given_bases = map (trim_end_char CHR ''/'')"

definition new_bases :: "create_args \<Rightarrow> modify_args \<Rightarrow> string list" where
  "new_bases a m = edit_bases (given_bases (o_add m)) (given_bases (o_remove m)) (x_bases (create_ctx a))"

text \<open>What is on disk after both commands.\<close>

lemma modified_document:
  assumes "create H a fs = (Inr u, fs1)" and "modify H m fs1 = (Inr u', fs')" and "doc_path H (o_path m) = ud_path a"
    and "plain_arch (c_arch a)" and "crate_laws (h_deps H)" and "\<And>doc. old_doc H a fs = Some doc \<Longrightarrow> printable doc"
  obtains e2 b raw doc where "entry_allowed (h_deps H) Stage1 e2"
    and "entry_hosted (h_deps H) (published a fs') (x_bases (create_ctx a)) (c_arch a) e2 b (given_args H a)"
    and "\<forall>b \<in> set (x_bases (create_ctx a)). starts_with b ''http://''"
    and "\<not> c_manifest a \<Longrightarrow> \<exists>p. ac_entry e2 = Payload_Entry p"
    and "c_manifest a \<Longrightarrow> \<exists>r. ac_entry e2 = Manifest_Entry r"
    and "f_data fs' (ud_path a) = Some raw" and "value_from_slice (h_deps H) raw = Some doc"
    and "arch_value (c_arch a) doc
      = Some (ser_arch_config (edit_arch_config (given_bases (o_add m)) (given_bases (o_remove m)) e2))"
  using assms(1,4)
proof (rule create_Inr, goal_cases)
  case (1 e1 e2 doc doc1 b)
  note old = 1(2) and merged = 1(3) and written = 1(4)
  note law = crate_lawsD(6)[OF assms(5)]
  have doc1: "wf_json doc1" "printable doc1"
    using merge_doc_wf[OF merged] merge_doc_printable[OF merged] wf_old_doc assms(6) old by blast+
  obtain doc2 where run: "rewrite_doc (given_bases (o_add m)) (given_bases (o_remove m)) doc1 = Inr doc2"
    and data: "f_data fs' = (f_data fs1)(ud_path a := Some (print_doc (h_deps H) doc2))"
    using assms(2)
  proof (rule modify_Inr, goal_cases)
    case (1 d d')
    from 1(2) have "d = doc1" by (simp add: assms(3) written print_doc_back(1)[OF law doc1])
    with 1 show ?case by (simp add: given_bases_def assms(3))
  qed
  have read: "value_from_slice (h_deps H) (print_doc (h_deps H) doc2) = Some doc2"
    using print_doc_back(1)[OF law] rewrite_doc_fits[OF run doc1] by blast
  have "rel_option (\<lambda>v v'. rewrite_entry (given_bases (o_add m)) (given_bases (o_remove m)) v = Inr v')
      (get_path doc1 [''_stage2'', c_arch a]) (get_path doc2 [''_stage2'', c_arch a])"
    by (rule rewrite_doc_entry[OF run]) (simp add: stages_def)
  then have "get_path doc2 [''_stage2'', c_arch a]
      = Some (ser_arch_config (edit_arch_config (given_bases (o_add m)) (given_bases (o_remove m)) e2))"
    unfolding merge_doc_get(2)[OF merged]
    by (cases "get_path doc2 [''_stage2'', c_arch a]") (simp_all add: rewrite_ser_arch_config)
  then have val: "arch_value (c_arch a) doc2
      = Some (ser_arch_config (edit_arch_config (given_bases (o_add m)) (given_bases (o_remove m)) e2))"
    by (auto simp: arch_value_def split: option.splits)
  have same: "published a fs' name = published a fs1 name" if "name \<in> arch_names" for name
    using in_arch_files[OF that, of a] ud_path_not_arch_file[OF assms(4)] by (auto simp: published_def data)
  have "entry_hosted (h_deps H) (published a fs') (x_bases (create_ctx a)) (c_arch a) e2 b (given_args H a)"
    using 1(7) same by (rule entry_hosted_cong)
  with 1 read val data show ?case by (intro 1(1)[of e2 b "print_doc (h_deps H) doc2" doc2]) simp_all
qed

text \<open>
  The edited entry is that of a release: a payload served at the edited bases, or a pointer served there to
  a manifest whose payload is served at the old ones.
\<close>

lemma edited_release_entry:
  assumes "crate_laws (env_deps E)" and "entry_allowed (env_deps E) Stage1 e"
    and "entry_hosted (env_deps E) at bases arch e b args"
    and "\<forall>b \<in> set bases. host_base b" and "\<forall>b \<in> set adds. host_base b \<and> graphic b" and "\<forall>b \<in> set rems. host_base b"
    and "edit_bases adds rems bases \<noteq> []" and "hosts E (edit_bases adds rems bases) arch at"
    and "\<forall>b \<in> set bases. starts_with b ''http://''"
  obtains p where "ac_entry e = Payload_Entry p"
      and "release_entry E at arch (edit_arch_config adds rems e) (edit_payload adds rems p)"
      and "payload_hosted (env_deps E) at (edit_bases adds rems bases) arch (edit_payload adds rems p) b args"
    | p m where "ac_entry e = Manifest_Entry m"
      and "release_entry E at arch (edit_arch_config adds rems e) p" and "payload_hosted (env_deps E) at bases arch p b args"
proof -
  let ?D = "env_deps E"
  from assms(3) obtain p where p: "payload_hosted ?D at bases arch p b args" and plain: "ac_resolved_manifests e = []"
    and cases: "ac_entry e = Payload_Entry p
      \<or> (\<exists>r. ac_entry e = Manifest_Entry r \<and> manifest_hosted ?D at bases arch p r)"
    by (auto simp: entry_hosted_def)
  from cases assms(2) p obtain name where "list_allowed Stage1 (compose_urls bases arch name)"
    by (auto simp: entry_allowed_def payload_allowed_def payload_hosted_def manifest_allowed_def manifest_hosted_def)
  then have good: "payload_allowed ?D Stage1 p" and bases: "host_bases bases"
    using hosted_payload_allowed[OF assms(1) p assms(9)] list_allowed_compose_Cons assms(4)
    by (blast, fastforce simp: host_bases_def)
  from cases show thesis
  proof
    assume direct: "ac_entry e = Payload_Entry p"
    have "payload_allowed ?D Stage1 (edit_payload adds rems p)"
      by (rule edited_payload_allowed[OF p good bases assms(6,5,7)])
    then show thesis
      using direct plain edited_payload_hosted[OF p bases assms(6)]
      by (intro that(1)[OF direct]) (simp_all add: release_entry_def edit_arch_config_def)
  next
    assume "\<exists>r. ac_entry e = Manifest_Entry r \<and> manifest_hosted ?D at bases arch p r"
    then obtain r where r: "ac_entry e = Manifest_Entry r" "manifest_hosted ?D at bases arch p r" by blast
    have "manifest_allowed ?D Stage1 r" using assms(2) r(1) by (simp add: entry_allowed_def)
    note edited = edited_manifest_allowed[OF r(2) this bases assms(6,5,7)] edited_manifest_hosted[OF r(2) bases assms(6), of adds]
    show thesis
      using r(1) plain good edited assms(8) p
      by (intro that(2)[OF r(1)]) (auto simp: release_entry_def edit_arch_config_def)
  qed
qed

lemma modified_resolves:
  assumes "create H a fs = (Inr u, fs1)" and "modify H m fs1 = (Inr u', fs')" and "doc_path H (o_path m) = ud_path a"
    and "plain_arch (c_arch a)" and "brace_free (c_arch a)" and "crate_laws (h_deps H)"
    and "\<And>doc. old_doc H a fs = Some doc \<Longrightarrow> printable doc"
    and "\<forall>b \<in> set (x_bases (create_ctx a)). host_base b \<and> brace_free b"
    and "\<forall>b \<in> set (given_bases (o_add m)). host_base b \<and> graphic b \<and> brace_free b"
    and "\<forall>b \<in> set (given_bases (o_remove m)). host_base b" and "new_bases a m \<noteq> []"
    and "env_deps E = h_deps H" and "arch_key E = c_arch a"
    and "hosts E (new_bases a m) (c_arch a) (published a fs')"
    and "c_manifest a \<Longrightarrow> hosts E (x_bases (create_ctx a)) (c_arch a) (published a fs')"
  shows "\<exists>raw b input w'. f_data fs' (ud_path a) = Some raw \<and> published a fs' ''stage2'' = Some b
    \<and> resolve_payload E raw w = Some (Inr (b, default_args (given_args H a), input), w')
    \<and> (\<not> c_manifest a \<longrightarrow> input = raw)"
proof (rule modified_document[OF assms(1-4,6)], goal_cases)
  case (1 doc)
  then show ?case by (rule assms(7))
next
  case (2 e2 b raw doc)
  let ?adds = "given_bases (o_add m)" and ?rems = "given_bases (o_remove m)" and ?bases = "x_bases (create_ctx a)"
    and ?at = "published a fs'" and ?args = "given_args H a"
  let ?resolved = "\<exists>input w'. resolve_payload E raw w = Some (Inr (b, default_args ?args, input), w')
    \<and> (\<not> c_manifest a \<longrightarrow> input = raw)"
  note laws = assms(6)[folded assms(12)] and doc = 2(7)[folded assms(12)] 2(8) and direct = 2(4)
  have bases: "\<forall>b \<in> set ?bases. host_base b" "\<forall>b \<in> set ?adds. host_base b \<and> graphic b"
    "\<forall>b \<in> set ?bases. brace_free b" "\<forall>b \<in> set (new_bases a m). brace_free b"
    using assms(8,9) by (auto simp: new_bases_def set_edit_bases)
  have ?resolved
  proof (rule edited_release_entry[OF laws 2(1,2)[folded assms(12)] bases(1,2) assms(10) assms(11,14)[unfolded new_bases_def] 2(3)], goal_cases)
    case (1 p)
    then show ?case
      using resolve_hosted[OF laws assms(14) bases(4) assms(5,13) doc 1(3)[folded new_bases_def] 1(2), of w]
      by (auto simp: edit_arch_config_def)
  next
    case (2 p r)
    then have manifest: "c_manifest a" using direct by auto
    then show ?case
      using resolve_hosted[OF laws assms(15)[OF manifest] bases(3) assms(5,13) doc 2(3,2), of w] by blast
  qed
  moreover have "published a fs' ''stage2'' = Some b" using 2(2) by (auto simp: entry_hosted_def payload_hosted_def)
  ultimately show ?case using 2(6) by blast
qed

subsection \<open>What an edit cannot do\<close>

lemma admit_payload_unanswered:
  assumes "\<forall>u \<in> set us. u \<notin> answered_urls E"
  shows "\<exists>e w'. admit_payload E us mode w = (Inl e, w')"
  unfolding admit_payload_def
proof (rule adm.all_mirrors_fail)
  fix u s
  assume "u \<in> set us"
  with assms have "fst (download_binary E u s) \<noteq> Inr b" for b
    by (cases "download_binary E u s") (auto dest: download_answered)
  then show "\<exists>e s'. admit_from E u mode s = (Inl e, s')"
    by (cases "download_binary E u s"; cases "fst (download_binary E u s)") (auto simp: admit_from_def then_do_def)
qed

text \<open>
  A signed manifest names the mirrors of the day it was signed. Once none of them answers, the
  release does not boot, whatever mirrors \<open>modify\<close> has added to the document.
\<close>

lemma modified_stranded:
  assumes "create H a fs = (Inr u, fs1)" and "modify H m fs1 = (Inr u', fs')" and "doc_path H (o_path m) = ud_path a"
    and "plain_arch (c_arch a)" and "crate_laws (h_deps H)" and "\<And>doc. old_doc H a fs = Some doc \<Longrightarrow> printable doc"
    and "c_manifest a" and "\<forall>b \<in> set (x_bases (create_ctx a)). host_base b"
    and "\<forall>b \<in> set (given_bases (o_add m)). host_base b \<and> graphic b"
    and "\<forall>b \<in> set (given_bases (o_remove m)). host_base b" and "new_bases a m \<noteq> []"
    and "env_deps E = h_deps H" and "arch_key E = c_arch a"
    and "hosts E (new_bases a m) (c_arch a) (published a fs')"
    and "\<forall>b \<in> set (x_bases (create_ctx a)). compose_url (c_arch a) ''stage2'' b \<notin> answered_urls E"
  shows "\<exists>raw e w'. f_data fs' (ud_path a) = Some raw \<and> resolve_payload E raw w = Some (Inl e, w')"
proof (rule modified_document[OF assms(1-5)], goal_cases)
  case (1 doc)
  then show ?case by (rule assms(6))
next
  case (2 e2 b raw doc)
  let ?bases = "x_bases (create_ctx a)" and ?at = "published a fs'" and ?D = "h_deps H"
    and ?edit = "edit_manifest (given_bases (o_add m)) (given_bases (o_remove m))"
  from 2(2,5) assms(7) obtain p r where p: "payload_hosted ?D ?at ?bases (c_arch a) p b (given_args H a)"
    and r: "ac_entry e2 = Manifest_Entry r" "ac_resolved_manifests e2 = []" "manifest_hosted ?D ?at ?bases (c_arch a) p r"
    by (auto simp: entry_hosted_def)
  have allowed: "manifest_allowed ?D Stage1 r" using 2(1) r(1) by (simp add: entry_allowed_def)
  then have "list_allowed Stage1 (compose_urls ?bases (c_arch a) ''stage2.manifest.json'')"
    using r(3) by (simp add: manifest_allowed_def manifest_hosted_def)
  then have good: "payload_allowed ?D Stage1 p" and bases: "host_bases ?bases"
    using hosted_payload_allowed[OF assms(5) p 2(3)] list_allowed_compose_Cons assms(8)
    by (blast, fastforce simp: host_bases_def)
  note edited = edited_manifest_allowed[OF r(3) allowed bases assms(10,9) assms(11)[unfolded new_bases_def]]
    edited_manifest_hosted[OF r(3) bases assms(10), of "given_bases (o_add m)", folded new_bases_def]
  have val: "arch_value (c_arch a) doc = Some (JObj [(''manifest'', ser_manifest_ref (?edit r))])"
    using 2(8) r(1,2) by (simp add: edit_arch_config_def ser_pointer)
  obtain doc' h w1 where hop: "resolve_step E raw doc [] w = (Inr (Again doc' h), w1)"
    and val': "arch_value (c_arch a) doc' = Some (JObj [(''payload'', ser_payload p)])"
    using resolve_pointer[OF assms(5)[folded assms(12)] assms(13) edited(2,1)[folded assms(12)] assms(14) val, of raw w] by blast
  have "arch_value (arch_key E) doc' = Some (ser_arch_config (direct_entry p))"
    using val' assms(13) by (simp add: ser_direct)
  from resolve_step_ser[OF this, of raw h w1]
  have step: "resolve_step E raw doc' h w1 = payload_step E raw doc' h p w1" by (simp add: direct_entry_def)
  have "\<forall>u \<in> set (urls (p_url p)). u \<notin> answered_urls E"
    using p assms(15) by (auto simp: payload_hosted_def compose_urls_def)
  then obtain e w2 where "admit_payload E (urls (p_url p)) (mode_of p) w1 = (Inl e, w2)"
    using admit_payload_unanswered by blast
  moreover have "admission (env_deps E) p Stage1 = Inr (mode_of p)"
    using good assms(12) by (simp add: admission_Inr_iff)
  ultimately have "resolve_step E raw doc' h w1 = (Inl e, w2)"
    by (simp add: step payload_step_def then_do_def)
  then have "resolve_loop E raw doc' h w1 = Some (Inl e, w2)" by (subst resolve_loop.simps) simp
  then have "resolve_loop E raw doc [] w = Some (Inl e, w2)" using hop by (subst resolve_loop.simps) simp
  then show ?case using 2(6,7) assms(12) by (auto simp: resolve_payload_def)
qed

end
