(* ===== verification/Mkuki.thy ===== *)
theory Mkuki
  imports Host
begin

section \<open>mkuki: assembling the image\<close>

text \<open>
  \<open>crates/mkuki/src/lib.rs\<close> and the steps of \<open>src/main.rs\<close> after argument parsing: layers to
  \<open>.initrd\<close>, the os-release text, the section list, and the run that writes the image and its
  detached signature. The events given to \<open>tracing\<close> are not modelled.
\<close>

datatype layer_source = Dir_Source string | Tar_Source bytes

record layer =
  l_label :: string
  l_source :: layer_source

record initramfs =
  i_data :: bytes
  i_layer_hashes :: "(string \<times> string) list"

record uki_spec =
  u_stub :: bytes
  u_kernel :: bytes
  u_initrd :: bytes
  u_os_release :: bytes
  u_cmdline :: bytes
  u_uname :: "string option"

definition source_from_path :: "host \<Rightarrow> string \<Rightarrow> layer_source tool" where
  "source_from_path H path =
     (if h_is_dir H path then ret (Dir_Source path)
      else then_do (read_bytes H path) (\<lambda>raw.
        if take 2 raw = [0x1f, 0x8b]
        then then_do (lift (ok_or Gunzip_Error (h_gunzip H raw))) (\<lambda>tar. ret (Tar_Source tar))
        else ret (Tar_Source raw)))"

definition layer_label :: "string \<Rightarrow> string" where
  "layer_label p =
     (case path_file_name p of
        None \<Rightarrow> ''layer''
      | Some s \<Rightarrow> (let stem = takeWhile (\<lambda>c. c \<noteq> CHR ''.'') s in if stem = [] then ''layer'' else stem))"

definition layer_from_path :: "host \<Rightarrow> string \<Rightarrow> layer tool" where
  "layer_from_path H path =
     then_do (source_from_path H path) (\<lambda>src. ret \<lparr>l_label = layer_label path, l_source = src\<rparr>)"

definition build_layer :: "host \<Rightarrow> layer_source \<Rightarrow> tool_error + bytes" where
  "build_layer H src =
     and_then (map_err Cpio_Error (case src of
         Dir_Source p \<Rightarrow> add_dir (h_walk H p) new_builder
       | Tar_Source b \<Rightarrow> add_tar (h_tar H b) new_builder)) (\<lambda>b.
     and_then (map_err Cpio_Error (finish b)) (\<lambda>archive.
     ok_or Gzip_Error (h_gzip H archive)))"

fun build_layers :: "host \<Rightarrow> layer list \<Rightarrow> bytes \<Rightarrow> (string \<times> string) list \<Rightarrow> tool_error + initramfs" where
  "build_layers H [] data hashes = Inr \<lparr>i_data = data, i_layer_hashes = hashes\<rparr>"
| "build_layers H (l # ls) data hashes =
     and_then (build_layer H (l_source l)) (\<lambda>gz.
       build_layers H ls (data @ gz) (hashes @ [(l_label l, sha256_hex (h_deps H) gz)]))"

definition build_initramfs :: "host \<Rightarrow> layer list \<Rightarrow> tool_error + initramfs" where
  "build_initramfs H layers = build_layers H layers [] []"

definition uki_sections :: "uki_spec \<Rightarrow> uki_section list" where
  "uki_sections spec =
     [\<lparr>s_name = ''.osrel'', s_data = u_os_release spec\<rparr>, \<lparr>s_name = ''.cmdline'', s_data = u_cmdline spec\<rparr>]
     @ (case u_uname spec of None \<Rightarrow> [] | Some u \<Rightarrow> [\<lparr>s_name = ''.uname'', s_data = str_bytes u\<rparr>])
     @ [\<lparr>s_name = ''.linux'', s_data = u_kernel spec\<rparr>, \<lparr>s_name = ''.initrd'', s_data = u_initrd spec\<rparr>]"

definition assemble :: "uki_spec \<Rightarrow> uki_error + bytes" where
  "assemble spec = build (u_stub spec) (uki_sections spec)"

text \<open>\<open>&s[..8]\<close>, which panics on a shorter string.\<close>

definition short :: "string \<Rightarrow> tool_error + string" where
  "short s = (if 8 \<le> length s then Inr (take 8 s) else Inl Slice_Panic)"

fun layer_marks :: "(string \<times> string) list \<Rightarrow> tool_error + string" where
  "layer_marks [] = Inr []"
| "layer_marks ((label, h) # rest) =
     and_then (short h) (\<lambda>s. and_then (layer_marks rest) (\<lambda>t. Inr (''.'' @ label @ ''-'' @ s @ t)))"

definition newline :: string where
  "newline = [CHR 0x0A]"

definition generate_os_release ::
    "deps \<Rightarrow> string \<Rightarrow> bytes \<Rightarrow> bytes \<Rightarrow> (string \<times> string) list \<Rightarrow> tool_error + string" where
  "generate_os_release D ident linux cmdline layer_hashes =
     and_then (case layer_hashes of
         [(label, h)] \<Rightarrow> and_then (short h) (\<lambda>s. Inr (''.initrd-'' @ s))
       | _ \<Rightarrow> layer_marks layer_hashes) (\<lambda>initrd.
     and_then (short (sha256_hex D linux)) (\<lambda>k.
     and_then (short (sha256_hex D cmdline)) (\<lambda>c.
     let build_id = ''krnl-'' @ k @ ''.args-'' @ c @ initrd in
     Inr (''ID='' @ ident @ newline @ ''NAME='' @ [CHR 0x22] @ ident @ [CHR 0x22] @ newline
        @ ''PRETTY_NAME='' @ [CHR 0x22] @ ident @ [CHR 0x22] @ newline
        @ ''BUILD_ID='' @ build_id @ newline))))"

text \<open>One external command. Its run is recorded whether or not it can be started.\<close>

definition run_command :: "host \<Rightarrow> command \<Rightarrow> (bool \<times> bytes) option tool" where
  "run_command H c fs = (Inr (h_run H (f_commands fs) c), fs\<lparr>f_commands := f_commands fs @ [c]\<rparr>)"

definition docker_export :: "host \<Rightarrow> string \<Rightarrow> string \<Rightarrow> bytes tool" where
  "docker_export H engine img =
     then_do (run_command H (engine, [''create'', img])) (\<lambda>r.
     case r of
       None \<Rightarrow> throw (Command_Error (engine, [''create'', img]))
     | Some (ok, stdout) \<Rightarrow>
       if \<not> ok then throw (Command_Error (engine, [''create'', img]))
       else then_do (lift (ok_or (Not_Utf8 ''stdout'') (string_from_utf8 stdout))) (\<lambda>text.
         let cid = str_trim text in
         then_do (run_command H (engine, [''export'', cid])) (\<lambda>r.
         case r of
           None \<Rightarrow> throw (Command_Error (engine, [''export'', cid]))
         | Some (ok, stdout) \<Rightarrow>
           then_do (run_command H (engine, [''rm'', ''-f'', cid])) (\<lambda>_.
             if ok then ret stdout else throw (Command_Error (engine, [''export'', cid]))))))"

record mkuki_args =
  a_layers :: "string list"
  a_from_docker :: "string option"
  a_docker :: string
  a_rootfs :: "string option"
  a_kernel :: string
  a_stub :: string
  a_cmdline :: string
  a_uname :: "string option"
  a_os_release :: "string option"
  a_id :: string
  a_out :: string
  a_sign_key :: "string option"

fun layers_from_paths :: "host \<Rightarrow> string list \<Rightarrow> layer list tool" where
  "layers_from_paths H [] = ret []"
| "layers_from_paths H (p # ps) =
     then_do (layer_from_path H p) (\<lambda>l. then_do (layers_from_paths H ps) (\<lambda>ls. ret (l # ls)))"

definition resolve_layers :: "host \<Rightarrow> mkuki_args \<Rightarrow> layer list tool" where
  "resolve_layers H a =
     (if a_layers a \<noteq> [] then layers_from_paths H (a_layers a)
      else (case a_from_docker a of
          Some img \<Rightarrow>
            then_do (docker_export H (a_docker a) img) (\<lambda>tar.
            ret [\<lparr>l_label = ''rootfs'', l_source = Tar_Source tar\<rparr>])
        | None \<Rightarrow>
          (case a_rootfs a of
             Some rootfs \<Rightarrow>
               then_do (source_from_path H rootfs) (\<lambda>src.
               ret [\<lparr>l_label = ''rootfs'', l_source = src\<rparr>])
           | None \<Rightarrow> throw No_Rootfs)))"

definition sig_path :: "string \<Rightarrow> string" where
  "sig_path out = out @ ''.sig''"

text \<open>The detached signature, when a key is given.\<close>

definition sign_image :: "host \<Rightarrow> mkuki_args \<Rightarrow> bytes \<Rightarrow> unit tool" where
  "sign_image H a img =
     (case a_sign_key a of
        None \<Rightarrow> ret ()
      | Some key_path \<Rightarrow>
          then_do (read_to_string H key_path) (\<lambda>pem.
          then_do (lift (map_err Seed_Error (sign (h_deps H) pem Stage1Uki img))) (\<lambda>s.
          write_bytes H (sig_path (a_out a)) (signature s))))"

fun print_lines :: "string list \<Rightarrow> unit tool" where
  "print_lines [] = ret ()"
| "print_lines (l # ls) = then_do (print_line l) (\<lambda>_. print_lines ls)"

definition mkuki_main :: "host \<Rightarrow> mkuki_args \<Rightarrow> unit tool" where
  "mkuki_main H a =
     then_do (resolve_layers H a) (\<lambda>layers.
     then_do (lift (build_initramfs H layers)) (\<lambda>initrd.
     then_do (read_bytes H (a_kernel a)) (\<lambda>kernel.
     then_do (case a_os_release a of
         Some p \<Rightarrow> read_bytes H p
       | None \<Rightarrow> lift (and_then
           (generate_os_release (h_deps H) (a_id a) kernel (str_bytes (a_cmdline a)) (i_layer_hashes initrd))
           (\<lambda>t. Inr (str_bytes t)))) (\<lambda>osrel.
     then_do (read_bytes H (a_stub a)) (\<lambda>stub.
     then_do (lift (map_err Uki_Error (assemble
         \<lparr>u_stub = stub, u_kernel = kernel, u_initrd = i_data initrd, u_os_release = osrel,
          u_cmdline = str_bytes (a_cmdline a), u_uname = a_uname a\<rparr>))) (\<lambda>img.
     then_do (write_bytes H (a_out a) img) (\<lambda>_.
     then_do (sign_image H a img) (\<lambda>_.
     then_do (print_line (newline @ ''sha256: '' @ sha256_hex (h_deps H) img)) (\<lambda>_.
     print_lines (map (\<lambda>(label, h). ''layer '' @ label @ '': '' @ h) (i_layer_hashes initrd)))))))))))"

subsection \<open>The initramfs\<close>

text \<open>One compressed archive per layer, concatenated in order, each listed with its digest.\<close>

lemma build_layers_Inr_iff:
  "build_layers H ls data hashes = Inr i \<longleftrightarrow>
     (\<exists>gzs. list_all2 (\<lambda>l gz. build_layer H (l_source l) = Inr gz) ls gzs
       \<and> i = \<lparr>i_data = data @ concat gzs,
              i_layer_hashes = hashes @ map2 (\<lambda>l gz. (l_label l, sha256_hex (h_deps H) gz)) ls gzs\<rparr>)"
proof (induction ls arbitrary: data hashes)
  case Nil
  then show ?case by auto
next
  case (Cons l ls)
  show ?case
  proof
    assume "build_layers H (l # ls) data hashes = Inr i"
    then obtain gz where gz: "build_layer H (l_source l) = Inr gz"
      and rest: "build_layers H ls (data @ gz) (hashes @ [(l_label l, sha256_hex (h_deps H) gz)]) = Inr i"
      by (auto simp: res_simps)
    from rest[unfolded Cons.IH] obtain gzs where
      "list_all2 (\<lambda>l gz. build_layer H (l_source l) = Inr gz) ls gzs"
      "i = \<lparr>i_data = (data @ gz) @ concat gzs, i_layer_hashes =
        (hashes @ [(l_label l, sha256_hex (h_deps H) gz)]) @ map2 (\<lambda>l gz. (l_label l, sha256_hex (h_deps H) gz)) ls gzs\<rparr>"
      by blast
    with gz show "\<exists>gzs. list_all2 (\<lambda>l gz. build_layer H (l_source l) = Inr gz) (l # ls) gzs
       \<and> i = \<lparr>i_data = data @ concat gzs,
              i_layer_hashes = hashes @ map2 (\<lambda>l gz. (l_label l, sha256_hex (h_deps H) gz)) (l # ls) gzs\<rparr>"
      by (intro exI[of _ "gz # gzs"]) simp
  next
    assume "\<exists>gzs. list_all2 (\<lambda>l gz. build_layer H (l_source l) = Inr gz) (l # ls) gzs
       \<and> i = \<lparr>i_data = data @ concat gzs,
              i_layer_hashes = hashes @ map2 (\<lambda>l gz. (l_label l, sha256_hex (h_deps H) gz)) (l # ls) gzs\<rparr>"
    then show "build_layers H (l # ls) data hashes = Inr i"
      by (auto simp: list_all2_Cons1 res_simps Cons.IH)
  qed
qed

subsection \<open>The sections of an image\<close>

definition spec_fits :: "uki_spec \<Rightarrow> bool" where
  "spec_fits spec \<longleftrightarrow> (\<forall>s \<in> set (uki_sections spec). length (s_data s) < 2 ^ 32)"

text \<open>Section \<open>j\<close> of the list is in the image, whole, under the next header after the stub's.\<close>

definition has_section :: "pe_view \<Rightarrow> nat \<Rightarrow> bytes \<Rightarrow> bytes \<Rightarrow> nat \<Rightarrow> uki_section \<Rightarrow> bool" where
  "has_section pe k stub img j s \<longleftrightarrow>
     (\<exists>vaddr rsize rptr. read_section img (sect_table pe + (num_sections pe + j) * 40)
        = Inr (padded_name s, of_nat (length (s_data s)), vaddr, rsize, rptr)
      \<and> holds_data (2 ^ k) (length stub) img s (unat rptr) (unat rsize))"

lemma assemble_sections:
  assumes "assemble spec = Inr img" and "sound_stub (u_stub spec) pe k" and "spec_fits spec"
  shows "parse_pe img = Inr (pe\<lparr>num_sections := num_sections pe + length (uki_sections spec)\<rparr>)"
    and "j < length (uki_sections spec) \<Longrightarrow> has_section pe k (u_stub spec) img j (uki_sections spec ! j)"
  using build_parses[of "u_stub spec" "uki_sections spec" img pe k] build_sections[of "u_stub spec" "uki_sections spec" img pe k j] assms
  by (simp_all add: assemble_def spec_fits_def has_section_def)

subsection \<open>The os-release text\<close>

lemma short_hash: "sha256_law D \<Longrightarrow> short (sha256_hex D b) = Inr (take 8 (sha256_hex D b))"
  by (simp add: short_def sha256_hex_def sha256_law_def)

definition layer_mark :: "string \<times> string \<Rightarrow> string" where
  "layer_mark lh = ''.'' @ fst lh @ ''-'' @ take 8 (snd lh)"

lemma layer_marks_total:
  "\<forall>lh \<in> set hashes. 8 \<le> length (snd lh) \<Longrightarrow> layer_marks hashes = Inr (concat (map layer_mark hashes))"
  by (induction hashes rule: layer_marks.induct) (auto simp: short_def layer_mark_def)

lemma build_layers_hash_lengths:
  assumes "build_layers H ls data hashes = Inr i" and "sha256_law (h_deps H)"
    and "\<forall>lh \<in> set hashes. length (snd lh) = 64"
  shows "\<forall>lh \<in> set (i_layer_hashes i). length (snd lh) = 64"
  using assms unfolding build_layers_Inr_iff
  by (fastforce simp: sha256_hex_def sha256_law_def)

text \<open>The build id, for digests of the usual length; it cannot panic.\<close>

definition initrd_mark :: "(string \<times> string) list \<Rightarrow> string" where
  "initrd_mark hashes =
     (case hashes of [(_, h)] \<Rightarrow> ''.initrd-'' @ take 8 h | _ \<Rightarrow> concat (map layer_mark hashes))"

lemma generate_os_release_total:
  assumes "sha256_law D" and "\<forall>lh \<in> set hashes. 8 \<le> length (snd lh)"
  shows "generate_os_release D ident linux cmdline hashes =
    Inr (''ID='' @ ident @ newline @ ''NAME='' @ [CHR 0x22] @ ident @ [CHR 0x22] @ newline
      @ ''PRETTY_NAME='' @ [CHR 0x22] @ ident @ [CHR 0x22] @ newline
      @ ''BUILD_ID='' @ ''krnl-'' @ take 8 (sha256_hex D linux) @ ''.args-'' @ take 8 (sha256_hex D cmdline)
      @ initrd_mark hashes @ newline)"
proof -
  have "(case hashes of [(label, h)] \<Rightarrow> and_then (short h) (\<lambda>s. Inr (''.initrd-'' @ s))
       | _ \<Rightarrow> layer_marks hashes) = Inr (initrd_mark hashes)"
    using assms(2) layer_marks_total[OF assms(2)]
    by (auto simp: initrd_mark_def short_def split: list.split)
  then show ?thesis
    unfolding generate_os_release_def by (simp add: short_hash[OF assms(1)] Let_def)
qed

subsection \<open>Exporting a container\<close>

text \<open>
  The container made by \<open>create\<close> is removed on every path on which \<open>export\<close> could be started; a
  container id that is not UTF-8, or an \<open>export\<close> that cannot be started, leaves it behind.
\<close>

definition exported :: "host \<Rightarrow> string \<Rightarrow> string \<Rightarrow> command list \<Rightarrow> command list \<Rightarrow> bool" where
  "exported H engine img before cmds \<longleftrightarrow>
     (let create = (engine, [''create'', img]) in
      (cmds = [create] \<and> \<not> (\<exists>out cid. h_run H before create = Some (True, out) \<and> string_from_utf8 out = Some cid))
      \<or> (\<exists>out cid. h_run H before create = Some (True, out) \<and> string_from_utf8 out = Some cid
          \<and> (let export = (engine, [''export'', str_trim cid]) in
             cmds = [create, export] @ (if h_run H (before @ [create]) export = None then []
                                       else [(engine, [''rm'', ''-f'', str_trim cid])]))))"

lemma docker_export_commands:
  assumes "docker_export H engine img fs = (r, fs')"
  shows "\<exists>cmds. f_commands fs' = f_commands fs @ cmds \<and> exported H engine img (f_commands fs) cmds"
proof -
  let ?create = "(engine, [''create'', img])"
  show ?thesis
  proof (cases "\<exists>out cid. h_run H (f_commands fs) ?create = Some (True, out) \<and> string_from_utf8 out = Some cid")
    case False
    with assms show ?thesis
      by (intro exI[of _ "[?create]"])
         (auto simp: docker_export_def then_do_def run_command_def exported_def Let_def ok_or_def
           split: option.splits if_splits)
  next
    case True
    then obtain out cid where create: "h_run H (f_commands fs) ?create = Some (True, out)"
      and cid: "string_from_utf8 out = Some cid" by blast
    let ?export = "(engine, [''export'', str_trim cid])"
    show ?thesis
    proof (cases "h_run H (f_commands fs @ [?create]) ?export")
      case None
      with assms create cid show ?thesis
        by (intro exI[of _ "[?create, ?export]"])
           (auto simp: docker_export_def then_do_def run_command_def exported_def Let_def)
    next
      case (Some res)
      with assms create cid show ?thesis
        by (intro exI[of _ "[?create, ?export, (engine, [''rm'', ''-f'', str_trim cid])]"])
           (auto simp: docker_export_def then_do_def run_command_def exported_def Let_def
             split: prod.splits if_splits)
    qed
  qed
qed

subsection \<open>A whole run\<close>

text \<open>Until the image is written, nothing is.\<close>

definition reads_only :: "files \<Rightarrow> files \<Rightarrow> bool" where
  "reads_only fs fs' \<longleftrightarrow> f_data fs' = f_data fs \<and> f_printed fs' = f_printed fs"

interpretation ro: frame_relation reads_only
  by unfold_locales (auto simp: reads_only_def)

lemma reads_read_bytes: "keeps reads_only (read_bytes H p)"
  by (auto intro!: keepsI simp: read_bytes_def reads_only_def)

lemma reads_run_command: "keeps reads_only (run_command H c)"
  by (auto intro!: keepsI simp: run_command_def reads_only_def)

lemma reads_source: "keeps reads_only (source_from_path H p)"
  unfolding source_from_path_def by (auto intro!: ro.keeps_intros reads_read_bytes)

lemma reads_layers_from_paths: "keeps reads_only (layers_from_paths H ps)"
  by (induction ps; unfold layers_from_paths.simps layer_from_path_def)
     (intro ro.keeps_intros reads_source)+

lemma reads_docker_export: "keeps reads_only (docker_export H engine img)"
  unfolding docker_export_def Let_def
  by (auto intro!: ro.keeps_intros reads_run_command split: option.split prod.split)

lemma reads_resolve_layers: "keeps reads_only (resolve_layers H a)"
  unfolding resolve_layers_def
  by (auto intro!: ro.keeps_intros reads_layers_from_paths reads_docker_export reads_source split: option.split)

lemma print_lines_run: "print_lines ls fs = (Inr (), fs\<lparr>f_printed := f_printed fs @ ls\<rparr>)"
  by (induction ls arbitrary: fs) (simp_all add: then_do_def print_line_def)

lemma sig_path_differs: "sig_path p \<noteq> p"
  by (simp add: sig_path_def)

lemma sign_image_Inr:
  assumes "sign_image H a img fs = (Inr u, fs')"
  shows "(a_sign_key a = None \<and> fs' = fs) \<or>
    (\<exists>kp pem s. a_sign_key a = Some kp \<and> sign (h_deps H) pem Stage1Uki img = Inr s
      \<and> fs' = put_file (sig_path (a_out a)) (signature s) fs)"
  using assms by (auto simp: sign_image_def res_simps split: option.splits)

lemma mkuki_main_Inr:
  assumes "mkuki_main H a fs = (Inr u, fs')"
  obtains layers initrd kernel osrel stub img fs1
  where "resolve_layers H a fs = (Inr layers, fs1)" and "build_initramfs H layers = Inr initrd"
    and "f_data fs (a_kernel a) = Some kernel" and "f_data fs (a_stub a) = Some stub"
    and "case a_os_release a of Some p \<Rightarrow> f_data fs p = Some osrel
      | None \<Rightarrow> \<exists>t. generate_os_release (h_deps H) (a_id a) kernel (str_bytes (a_cmdline a)) (i_layer_hashes initrd) = Inr t
                 \<and> osrel = str_bytes t"
    and "assemble \<lparr>u_stub = stub, u_kernel = kernel, u_initrd = i_data initrd, u_os_release = osrel,
          u_cmdline = str_bytes (a_cmdline a), u_uname = a_uname a\<rparr> = Inr img"
    and "f_data fs' (a_out a) = Some img"
    and "touches {a_out a, sig_path (a_out a)} fs fs'"
    and "a_sign_key a \<noteq> None \<Longrightarrow> \<exists>pem s. sign (h_deps H) pem Stage1Uki img = Inr s
      \<and> f_data fs' (sig_path (a_out a)) = Some (signature s)"
    and "a_sign_key a = None \<Longrightarrow> touches {a_out a} fs fs'"
    and "f_printed fs' = f_printed fs @ (newline @ ''sha256: '' @ sha256_hex (h_deps H) img)
      # map (\<lambda>(label, h). ''layer '' @ label @ '': '' @ h) (i_layer_hashes initrd)"
using assms unfolding mkuki_main_def
proof (elim run_elims, goal_cases)
  case (1 layers fs1 initrd fs2 kernel fs3 osrel fs4 stub fs5 img fs6 u1 fs7 u2 fs8 u3 fs9)
  have fs1: "f_data fs1 = f_data fs" "f_printed fs1 = f_printed fs"
    using keepsD[OF reads_resolve_layers 1(2)] by (simp_all add: reads_only_def)
  have "fs4 = fs1 \<and> (case a_os_release a of Some p \<Rightarrow> f_data fs p = Some osrel
      | None \<Rightarrow> \<exists>t. generate_os_release (h_deps H) (a_id a) kernel (str_bytes (a_cmdline a)) (i_layer_hashes initrd) = Inr t
                 \<and> osrel = str_bytes t)"
    using 1(3,4,11) fs1 by (cases "a_os_release a") (auto simp: res_simps)
  then have fs4: "fs4 = fs1" and osrel: "case a_os_release a of Some p \<Rightarrow> f_data fs p = Some osrel
      | None \<Rightarrow> \<exists>t. generate_os_release (h_deps H) (a_id a) kernel (str_bytes (a_cmdline a)) (i_layer_hashes initrd) = Inr t
                 \<and> osrel = str_bytes t" by simp_all
  have inputs: "f_data fs (a_kernel a) = Some kernel" "f_data fs (a_stub a) = Some stub" "fs6 = fs1"
    using 1(3,5,11,13) fs1 fs4 by (auto simp: res_simps)
  have fs7: "fs7 = put_file (a_out a) img fs1" using 1(6) inputs(3) by (simp add: res_simps)
  have out: "f_data fs' = f_data fs8" "f_printed fs' = f_printed fs8 @
      (newline @ ''sha256: '' @ sha256_hex (h_deps H) img)
      # map (\<lambda>(label, h). ''layer '' @ label @ '': '' @ h) (i_layer_hashes initrd)"
    using 1(8,9) by (auto simp: print_line_def print_lines_run)
  have printed: "f_printed fs8 = f_printed fs"
    using sign_image_Inr[OF 1(7)] fs7 fs1 by (auto simp: put_file_def)
  have signed: "a_sign_key a = None \<and> f_data fs' = (f_data fs)(a_out a := Some img)
    \<or> (\<exists>pem s. a_sign_key a \<noteq> None \<and> sign (h_deps H) pem Stage1Uki img = Inr s
        \<and> f_data fs' = (f_data fs)(a_out a := Some img, sig_path (a_out a) := Some (signature s)))"
    using sign_image_Inr[OF 1(7)]
  proof
    assume "a_sign_key a = None \<and> fs8 = fs7"
    then show ?thesis using fs7 fs1 out(1) by (simp add: put_file_def)
  next
    assume "\<exists>kp pem s. a_sign_key a = Some kp \<and> sign (h_deps H) pem Stage1Uki img = Inr s
      \<and> fs8 = put_file (sig_path (a_out a)) (signature s) fs7"
    then obtain kp pem s where s: "a_sign_key a = Some kp" "sign (h_deps H) pem Stage1Uki img = Inr s"
      "fs8 = put_file (sig_path (a_out a)) (signature s) fs7" by blast
    then have "f_data fs' = (f_data fs)(a_out a := Some img, sig_path (a_out a) := Some (signature s))"
      using fs7 fs1 out(1) by (simp add: put_file_def)
    with s show ?thesis by auto
  qed
  show ?case
  proof (rule 1(1)[OF 1(2) 1(10) inputs(1,2) osrel])
    show "a_sign_key a \<noteq> None \<Longrightarrow> \<exists>pem s. sign (h_deps H) pem Stage1Uki img = Inr s
        \<and> f_data fs' (sig_path (a_out a)) = Some (signature s)"
      using signed by (metis fun_upd_same)
  qed (use signed 1(12) out(2) printed sig_path_differs[of "a_out a"]
       in \<open>auto simp: touches_def res_simps\<close>)
qed

end
