(* ===== verification/Demo.thy ===== *)
theory Demo
  imports Stage1_Boot
begin

section \<open>A small concrete world\<close>

text \<open>
  Concrete functions for the third-party code and a machine with a web server, at which the
  properties with hypotheses are applied. The digest pads or cuts to 32 bytes, base64 is played by
  hexadecimal, a signature adds the key to the message, and the JSON reader and printer are a table
  of the documents in use. They satisfy the laws of \<open>Deps\<close>; nothing else is claimed of them.
\<close>

definition pad :: "nat \<Rightarrow> bytes \<Rightarrow> bytes" where
  "pad n b = take n (b @ replicate n 0)"

definition unhex_digit :: "char \<Rightarrow> byte option" where
  "unhex_digit c = map_option of_nat (find_char c ''0123456789abcdef'')"

fun unhex :: "string \<Rightarrow> bytes option" where
  "unhex [] = Some []"
| "unhex [c] = None"
| "unhex (c # d # s) =
     (case (unhex_digit c, unhex_digit d, unhex s) of
        (Some x, Some y, Some b) \<Rightarrow> Some ((16 * x + y) # b)
      | _ \<Rightarrow> None)"

definition demo_deps :: "(bytes \<times> json) list \<Rightarrow> deps" where
  "demo_deps table =
     \<lparr>sha256_digest = pad 32, hex_encode = hex_lower, b64_encode = hex_lower, b64_decode = unhex,
      ed_public = pad 32,
      ed_sign = (\<lambda>seed m. map2 (+) (pad 32 seed @ pad 32 seed) (pad 64 m)),
      ed_pk_from_slice = (\<lambda>b. if length b = 32 then Some b else None),
      ed_sig_from_slice = (\<lambda>b. if length b = 64 then Some b else None),
      ed_verify = (\<lambda>pk m sig. sig = map2 (+) (pk @ pk) (pad 64 m)),
      json_parse = map_of table, json_typed = map_of table,
      json_compact = (\<lambda>v. case find (\<lambda>p. snd p = v) table of Some p \<Rightarrow> fst p | None \<Rightarrow> []),
      json_pretty = (\<lambda>v. case find (\<lambda>p. snd p = v) table of Some p \<Rightarrow> fst p | None \<Rightarrow> [])\<rparr>"

lemma length_pad [simp]: "length (pad n b) = n"
  by (simp add: pad_def)

lemma unhex_hex_digit: "n < 16 \<Longrightarrow> unhex_digit (hex_digit n) = Some (of_nat n)"
proof -
  have "\<forall>n \<in> set [0..<16]. unhex_digit (hex_digit n) = Some (of_nat n)"
    by (simp add: hex_digit_def unhex_digit_def upt_conv_Cons)
  then show "n < 16 \<Longrightarrow> ?thesis" by simp
qed

lemma unhex_hex_byte: "unhex (hex_byte b @ s) = map_option (Cons b) (unhex s)"
proof -
  have lt: "unat b < 256" by (rule order.strict_trans2[OF unsigned_less]) simp
  have "of_nat (unat b) = (of_nat (16 * (unat b div 16) + unat b mod 16) :: byte)" by simp
  then have b: "b = 16 * of_nat (unat b div 16) + of_nat (unat b mod 16)"
    by (simp only: of_nat_add of_nat_mult) simp
  show ?thesis
    using b lt by (cases "unhex s") (simp_all add: hex_byte_def unhex_hex_digit)
qed

lemma unhex_hex_lower: "unhex (hex_lower b) = Some b"
  by (induction b) (simp_all add: hex_lower_def unhex_hex_byte)

lemma hex_digit_alphabet: "hex_digit n \<in> set b64_alphabet"
proof -
  have "\<forall>k \<in> set [0..<16]. hex_digit k \<in> set b64_alphabet"
    by (simp add: hex_digit_def upt_conv_Cons b64_alphabet_def)
  then have "hex_digit (n mod 16) \<in> set b64_alphabet" by simp
  then show ?thesis by (simp add: hex_digit_def)
qed

lemma hex_lower_alphabet: "set (hex_lower b) \<subseteq> set b64_alphabet"
  by (induction b) (auto simp: hex_lower_def hex_byte_def hex_digit_alphabet)

lemma demo_laws:
  "sha256_law (demo_deps table)" "hex_law (demo_deps table)" "b64_law (demo_deps table)"
  "ed_slice_law (demo_deps table)" "ed_sign_law (demo_deps table)"
  by (simp_all add: demo_deps_def sha256_law_def hex_law_def b64_law_def ed_slice_law_def ed_sign_law_def
      unhex_hex_lower hex_lower_alphabet)

lemma demo_tags: "tags_separate (demo_deps table)"
proof -
  have "(\<forall>d e. pad 32 (str_bytes (tag d)) = pad 32 (str_bytes (tag e)) \<longrightarrow> d = e)"
    by (intro allI; case_tac d; case_tac e) (simp_all add: pad_def str_bytes_def)
  then show ?thesis by (simp add: tags_separate_def demo_deps_def)
qed

subsection \<open>A machine\<close>

text \<open>A web server with fixed pages, and a kernel and a TPM that do what they are asked.\<close>

definition demo_env :: "(bytes \<times> json) list \<Rightarrow> (string \<times> bytes) list \<Rightarrow> bytes \<Rightarrow> env" where
  "demo_env table site piped =
     \<lparr>env_deps = demo_deps table, env_arch = X86_64,
      client_builds = (\<lambda>t. True),
      respond = (\<lambda>t q. case map_of site (req_url q) of
          None \<Rightarrow> Some \<lparr>resp_status = 404, resp_body = Some []\<rparr>
        | Some b \<Rightarrow> Some \<lparr>resp_status = 200, resp_body = Some b\<rparr>),
      env_uid = 0, env_pid = 1, env_args = [''stage1''], env_vars = [],
      stdin_kind = Some Fifo, stdin_data = Some piped, env_clock = ''0'',
      response_text = (\<lambda>b. []),
      tpm_attest = (\<lambda>t n. Some ''quote''), tpm_open = (\<lambda>t. True), tpm_pcr_extend = (\<lambda>t n d. True),
      fs_write = (\<lambda>t p c. True), sys_memfd_create = (\<lambda>t n x. None),
      sys_write = (\<lambda>t f k. Some k), sys_add_seals = (\<lambda>t f. True), sys_lseek = (\<lambda>t f. True),
      sys_dup2 = (\<lambda>t f. True), sys_execveat = (\<lambda>t f a e. True)\<rparr>"

definition demo_seed :: bytes where
  "demo_seed = replicate 32 1"

definition demo_key :: string where
  "demo_key = hex_lower demo_seed"

definition demo_sig :: "domain \<Rightarrow> bytes \<Rightarrow> bytes" where
  "demo_sig d msg = ed_sign (demo_deps []) demo_seed (preimage (demo_deps []) d msg)"

definition demo_binary :: bytes where
  "demo_binary = [1, 2, 3]"

text \<open>A document that pins a payload by digest, and one that delegates to a signed manifest.\<close>

definition demo_stage2 :: "json \<Rightarrow> json" where
  "demo_stage2 arch_entry = JObj [(''_stage2'', JObj [(''x86_64'', arch_entry)])]"

definition pinned_doc :: json where
  "pinned_doc = demo_stage2 (JObj [(''payload'', JObj
     [(''args'', JArr [JStr ''-v'']), (''sha256'', JStr (hex_lower (pad 32 demo_binary))),
      (''url'', JArr [JStr ''http://down/p'', JStr ''http://h/p''])])])"

definition delegating_doc :: json where
  "delegating_doc = demo_stage2 (JObj [(''manifest'', JObj
     [(''ed25519'', JStr demo_key), (''url'', JStr ''http://h/m'')])])"

definition demo_manifest :: json where
  "demo_manifest = demo_stage2 (JObj [(''payload'', JObj
     [(''ed25519'', JStr demo_key), (''url'', JStr ''http://h/p'')])])"

definition demo_hop :: manifest_ref where
  "demo_hop = \<lparr>m_url = UrlList [''http://h/m''], m_ed25519 = demo_key, m_sig_url = None,
     m_sha256 = Some (hex_lower (pad 32 [8]))\<rparr>"

definition merged_doc :: json where
  "merged_doc = demo_stage2 (JObj
     [(''payload'', JObj [(''ed25519'', JStr demo_key), (''url'', JStr ''http://h/p'')]),
      (''resolved_manifests'', ser_manifest_refs [demo_hop])])"

text \<open>A signed payload with signed remote arguments, and inline ones they replace.\<close>

definition remote_args_doc :: json where
  "remote_args_doc = demo_stage2 (JObj [(''payload'', JObj
     [(''args'', JArr [JStr ''inline'']), (''args_url'', JStr ''http://h/a''),
      (''ed25519'', JStr demo_key), (''url'', JStr ''http://h/p'')])])"

definition demo_table :: "(bytes \<times> json) list" where
  "demo_table = [([5], pinned_doc), ([7], delegating_doc), ([8], demo_manifest), ([9], merged_doc),
     ([6], remote_args_doc), ([3], JArr [JStr ''-x''])]"

definition demo_site :: "(string \<times> bytes) list" where
  "demo_site =
     [(''http://h/p'', demo_binary), (''http://h/p.sig'', demo_sig Stage2Payload demo_binary),
      (''http://h/m'', [8]), (''http://h/m.sig'', demo_sig Stage2Manifest [8]),
      (''http://h/a'', [3]), (''http://h/a.sig'', demo_sig Stage2Args [3])]"

definition pinned_env :: env where
  "pinned_env = demo_env demo_table demo_site [5]"

definition delegating_env :: env where
  "delegating_env = demo_env demo_table demo_site [7]"

subsection \<open>A chain of manifests that never ends\<close>

text \<open>
  Every manifest delegates to a URL one character longer, and every one is properly signed. No pair
  of URL and digest repeats, so the cycle check never fires.
\<close>

definition chain_url :: "nat \<Rightarrow> string" where
  "chain_url n = ''http://h/'' @ replicate n CHR ''a''"

definition chain_doc :: "nat \<Rightarrow> json" where
  "chain_doc n = demo_stage2 (JObj [(''manifest'', JObj
     [(''ed25519'', JStr demo_key), (''url'', JStr (chain_url n))])])"

definition chain_deps :: deps where
  "chain_deps = (demo_deps [])\<lparr>json_parse := (\<lambda>b. Some (chain_doc (length b)))\<rparr>"

definition chain_body :: "nat \<Rightarrow> bytes" where
  "chain_body n = replicate (Suc n) 0"

definition chain_env :: env where
  "chain_env = (demo_env [] [] [])\<lparr>env_deps := chain_deps,
     respond := (\<lambda>t q. let u = req_url q in
       if drop (length u - 4) u = ''.sig''
       then Some \<lparr>resp_status = 200, resp_body = Some (demo_sig Stage2Manifest (chain_body (length u - 13)))\<rparr>
       else Some \<lparr>resp_status = 200, resp_body = Some (chain_body (length u - 9))\<rparr>)\<rparr>"

definition chain_ref :: "nat \<Rightarrow> manifest_ref" where
  "chain_ref n = \<lparr>m_url = UrlList [chain_url n], m_ed25519 = demo_key, m_sig_url = None, m_sha256 = None\<rparr>"

lemma chain_entry:
  "arch_value ''x86_64'' (chain_doc n) = Some (JObj [(''manifest'', JObj
     [(''ed25519'', JStr demo_key), (''url'', JStr (chain_url n))])])"
  "de_arch_config (JObj [(''manifest'', JObj
     [(''ed25519'', JStr demo_key), (''url'', JStr (chain_url n))])])
   = Some \<lparr>ac_entry = Manifest_Entry (chain_ref n), ac_resolved_manifests = []\<rparr>"
  by (simp_all add: arch_value_def chain_doc_def demo_stage2_def de_arch_config_def struct_fields_def
      de_entry_def is_variant_def de_manifest_ref_def manifest_names_def required_def de_url_list_def
      opt_field_def or_default_def chain_ref_def)

lemma chain_laws:
  "b64_law chain_deps" "ed_slice_law chain_deps" "ed_sign_law chain_deps"
  using demo_laws(3-5)[of "[]"]
  by (simp_all add: chain_deps_def b64_law_def ed_slice_law_def ed_sign_law_def)

lemma demo_seed_key: "b64_encode chain_deps (ed_public chain_deps demo_seed) = demo_key" "pad 32 demo_seed = demo_seed"
  by (simp_all add: chain_deps_def demo_deps_def demo_key_def demo_seed_def pad_def)

lemma chain_valid: "manifest_validate chain_deps (chain_ref n) Stage1 = Inr ()"
proof -
  have "url_allowed Stage1 (chain_url n)" by (auto simp: url_allowed_def chain_url_def)
  moreover have "key_allowed chain_deps demo_key"
    using b64_trim[OF chain_laws(1), of demo_seed] b64_decode_encode[OF chain_laws(1), of demo_seed]
    by (simp add: key_allowed_def chain_deps_def demo_deps_def demo_key_def) (simp add: demo_seed_def)
  ultimately show ?thesis
    by (simp add: manifest_validate_Inr_iff manifest_allowed_def list_allowed_def opt_list_allowed_def chain_ref_def)
qed

lemma chain_download:
  "download_binary chain_env (chain_url n) w = (Inr (chain_body n), emit (Ev_Request (get_request (chain_url n))) w)"
  "download_binary chain_env (chain_url n @ ''.sig'') w =
     (Inr (demo_sig Stage2Manifest (chain_body n)), emit (Ev_Request (get_request (chain_url n @ ''.sig''))) w)"
proof -
  have url: "drop (length (chain_url n) - 4) (chain_url n) \<noteq> ''.sig''"
  proof
    assume "drop (length (chain_url n) - 4) (chain_url n) = ''.sig''"
    then have "CHR ''.'' \<in> set (chain_url n)" by (metis in_set_dropD list.set_intros(1))
    then show False by (simp add: chain_url_def)
  qed
  show "download_binary chain_env (chain_url n) w =
      (Inr (chain_body n), emit (Ev_Request (get_request (chain_url n))) w)"
    by (rule download_serves) (use url in \<open>simp add: serves_def chain_env_def demo_env_def get_request_def chain_url_def Let_def\<close>)
  show "download_binary chain_env (chain_url n @ ''.sig'') w =
     (Inr (demo_sig Stage2Manifest (chain_body n)), emit (Ev_Request (get_request (chain_url n @ ''.sig''))) w)"
    by (rule download_serves) (simp add: serves_def chain_env_def demo_env_def get_request_def chain_url_def Let_def)
qed

lemma chain_fetch:
  "\<exists>w'. fetch_manifest chain_env (chain_ref n) w =
     (Inr (chain_url n, chain_body n, hex_sha256 chain_env (chain_body n)), w')"
proof -
  have "demo_sig d m = ed_sign chain_deps demo_seed (preimage chain_deps d m)" for d m
    by (simp add: demo_sig_def chain_deps_def demo_deps_def preimage_def)
  then have "verify chain_deps demo_key Stage2Manifest (chain_body n) (demo_sig Stage2Manifest (chain_body n)) = Inr ()"
    using verify_own[OF chain_laws, of demo_seed] by (simp add: demo_seed_key)
  moreover have "env_deps chain_env = chain_deps" by (simp add: chain_env_def)
  ultimately show ?thesis
    by (simp add: fetch_manifest_def chain_ref_def try_fetch_manifest_def then_do_def chain_download Let_def
        download_first_def)
qed

definition chain_history :: "nat \<Rightarrow> manifest_ref list \<Rightarrow> bool" where
  "chain_history n h \<longleftrightarrow> (\<forall>r \<in> set h. \<exists>k < n. urls (m_url r) = [chain_url k])"

lemma chain_step:
  assumes "chain_history n h"
  shows "\<exists>h' w'. resolve_step chain_env raw (chain_doc n) h w = (Inr (Again (chain_doc (Suc n)) h'), w')
           \<and> chain_history (Suc n) h'"
proof -
  obtain w' where fetched: "fetch_manifest chain_env (chain_ref n) w =
     (Inr (chain_url n, chain_body n, hex_sha256 chain_env (chain_body n)), w')"
    using chain_fetch by blast
  have fresh: "\<not> seen_before h (chain_url n) hash" for hash
    using assms by (auto simp: seen_before_def chain_history_def list_ex_iff chain_url_def)
  have arch: "arch_key chain_env = ''x86_64''" by (simp add: arch_key_def chain_env_def demo_env_def)
  have deps: "env_deps chain_env = chain_deps" by (simp add: chain_env_def)
  have parsed: "value_from_slice chain_deps (chain_body n) = Some (chain_doc (Suc n))"
    by (simp add: value_from_slice_def chain_deps_def chain_body_def chain_doc_def demo_stage2_def btree_of_def)
  have merged: "deep_merge (consume_pointer ''x86_64'' (chain_doc n)) (chain_doc (Suc n)) = chain_doc (Suc n)"
    by (simp add: consume_pointer_def update_arch_entry_def chain_doc_def demo_stage2_def bt_remove_def)
  have "resolve_step chain_env raw (chain_doc n) h w =
      (Inr (Again (chain_doc (Suc n)) (h @ [hop_record (chain_ref n) (chain_url n) (hex_sha256 chain_env (chain_body n))])), w')"
    by (simp add: resolve_step_def arch chain_entry manifest_step_def then_do_def fetched fresh
        deps chain_valid parsed merged)
  moreover have "chain_history (Suc n) (h @ [hop_record (chain_ref n) (chain_url n) hash])" for hash
    using assms by (fastforce simp: chain_history_def hop_record_def less_Suc_eq)
  ultimately show ?thesis by blast
qed

lemma chain_diverges: "resolve_payload chain_env [0] start = None"
proof -
  have start_doc: "value_from_slice (env_deps chain_env) [0] = Some (chain_doc 1)"
    by (simp add: value_from_slice_def chain_env_def chain_deps_def chain_doc_def demo_stage2_def btree_of_def)
  have "resolve_loop chain_env [0] (chain_doc 1) [] start = None"
  proof (rule resolve_loop_diverges[where I = "\<lambda>doc h w. \<exists>n. doc = chain_doc n \<and> chain_history n h"])
    show "\<exists>n. chain_doc 1 = chain_doc n \<and> chain_history n []" by (auto simp: chain_history_def)
  qed (use chain_step in blast)
  then show ?thesis using start_doc by (simp add: resolve_payload_def)
qed

subsection \<open>The machine boots\<close>

lemma demo_cooperates: "cooperates (demo_env table site piped)"
  by (simp add: cooperates_def demo_env_def writes_progress_def)

lemma pinned_resolves:
  "map_option fst (resolve_payload pinned_env [5] start) = Some (Inr (demo_binary, [''-v''], [5]))"
  by code_simp

lemma delegating_resolves:
  "map_option fst (resolve_payload delegating_env [7] start) = Some (Inr (demo_binary, [], [9]))"
  by code_simp

lemma remote_args_resolves:
  "map_option fst (resolve_payload pinned_env [6] start) = Some (Inr (demo_binary, [''-x''], [6]))"
  by code_simp

lemma demo_documents:
  "document pinned_env start = (Inr [5], start)" "document delegating_env start = (Inr [7], start)"
  by code_simp+

lemma demo_no_report: "\<not> wants_report pinned_env" "\<not> wants_report delegating_env"
  by code_simp+

lemma pinned_boots:
  "\<exists>w'. main pinned_env start = Some w' \<and> Ev_Exec demo_binary [''stage2'', ''-v''] [5] \<in> set (w_trace w')"
proof -
  obtain w2 where "resolve_payload pinned_env [5] start = Some (Inr (demo_binary, [''-v''], [5]), w2)"
    using pinned_resolves by auto
  then show ?thesis
    by (rule main_boots[rotated 3]) (simp_all add: demo_documents demo_no_report, simp_all add: pinned_env_def demo_cooperates has_nul_def)
qed

lemma delegating_boots:
  "\<exists>w'. main delegating_env start = Some w' \<and> Ev_Exec demo_binary [''stage2''] [9] \<in> set (w_trace w')"
proof -
  obtain w2 where "resolve_payload delegating_env [7] start = Some (Inr (demo_binary, [], [9]), w2)"
    using delegating_resolves by auto
  then show ?thesis
    by (rule main_boots[rotated 3]) (simp_all add: demo_documents demo_no_report, simp_all add: delegating_env_def demo_cooperates)
qed

text \<open>
  The delegating machine with a verifier that accepts two messages only, those the key's holder
  signed; and with a server that answers nothing but its own pages.
\<close>

definition guarded_env :: env where
  "guarded_env = delegating_env\<lparr>env_deps := (demo_deps demo_table)\<lparr>ed_verify := (\<lambda>pk m sig.
     (m = preimage (demo_deps []) Stage2Payload demo_binary \<or> m = preimage (demo_deps []) Stage2Manifest [8])
     \<and> ed_verify (demo_deps []) pk m sig)\<rparr>\<rparr>"

definition two_page_env :: env where
  "two_page_env = delegating_env\<lparr>respond := (\<lambda>t q. if req_url q \<in> fst ` set demo_site
     then respond delegating_env t q else None)\<rparr>"

definition pinned_payload :: payload where
  "pinned_payload = \<lparr>p_url = UrlList [''http://down/p'', ''http://h/p''],
     p_sha256 = Some (hex_lower (pad 32 demo_binary)), p_ed25519 = None, p_sig_url = None,
     p_args = Some [''-v''], p_args_url = None, p_args_sig_url = None\<rparr>"

definition signed_payload :: payload where
  "signed_payload = \<lparr>p_url = UrlList [''http://down/p'', ''http://h/p''],
     p_sha256 = None, p_ed25519 = Some demo_key, p_sig_url = None,
     p_args = None, p_args_url = None, p_args_sig_url = None\<rparr>"

lemma guarded_resolves:
  "map_option fst (resolve_payload guarded_env [7] start) = Some (Inr (demo_binary, [], [9]))"
  by code_simp

lemma guarded_laws: "sha256_law (env_deps guarded_env)" "tags_separate (env_deps guarded_env)"
  using demo_laws(1)[of demo_table] demo_tags[of demo_table]
  by (simp_all add: guarded_env_def sha256_law_def tags_separate_def)

lemma guarded_signs:
  "only_signs (env_deps guarded_env) pk {(Stage2Payload, demo_binary), (Stage2Manifest, [8])}"
  by (auto simp: only_signs_def guarded_env_def preimage_def demo_deps_def)

lemma demo_entries:
  "doc_entry pinned_env pinned_doc = Some (Payload_Entry pinned_payload)"
  "doc_entry delegating_env delegating_doc = Some (Manifest_Entry
     \<lparr>m_url = UrlList [''http://h/m''], m_ed25519 = demo_key, m_sig_url = None, m_sha256 = None\<rparr>)"
  by code_simp+

end
