(* ===== verification/Demo_Host.thy ===== *)
theory Demo_Host
  imports Deploy_Total Deploy_Modify Mkuki Demo
begin

section \<open>A small concrete host\<close>

text \<open>
  Where the properties of the tools are applied. The JSON crates are played by a prefix code with a
  reader that inverts it, so that the laws hold of every value; the host has a disk on which every
  write succeeds; the stub is the smallest image the PE reader accepts.
\<close>

subsection \<open>A text form of JSON values with a reader\<close>

text \<open>Every code unit is below 128; a character is two of them.\<close>

definition enc_char :: "char \<Rightarrow> nat list" where
  "enc_char c = [of_char c div 16, of_char c mod 16]"

fun enc_string :: "string \<Rightarrow> nat list" where
  "enc_string [] = [16]"
| "enc_string (c # cs) = enc_char c @ enc_string cs"

fun dec_string :: "nat list \<Rightarrow> (string \<times> nat list) option" where
  "dec_string (a # b # r) =
     (if a = 16 then Some ([], b # r) else map_option (\<lambda>(s, t). (char_of (16 * a + b) # s, t)) (dec_string r))"
| "dec_string [a] = (if a = 16 then Some ([], []) else None)"
| "dec_string [] = None"

definition enc_number :: "nat \<Rightarrow> nat list" where
  "enc_number n = replicate n 1 @ [0]"

fun dec_number :: "nat list \<Rightarrow> (nat \<times> nat list) option" where
  "dec_number (a # r) = (if a = 0 then Some (0, r) else map_option (\<lambda>(n, t). (Suc n, t)) (dec_number r))"
| "dec_number [] = None"

fun enc :: "json \<Rightarrow> nat list" and enc_values :: "json list \<Rightarrow> nat list" and enc_fields :: "fields \<Rightarrow> nat list" where
  "enc JNull = [20]"
| "enc (JBool b) = [if b then 21 else 22]"
| "enc (JNum (PosInt w)) = 23 # enc_number (unat w)"
| "enc (JNum (NegInt w)) = 24 # enc_number (unat w)"
| "enc (JNum (Float w)) = 25 # enc_number (unat w)"
| "enc (JStr s) = 26 # enc_string s"
| "enc (JArr xs) = 27 # enc_values xs"
| "enc (JObj m) = 28 # enc_fields m"
| "enc_values [] = [29]"
| "enc_values (x # xs) = 30 # enc x @ enc_values xs"
| "enc_fields [] = [29]"
| "enc_fields ((k, v) # m) = 30 # enc_string k @ enc v @ enc_fields m"

fun dec :: "nat \<Rightarrow> nat list \<Rightarrow> (json \<times> nat list) option"
  and dec_values :: "nat \<Rightarrow> nat list \<Rightarrow> (json list \<times> nat list) option"
  and dec_fields :: "nat \<Rightarrow> nat list \<Rightarrow> (fields \<times> nat list) option" where
  "dec (Suc n) (t # r) =
     (if t = 20 then Some (JNull, r) else if t = 21 then Some (JBool True, r)
      else if t = 22 then Some (JBool False, r)
      else if t = 23 then map_option (\<lambda>(k, s). (JNum (PosInt (of_nat k)), s)) (dec_number r)
      else if t = 24 then map_option (\<lambda>(k, s). (JNum (NegInt (of_nat k)), s)) (dec_number r)
      else if t = 25 then map_option (\<lambda>(k, s). (JNum (Float (of_nat k)), s)) (dec_number r)
      else if t = 26 then map_option (\<lambda>(k, s). (JStr k, s)) (dec_string r)
      else if t = 27 then map_option (\<lambda>(k, s). (JArr k, s)) (dec_values n r)
      else if t = 28 then map_option (\<lambda>(k, s). (JObj k, s)) (dec_fields n r)
      else None)"
| "dec n r = None"
| "dec_values (Suc n) (t # r) =
     (if t = 29 then Some ([], r)
      else (case dec n r of None \<Rightarrow> None | Some (x, s) \<Rightarrow>
             map_option (\<lambda>(xs, u). (x # xs, u)) (dec_values n s)))"
| "dec_values n r = None"
| "dec_fields (Suc n) (t # r) =
     (if t = 29 then Some ([], r)
      else (case dec_string r of None \<Rightarrow> None | Some (k, q) \<Rightarrow>
           (case dec n q of None \<Rightarrow> None | Some (x, s) \<Rightarrow>
             map_option (\<lambda>(m, u). ((k, x) # m, u)) (dec_fields n s))))"
| "dec_fields n r = None"

lemma char_high_digit: "(of_char c :: nat) div 16 < 16"
proof -
  have "(of_char c :: nat) < 16 * 16" using nat_of_char_less_256[of c] by simp
  then show ?thesis by (rule less_mult_imp_div_less)
qed

lemma dec_enc_string: "dec_string (enc_string s @ r) = Some (s, r)"
proof (induction s)
  case Nil
  then show ?case by (cases r) simp_all
next
  case (Cons c s)
  have "(of_char c :: nat) div 16 \<noteq> 16" using char_high_digit[of c] by simp
  moreover have "16 * (of_char c div 16) + of_char c mod 16 = (of_char c :: nat)" by simp
  ultimately show ?case using Cons by (simp add: enc_char_def del: mult_div_mod_eq)
qed

lemma dec_enc_number: "dec_number (enc_number n @ r) = Some (n, r)"
  by (induction n) (simp_all add: enc_number_def)

lemma enc_length: "0 < length (enc v)" "0 < length (enc_values xs)" "0 < length (enc_fields m)"
  by (induction v and xs and m rule: enc_enc_values_enc_fields.induct) simp_all

lemma dec_enc:
  "length (enc v) \<le> n \<Longrightarrow> dec n (enc v @ r) = Some (v, r)"
  "length (enc_values xs) \<le> n \<Longrightarrow> dec_values n (enc_values xs @ r) = Some (xs, r)"
  "length (enc_fields m) \<le> n \<Longrightarrow> dec_fields n (enc_fields m @ r) = Some (m, r)"
proof (induction v and xs and m arbitrary: n r and n r and n r rule: enc_enc_values_enc_fields.induct)
  case (10 x xs)
  then show ?case by (cases n) auto
next
  case (12 k v m)
  then show ?case by (cases n) (auto simp: dec_enc_string)
next
  case (7 xs)
  then show ?case by (cases n) auto
next
  case (8 m)
  then show ?case by (cases n) auto
next
  case (6 s)
  then show ?case by (cases n) (auto simp: dec_enc_string)
next
  case (1 n)
  then show ?case by (cases n) auto
next
  case (2 b n)
  then show ?case by (cases n) auto
next
  case (3 w n)
  then show ?case by (cases n) (auto simp: dec_enc_number)
next
  case (4 w n)
  then show ?case by (cases n) (auto simp: dec_enc_number)
next
  case (5 w n)
  then show ?case by (cases n) (auto simp: dec_enc_number)
next
  case (9 n)
  then show ?case by (cases n) auto
next
  case (11 n)
  then show ?case by (cases n) auto
qed

lemma enc_string_small: "n \<in> set (enc_string s) \<Longrightarrow> n < 128"
proof (induction s)
  case (Cons c s)
  note char_high_digit[of c]
  with Cons show ?case by (auto simp: enc_char_def)
qed simp

lemma enc_small:
  "n \<in> set (enc v) \<Longrightarrow> n < 128" "n \<in> set (enc_values xs) \<Longrightarrow> n < 128" "n \<in> set (enc_fields m) \<Longrightarrow> n < 128"
  by (induction v and xs and m rule: enc_enc_values_enc_fields.induct)
     (auto simp: enc_number_def dest: enc_string_small split: if_splits)

definition print_json :: "json \<Rightarrow> bytes" where
  "print_json v = map of_nat (enc v)"

definition read_json :: "bytes \<Rightarrow> json option" where
  "read_json b =
     (case dec (length b) (map unat b) of
        Some (v, r) \<Rightarrow> if r = [] \<or> r = [10] then Some v else None
      | None \<Rightarrow> None)"

lemma codes_back: "\<forall>n \<in> set ns. n < 128 \<Longrightarrow> map unat (map of_nat ns :: bytes) = ns"
  by (induction ns) (auto simp: unat_of_nat)

lemma read_print: "read_json (print_json v) = Some v" "read_json (print_json v @ [0x0A]) = Some v"
proof -
  have codes: "map unat (print_json v) = enc v"
    unfolding print_json_def by (rule codes_back) (auto dest: enc_small(1))
  have "length (print_json v) = length (enc v)" by (simp add: print_json_def)
  then show "read_json (print_json v) = Some v" "read_json (print_json v @ [0x0A]) = Some v"
    using dec_enc(1)[of v "length (enc v)" "[]"] dec_enc(1)[of v "Suc (length (enc v))" "[10]"]
    by (simp_all add: read_json_def codes)
qed

lemma print_json_utf8: "string_from_utf8 (print_json v @ [0x0A]) \<noteq> None"
proof -
  have "map unat (print_json v) = enc v"
    unfolding print_json_def by (rule codes_back) (auto dest: enc_small(1))
  moreover have "valid_utf8 (enc v @ [10])"
    by (rule valid_utf8_ascii) (auto dest: enc_small(1))
  ultimately show ?thesis by (simp add: string_from_utf8_def)
qed

definition host_deps :: deps where
  "host_deps = (demo_deps [])\<lparr>json_parse := read_json, json_typed := read_json,
     json_compact := print_json, json_pretty := print_json\<rparr>"

lemma host_laws: "crate_laws host_deps"
  using demo_laws[of "[]"]
  by (simp add: crate_laws_def host_deps_def sha256_law_def hex_law_def b64_law_def ed_slice_law_def ed_sign_law_def
      json_law_def prints_back_def read_print print_json_utf8)

subsection \<open>A host and a release\<close>

definition demo_pem :: string where
  "demo_pem = pem_from_seed host_deps demo_seed"

definition demo_host :: host where
  "demo_host =
     \<lparr>h_deps = host_deps, h_is_dir = (\<lambda>p. p = ''out''),
      h_walk = (\<lambda>p. [Walked ''./init'' (Some (0x81ED, Node_File (Some [1, 2, 3]))), Walked ''dev'' (Some (0x41ED, Node_Dir))]),
      h_can_read = (\<lambda>p. True), h_write = (\<lambda>p. Written), h_can_mkdir = (\<lambda>p. True),
      h_gzip = Some, h_gunzip = Some, h_tar = (\<lambda>b. None),
      h_run = (\<lambda>t c. Some (True, str_bytes ''c1'')), h_random = Some demo_seed\<rparr>"

definition demo_files :: files where
  "demo_files =
     \<lparr>f_data = [''uki'' \<mapsto> [7], ''s2'' \<mapsto> demo_binary, ''key.pem'' \<mapsto> str_bytes demo_pem],
      f_mode = Map.empty, f_commands = [], f_printed = []\<rparr>"

definition demo_create :: create_args where
  "demo_create =
     \<lparr>c_arch = ''x86_64'', c_uki = ''uki'', c_stage2 = ''s2'', c_key = Some ''key.pem'', c_base_url = [''http://h/''],
      c_args = None, c_sign_args = False, c_manifest = True, c_out = ''out''\<rparr>"

definition demo_signed :: "domain \<Rightarrow> bytes \<Rightarrow> signed" where
  "demo_signed d m = \<lparr>signature = ed_sign host_deps demo_seed (preimage host_deps d m),
     pubkey_b64 = pubkey_b64_from_seed host_deps demo_seed\<rparr>"

lemma demo_pem_utf8: "string_from_utf8 (str_bytes demo_pem) = Some demo_pem"
proof (rule string_from_utf8_ascii)
  have "\<forall>c \<in> set (b64_encode host_deps (pkcs8_prefix @ demo_seed)). (of_char c :: nat) < 128"
    using b64_encode_chars(1)[OF crate_lawsD(3)[OF host_laws]] by (fastforce simp: is_ascii_graphic_def)
  then show "\<forall>c \<in> set demo_pem. (of_char c :: nat) < 128"
    by (auto simp: demo_pem_def pem_from_seed_def)
qed

lemma demo_sign: "sign host_deps demo_pem d m = Inr (demo_signed d m)"
  using seed_of_pem[OF crate_lawsD(3)[OF host_laws], of demo_seed]
  by (simp add: sign_def demo_pem_def demo_signed_def pubkey_b64_from_seed_def demo_seed_def)

lemma demo_ctx: "create_ctx demo_create = \<lparr>x_dir = ''out/x86_64'', x_arch = ''x86_64'', x_bases = [''http://h'']\<rparr>"
  by code_simp

lemma demo_host_simps:
  "h_deps demo_host = host_deps" "h_write demo_host p = Written" "h_can_read demo_host p" "h_can_mkdir demo_host p"
  by (simp_all add: demo_host_def)

lemma demo_ud_path: "ud_path demo_create = ''out/user-data.json''"
  by code_simp

lemma demo_old_doc: "old_doc demo_host demo_create demo_files = Some (JObj [])"
  by (simp add: old_doc_def path_exists_def demo_ud_path demo_files_def demo_host_def)

lemma demo_create_good:
  "willing demo_host" "good_bases demo_create" "good_key demo_host demo_create demo_files"
  "good_inputs demo_host demo_create demo_files" "good_document demo_host demo_create demo_files"
  "plain_arch (c_arch demo_create)"
proof -
  show "willing demo_host" by (simp add: willing_def demo_host_simps)
  show "good_bases demo_create"
    by (simp add: good_bases_def demo_ctx graphic_def starts_with_def) (simp add: demo_create_def)
  have "seed_from_pkcs8_pem host_deps demo_pem = Inr demo_seed"
    using seed_of_pem[OF crate_lawsD(3)[OF host_laws], of demo_seed] by (simp add: demo_pem_def demo_seed_def)
  then show "good_key demo_host demo_create demo_files"
    using demo_pem_utf8
    by (simp add: good_key_def text_file_def signable_def demo_create_def demo_files_def demo_host_simps)
  show "good_inputs demo_host demo_create demo_files"
    by (simp add: good_inputs_def demo_create_def demo_files_def)
  show "good_document demo_host demo_create demo_files"
    by (simp add: good_document_def demo_old_doc mergeable_def)
      (simp add: path_exists_def demo_ud_path demo_files_def demo_host_def)
  show "plain_arch (c_arch demo_create)" by (simp add: plain_arch_def demo_create_def)
qed

lemma demo_create_runs: "\<exists>fs'. create demo_host demo_create demo_files = (Inr (), fs')"
  using create_runs[OF demo_create_good(1-5) _ demo_create_good(6)] host_laws by (simp add: demo_host_simps)

text \<open>The same release pinned by digests, and a second \<open>create\<close> over it whose arguments do not parse.\<close>

definition demo_pinned :: create_args where
  "demo_pinned = demo_create\<lparr>c_key := None, c_manifest := False\<rparr>"

definition demo_again :: create_args where
  "demo_again = demo_pinned\<lparr>c_uki := ''s2'', c_args := Some ''x''\<rparr>"

lemma demo_pinned_facts:
  "create_ctx demo_pinned = create_ctx demo_create" "ud_path demo_pinned = ud_path demo_create"
  "c_key demo_pinned = None" "\<not> c_manifest demo_pinned" "c_uki demo_pinned = ''uki''" "plain_arch (c_arch demo_pinned)"
  "old_doc demo_host demo_pinned demo_files = Some (JObj [])"
  by (simp_all add: demo_pinned_def demo_create_def create_ctx_def ud_path_def plain_arch_def)
     (simp add: old_doc_def path_exists_def ud_path_def path_join_def demo_files_def demo_host_def)

lemma demo_pinned_runs: "\<exists>fs1. create demo_host demo_pinned demo_files = (Inr (), fs1)"
proof (rule create_runs)
  show "good_bases demo_pinned" using demo_create_good(2) by (simp add: good_bases_def demo_pinned_facts(1)) (simp add: demo_pinned_def)
  show "good_key demo_host demo_pinned demo_files"
    by (simp add: good_key_def demo_pinned_facts) (simp add: demo_pinned_def demo_create_def)
  show "good_inputs demo_host demo_pinned demo_files"
    by (simp add: good_inputs_def demo_pinned_def demo_create_def demo_files_def)
  show "good_document demo_host demo_pinned demo_files"
    using demo_create_good(5) by (simp add: good_document_def demo_pinned_facts(2,7) demo_old_doc)
qed (use demo_create_good(1) demo_pinned_facts(6) host_laws in \<open>simp_all add: demo_host_simps\<close>)

lemma demo_again_facts:
  "x_bases (create_ctx demo_again) = [''http://h'']" "c_out demo_again = c_out demo_pinned" "c_arch demo_again = c_arch demo_pinned"
  "c_key demo_again = None" "\<not> c_manifest demo_again" "\<not> c_sign_args demo_again" "c_uki demo_again = ''s2''" "c_stage2 demo_again = ''s2''"
  "c_args demo_again \<noteq> None" "given_args demo_host demo_again = None"
proof -
  have "strings_from_slice host_deps (str_bytes ''x'') = None" by code_simp
  then show "given_args demo_host demo_again = None"
    by (simp add: given_args_def demo_again_def demo_host_simps)
qed (simp_all add: demo_again_def demo_pinned_def demo_create_def create_ctx_def trim_end_char_def)

lemma demo_pinned_keeps_inputs:
  assumes "create demo_host demo_pinned demo_files = (Inr (), fs1)"
  shows "f_data fs1 ''s2'' = Some demo_binary"
proof -
  have "touches (insert (ud_path demo_pinned) (arch_files demo_pinned)) demo_files fs1"
    using assms demo_pinned_facts(6) by (rule create_Inr)
  moreover have "''s2'' \<notin> insert (ud_path demo_pinned) (arch_files demo_pinned)"
    by (simp add: demo_pinned_facts(1,2) demo_ud_path arch_files_def arch_names_def demo_ctx path_join_def)
  ultimately show ?thesis by (simp add: touches_def demo_files_def)
qed

text \<open>Web servers that answer with the files of the release; no other server answers.\<close>

definition release_env :: "string list \<Rightarrow> (string \<Rightarrow> bytes option) \<Rightarrow> env" where
  "release_env servers at = (demo_env [] [] [])\<lparr>env_deps := host_deps,
     respond := (\<lambda>t q. case List.map_filter (\<lambda>base. strip_prefix (base @ ''/x86_64/'') (req_url q)) servers of
         [] \<Rightarrow> None
       | name # _ \<Rightarrow> (case at name of
             Some b \<Rightarrow> Some \<lparr>resp_status = 200, resp_body = Some b\<rparr>
           | None \<Rightarrow> Some \<lparr>resp_status = 404, resp_body = Some []\<rparr>))\<rparr>"

definition demo_servers :: "string list set" where
  "demo_servers = {[''http://h''], [''http://h2''], [''http://h'', ''http://h2'']}"

lemma release_hosts:
  assumes "servers \<in> demo_servers" and "set bases \<subseteq> set servers"
  shows "hosts (release_env servers at) bases ''x86_64'' at"
proof -
  have "List.map_filter (\<lambda>b. strip_prefix (b @ ''/x86_64/'') (compose_url ''x86_64'' name base)) servers = [name]"
    if "base \<in> set servers" for base name
    using that assms(1) by (auto simp: demo_servers_def compose_url_def List.map_filter_simps)
  then show ?thesis
    using assms(2) by (auto simp: hosts_def serves_def release_env_def demo_env_def get_request_def)
qed

lemma silent_server: "compose_url ''x86_64'' name ''http://h'' \<notin> answered_urls (release_env [''http://h2''] at)"
proof -
  have "strip_prefix ''http://h2/x86_64/'' (compose_url ''x86_64'' name ''http://h'') = None"
    by (simp add: compose_url_def)
  then show ?thesis
    by (auto simp: answered_urls_def release_env_def demo_env_def List.map_filter_simps)
qed

text \<open>The machine that is given the document on standard input.\<close>

definition booting_env :: "string list \<Rightarrow> (string \<Rightarrow> bytes option) \<Rightarrow> bytes \<Rightarrow> env" where
  "booting_env servers at raw = (release_env servers at)\<lparr>stdin_data := Some raw\<rparr>"

lemma booting_env_facts:
  "servers \<in> demo_servers \<Longrightarrow> set bases \<subseteq> set servers \<Longrightarrow> hosts (booting_env servers at raw) bases ''x86_64'' at"
  "cooperates (booting_env servers at raw)"
  "env_deps (booting_env servers at raw) = host_deps" "arch_key (booting_env servers at raw) = ''x86_64''"
  "raw \<noteq> [] \<Longrightarrow> stdin_config (booting_env servers at raw) = Inr (Some raw)"
  "compose_url ''x86_64'' name ''http://h'' \<notin> answered_urls (booting_env [''http://h2''] at raw)"
proof -
  assume "servers \<in> demo_servers" "set bases \<subseteq> set servers"
  from release_hosts[OF this, of at] show "hosts (booting_env servers at raw) bases ''x86_64'' at"
    by (simp add: hosts_def serves_def booting_env_def)
next
  show "cooperates (booting_env servers at raw)"
    using demo_cooperates[of "[]" "[]" raw]
    by (simp add: cooperates_def writes_progress_def booting_env_def release_env_def demo_env_def)
next
  show "compose_url ''x86_64'' name ''http://h'' \<notin> answered_urls (booting_env [''http://h2''] at raw)"
    using silent_server by (simp add: answered_urls_def booting_env_def)
qed (simp_all add: booting_env_def release_env_def demo_env_def arch_key_def stdin_config_def)

text \<open>The release moved to another mirror.\<close>

definition demo_move :: modify_args where
  "demo_move = \<lparr>o_path = ''out'', o_add = [''http://h2/''], o_remove = [''http://h'']\<rparr>"

lemma demo_move_facts:
  "doc_path demo_host (o_path demo_move) = ud_path demo_create"
  "given_bases (o_add demo_move) = [''http://h2'']" "given_bases (o_remove demo_move) = [''http://h'']"
  "new_bases demo_create demo_move = [''http://h2'']"
  "host_base ''http://h''" "host_base ''http://h2''" "graphic ''http://h2''"
  "brace_free ''http://h''" "brace_free ''http://h2''" "brace_free ''x86_64''"
proof -
  show given: "given_bases (o_add demo_move) = [''http://h2'']" "given_bases (o_remove demo_move) = [''http://h'']"
    by (simp_all add: given_bases_def demo_move_def trim_end_char_def)
  show "new_bases demo_create demo_move = [''http://h2'']"
    by (simp add: new_bases_def given demo_ctx edit_bases_def)
  show "doc_path demo_host (o_path demo_move) = ud_path demo_create"
    by (simp add: doc_path_def demo_move_def demo_host_def demo_ud_path path_join_def)
qed (auto simp: host_base_def graphic_def brace_free_def)

lemma demo_plain: "plain_arch (c_arch demo_create)" "c_arch demo_create = ''x86_64''"
  by (simp_all add: plain_arch_def demo_create_def)

lemma demo_rewritten:
  "rewrite_doc adds rems (fresh_document arch e1 e2) = Inr (fresh_document arch (edit_arch_config adds rems e1) (edit_arch_config adds rems e2))"
  by (simp add: fresh_document_def rewrite_doc_def rewrite_object_def rewrite_member_def rewrite_ser_arch_config less_char_def)

lemma demo_move_runs:
  assumes "create demo_host demo_create demo_files = (Inr (), fs1)"
  shows "\<exists>fs'. modify demo_host demo_move fs1 = (Inr (), fs')"
proof -
  note laws = crate_lawsD(6)[OF host_laws]
  obtain e1 e2 doc where merged: "merge_doc ''x86_64'' e1 e2 (JObj []) = Inr doc"
    and written: "f_data fs1 (ud_path demo_create) = Some (print_doc host_deps doc)"
    using assms demo_plain(1) by (rule create_Inr) (auto simp: demo_old_doc demo_host_simps demo_plain(2))
  have fine: "wf_json doc" "printable doc"
    using merge_doc_wf[OF merged] merge_doc_printable[OF merged] by (simp_all add: printable_def)
  obtain t where t: "string_from_utf8 (print_doc host_deps doc) = Some t" "str_bytes t = print_doc host_deps doc"
    using print_doc_back(3)[OF laws fine] string_from_utf8_bytes by blast
  note rewritten = demo_rewritten[of "[''http://h2'']" "[''http://h'']" "''x86_64''" e1 e2, folded merged[unfolded merge_fresh]]
  show ?thesis
    using t print_doc_back(1)[OF laws fine] written demo_move_facts(1)
    by (simp add: modify_def Let_def then_do_def read_value_def read_to_string_def read_bytes_def rewritten
        demo_host_simps write_bytes_def print_line_def demo_move_facts(2,3)[unfolded given_bases_def])
qed

lemma demo_moved_document:
  assumes "create demo_host demo_create demo_files = (Inr (), fs1)" and "modify demo_host demo_move fs1 = (Inr (), fs')"
  shows "\<exists>raw. f_data fs' (ud_path demo_create) = Some raw \<and> user_data_from_slice host_deps raw \<noteq> None \<and> raw \<noteq> []"
proof -
  obtain e1 e2 doc where merged: "merge_doc ''x86_64'' e1 e2 (JObj []) = Inr doc"
    and written: "f_data fs1 (ud_path demo_create) = Some (print_doc host_deps doc)"
    using assms(1) demo_plain(1) by (rule create_Inr) (auto simp: demo_old_doc demo_host_simps demo_plain(2))
  have fine: "wf_json doc" "printable doc"
    using merge_doc_wf[OF merged] merge_doc_printable[OF merged] by (simp_all add: printable_def)
  from assms(2) show ?thesis
  proof (rule modify_Inr)
    fix d d'
    assume "Option.bind (f_data fs1 (doc_path demo_host (o_path demo_move))) (value_from_slice (h_deps demo_host)) = Some d"
      and run: "rewrite_doc (map (trim_end_char CHR ''/'') (o_add demo_move)) (map (trim_end_char CHR ''/'') (o_remove demo_move)) d = Inr d'"
      and out: "f_data fs' = (f_data fs1)(doc_path demo_host (o_path demo_move) := Some (print_doc (h_deps demo_host) d'))"
    then have d: "d = doc"
      using print_doc_back(1)[OF crate_lawsD(6)[OF host_laws] fine] by (simp add: demo_move_facts(1) written demo_host_simps)
    have "d' = fresh_document ''x86_64'' (edit_arch_config [''http://h2''] [''http://h''] e1) (edit_arch_config [''http://h2''] [''http://h''] e2)"
      using run by (simp add: d merged[unfolded merge_fresh] demo_rewritten demo_move_facts(2,3)[unfolded given_bases_def])
    then have "de_user_data d' \<noteq> None" "wf_json d'" "printable d'"
      using rewrite_doc_fits[OF run] fine by (simp_all add: d fresh_document_typed)
    with print_doc_back(2)[OF crate_lawsD(6)[OF host_laws], of d'] show ?thesis
      by (simp add: out demo_move_facts(1) demo_host_simps user_data_from_slice_def) (simp add: print_doc_def)
  qed
qed

subsection \<open>A stub\<close>

definition demo_stub :: bytes where
  "demo_stub = str_bytes ''MZ'' @ replicate 58 0 @ le32 64
     @ str_bytes ''PE'' @ [0, 0] @ replicate 16 0 @ le16 72 @ replicate 2 0
     @ le16 0x20b @ replicate 30 0 @ le32 4096 @ le32 16 @ replicate 20 0 @ le32 336 @ replicate 184 0"

definition demo_pe :: pe_view where
  "demo_pe = \<lparr>pe_off = 64, opt_off = 88, sect_table = 160, num_sections = 0, section_align = 4096,
     file_align = 16, size_of_headers = 336\<rparr>"

definition demo_spec :: uki_spec where
  "demo_spec = \<lparr>u_stub = demo_stub, u_kernel = [1, 2, 3], u_initrd = [4, 5], u_os_release = [6],
     u_cmdline = [7, 8], u_uname = None\<rparr>"

lemma demo_stub_parses: "parse_pe demo_stub = Inr demo_pe"
  by code_simp

lemma demo_stub_length: "length demo_stub = 336"
  by code_simp

lemma demo_stub_sound: "sound_stub demo_stub demo_pe 4"
  by (simp add: sound_stub_def demo_stub_parses demo_stub_length) (simp add: demo_pe_def)

definition demo_sections :: "uki_section list" where
  "demo_sections = uki_sections demo_spec"

lemma demo_placed:
  "case place_sections 16 4096 demo_sections demo_stub (align_up 0 4096) of Inl e \<Rightarrow> False
     | Inr (out, vma, hs) \<Rightarrow> length out \<le> 1000 \<and> 336 \<le> length out \<and> list_all (\<lambda>h. length h = 40) hs \<and> length hs = 4"
  by code_simp

lemma demo_assembles: "\<exists>img. assemble demo_spec = Inr img"
proof -
  obtain out vma hs where placed: "place_sections 16 4096 demo_sections demo_stub (align_up 0 4096) = Inr (out, vma, hs)"
    and out: "length out \<le> 1000" "336 \<le> length out" "\<forall>h \<in> set hs. length h = 40" "length hs = 4"
    using demo_placed by (auto simp: list_all_iff split: sum.splits)
  have n: "length (uki_sections demo_spec) = 4" by code_simp
  have fields: "u_stub demo_spec = demo_stub" "sect_table demo_pe = 160" "num_sections demo_pe = 0"
    "file_align demo_pe = 16" "section_align demo_pe = 4096" "size_of_headers demo_pe = 336"
    "pe_off demo_pe = 64" "opt_off demo_pe = 88"
    by (simp_all add: demo_spec_def demo_pe_def)
  have "assemble demo_spec = finish_image demo_pe 4 vma hs out"
    using placed by (simp add: assemble_def build_def demo_stub_parses fields n Let_def header_size_def
        demo_sections_def)
  moreover have "\<exists>img. finish_image demo_pe 4 vma hs out = Inr img"
    using finish_image_outcome[OF out(3,4), of demo_pe out vma] out by (simp add: fields)
  ultimately show ?thesis by simp
qed

subsection \<open>A run of \<open>mkuki\<close>\<close>

definition demo_tool_host :: host where
  "demo_tool_host = demo_host\<lparr>h_gzip := (\<lambda>b. Some [4, 5])\<rparr>"

definition demo_mkuki :: mkuki_args where
  "demo_mkuki =
     \<lparr>a_layers = [], a_from_docker = None, a_docker = ''docker'', a_rootfs = Some ''out'', a_kernel = ''vmlinuz'',
      a_stub = ''stub'', a_cmdline = [CHR 0x07, CHR 0x08], a_uname = None, a_os_release = Some ''osrel'', a_id = ''os'',
      a_out = ''img'', a_sign_key = Some ''key.pem''\<rparr>"

definition demo_inputs :: files where
  "demo_inputs =
     \<lparr>f_data = [''vmlinuz'' \<mapsto> [1, 2, 3], ''stub'' \<mapsto> demo_stub, ''osrel'' \<mapsto> [6], ''key.pem'' \<mapsto> str_bytes demo_pem],
      f_mode = Map.empty, f_commands = [], f_printed = []\<rparr>"

lemma demo_layer: "build_layer demo_tool_host (Dir_Source ''out'') = Inr [4, 5]"
proof -
  have "case add_dir (h_walk demo_host ''out'') new_builder of Inl e \<Rightarrow> False | Inr b \<Rightarrow> b \<noteq> []"
    by (simp add: demo_host_def) code_simp
  then show ?thesis
    by (auto simp: build_layer_def demo_tool_host_def finish_def ok_or_def split: sum.splits)
qed

lemma demo_mkuki_runs: "\<exists>fs'. mkuki_main demo_tool_host demo_mkuki demo_inputs = (Inr (), fs')"
proof -
  obtain img where img: "assemble demo_spec = Inr img" using demo_assembles by blast
  have host: "h_deps demo_tool_host = host_deps" "h_is_dir demo_tool_host p = (p = ''out'')"
    "h_can_read demo_tool_host p" "h_write demo_tool_host p = Written" for p
    by (simp_all add: demo_tool_host_def demo_host_def)
  have spec: "\<lparr>u_stub = demo_stub, u_kernel = [1, 2, 3], u_initrd = [4, 5], u_os_release = [6],
      u_cmdline = str_bytes [CHR 0x07, CHR 0x08], u_uname = None\<rparr> = demo_spec"
    by (simp add: demo_spec_def str_bytes_def)
  have files: "f_data demo_inputs = [''vmlinuz'' \<mapsto> [1, 2, 3], ''stub'' \<mapsto> demo_stub, ''osrel'' \<mapsto> [6], ''key.pem'' \<mapsto> str_bytes demo_pem]"
    by (simp add: demo_inputs_def)
  show ?thesis
    by (simp add: mkuki_main_def then_do_def resolve_layers_def demo_mkuki_def source_from_path_def host
        build_initramfs_def demo_layer read_bytes_def files spec img write_bytes_def sign_image_def
        read_to_string_def demo_pem_utf8 demo_sign print_line_def print_lines_run put_file_def)
qed

text \<open>The image of that run, published.\<close>

definition demo_built :: create_args where
  "demo_built = demo_create\<lparr>c_uki := ''img'', c_stage2 := ''vmlinuz'', c_key := None, c_manifest := False\<rparr>"

lemma demo_built_facts:
  "c_uki demo_built = a_out demo_mkuki" "plain_arch (c_arch demo_built)" "a_out demo_mkuki = ''img''"
  "h_deps demo_tool_host = host_deps"
  by (simp_all add: demo_built_def demo_mkuki_def demo_create_def plain_arch_def demo_tool_host_def demo_host_def)

lemma demo_mkuki_leaves:
  assumes "mkuki_main demo_tool_host demo_mkuki demo_inputs = (Inr (), fs1)"
  shows "f_data fs1 ''img'' \<noteq> None" and "f_data fs1 ''vmlinuz'' = Some [1, 2, 3]" and "f_data fs1 ''out/user-data.json'' = None"
  using assms
  by (rule mkuki_main_Inr; simp add: touches_def sig_path_def demo_inputs_def demo_built_facts(3))+

lemma demo_built_fresh:
  assumes "mkuki_main demo_tool_host demo_mkuki demo_inputs = (Inr (), fs1)"
  shows "old_doc demo_tool_host demo_built fs1 = Some (JObj [])"
  using demo_mkuki_leaves(3)[OF assms]
  by (simp add: old_doc_def path_exists_def ud_path_def path_join_def demo_built_def demo_create_def demo_tool_host_def demo_host_def)

lemma demo_built_runs:
  assumes "mkuki_main demo_tool_host demo_mkuki demo_inputs = (Inr (), fs1)"
  shows "\<exists>fs2. create demo_tool_host demo_built fs1 = (Inr (), fs2)"
proof (rule create_runs)
  show "willing demo_tool_host" by (simp add: willing_def demo_tool_host_def demo_host_simps)
  show "good_bases demo_built" using demo_create_good(2) by (simp add: good_bases_def demo_built_def create_ctx_def)
  show "good_key demo_tool_host demo_built fs1" by (simp add: good_key_def demo_built_def demo_create_def)
  show "good_inputs demo_tool_host demo_built fs1"
    using demo_mkuki_leaves(1,2)[OF assms] by (simp add: good_inputs_def demo_built_def demo_create_def)
  show "good_document demo_tool_host demo_built fs1"
    using demo_mkuki_leaves(3)[OF assms] demo_built_fresh[OF assms]
    by (simp add: good_document_def mergeable_def path_exists_def)
       (simp add: ud_path_def path_join_def demo_built_def demo_create_def demo_tool_host_def demo_host_def)
qed (use host_laws demo_built_facts in simp_all)

subsection \<open>A published document\<close>

definition demo_published :: files where
  "demo_published =
     \<lparr>f_data = [''doc'' \<mapsto> print_doc host_deps pinned_doc], f_mode = Map.empty, f_commands = [], f_printed = []\<rparr>"

lemma pinned_doc_fine: "wf_json pinned_doc" "printable pinned_doc"
  by (simp_all add: pinned_doc_def demo_stage2_def printable_def less_char_def)

lemma demo_published_reads:
  "Option.bind (f_data demo_published ''doc'') (value_from_slice host_deps) = Some pinned_doc"
  using print_doc_back(1)[OF crate_lawsD(6)[OF host_laws] pinned_doc_fine] by (simp add: demo_published_def)

lemma demo_modify_runs:
  assumes "rems \<in> {[], [''http://down'']}"
  shows "\<exists>fs'. modify demo_host \<lparr>o_path = ''doc'', o_add = [''http://new/''], o_remove = rems\<rparr> demo_published = (Inr (), fs')"
proof -
  note laws = crate_lawsD(6)[OF host_laws]
  obtain t where t: "string_from_utf8 (print_doc host_deps pinned_doc) = Some t" "str_bytes t = print_doc host_deps pinned_doc"
    using print_doc_back(3)[OF laws pinned_doc_fine] string_from_utf8_bytes by blast
  have "is_ok (rewrite_doc [''http://new''] [] pinned_doc) \<and> is_ok (rewrite_doc [''http://new''] [''http://down''] pinned_doc)"
    by code_simp
  then obtain doc' where "rewrite_doc [''http://new''] rems pinned_doc = Inr doc'" using assms by (auto simp: is_ok_iff)
  moreover have "map (trim_end_char CHR ''/'') rems = rems" using assms by (auto simp: trim_end_char_def)
  ultimately show ?thesis
    using t print_doc_back(1)[OF laws pinned_doc_fine]
    by (simp add: modify_def Let_def then_do_def read_value_def read_to_string_def read_bytes_def doc_path_def
        demo_host_simps demo_published_def write_bytes_def print_line_def trim_end_char_def)
       (simp add: demo_host_def)
qed

end
