(* ===== verification/Cpio_Tar.thy ===== *)
theory Cpio_Tar
  imports Cpio
begin

section \<open>mkuki: what an archive made from a tar stream contains\<close>

text \<open>
  The specification of \<open>CpioBuilder::add_tar\<close>, without its loop and its table of contents: what each
  item of the stream contributes, given the items before it. A hard link carries no data in a tar
  stream; it contributes a copy of the last regular file of its target's name among those items.
\<close>

subsection \<open>The contents known at a point of the stream\<close>

definition item_name :: "tar_item \<Rightarrow> (string \<times> u32 \<times> tar_kind) option" where
  "item_name it =
     (case it of
        Tar_Item (Some p) (Some m) kind \<Rightarrow> map_option (\<lambda>name. (name, perms_of m, kind)) (normalize_path p)
      | _ \<Rightarrow> None)"

definition regular_of :: "tar_item \<Rightarrow> (string \<times> bytes) option" where
  "regular_of it =
     (case item_name it of Some (name, _, Tar_Regular (Some d)) \<Rightarrow> Some (name, d) | _ \<Rightarrow> None)"

definition known :: "tar_item list \<Rightarrow> string \<Rightarrow> bytes option" where
  "known earlier = map_of (rev (List.map_filter regular_of earlier))"

definition link_contents :: "tar_item list \<Rightarrow> string \<Rightarrow> bytes" where
  "link_contents earlier target =
     (case known earlier (case normalize_path target of None \<Rightarrow> target | Some t \<Rightarrow> t) of
        None \<Rightarrow> [] | Some d \<Rightarrow> d)"

definition number_or_zero :: "u32 option option \<Rightarrow> u32" where
  "number_or_zero d = (case d of Some (Some n) \<Rightarrow> n | _ \<Rightarrow> 0)"

definition tarred_entry :: "tar_item list \<Rightarrow> tar_item \<Rightarrow> centry option" where
  "tarred_entry earlier it =
     (case item_name it of
        None \<Rightarrow> None
      | Some (name, perms, kind) \<Rightarrow>
          (case kind of
             Tar_Directory \<Rightarrow> Some (entry_new name (S_IFDIR OR perms) 2 [])
           | Tar_Symlink (Link_To target) \<Rightarrow> Some (entry_new name (S_IFLNK OR 0x1ff) 1 (str_bytes target))
           | Tar_Link (Link_To target) \<Rightarrow> Some (entry_new name (S_IFREG OR perms) 1 (link_contents earlier target))
           | Tar_Char major minor \<Rightarrow>
               Some (entry_dev_split name (S_IFCHR OR perms) (number_or_zero major) (number_or_zero minor))
           | Tar_Block major minor \<Rightarrow>
               Some (entry_dev_split name (S_IFBLK OR perms) (number_or_zero major) (number_or_zero minor))
           | Tar_Fifo \<Rightarrow> Some (entry_new name (S_IFIFO OR perms) 1 [])
           | Tar_Regular (Some d) \<Rightarrow> Some (entry_new name (S_IFREG OR perms) 1 d)
           | _ \<Rightarrow> None))"

fun tarred_from :: "tar_item list \<Rightarrow> tar_item list \<Rightarrow> centry list" where
  "tarred_from earlier [] = []"
| "tarred_from earlier (t # ts) =
     (case tarred_entry earlier t of None \<Rightarrow> [] | Some e \<Rightarrow> [e]) @ tarred_from (earlier @ [t]) ts"

definition tarred_entries :: "tar_item list \<Rightarrow> centry list" where
  "tarred_entries = tarred_from []"

lemma map_filter_append: "List.map_filter f (xs @ ys) = List.map_filter f xs @ List.map_filter f ys"
  by (simp add: List.map_filter_def)

lemma known_Nil: "known [] name = None"
  by (simp add: known_def List.map_filter_simps)

lemma known_snoc:
  "known (earlier @ [t]) name =
     (case regular_of t of Some (k, d) \<Rightarrow> if name = k then Some d else known earlier name | None \<Rightarrow> known earlier name)"
  by (auto simp: known_def map_filter_append List.map_filter_simps split: option.split)

subsection \<open>The loop refines the specification\<close>

lemma tar_entry_Inr:
  assumes "tar_entry name perms kind table = Inr (e, table')"
    and "item_name it = Some (name, perms, kind)" and "\<And>n. bt_get table n = known earlier n"
  shows "tarred_entry earlier it = e" and "bt_get table' n = known (earlier @ [it]) n"
  using assms
  by (cases kind; auto simp: tar_entry_def tarred_entry_def regular_of_def known_snoc link_contents_def dev_number_def
      number_or_zero_def and_then_Inr_iff Let_def split: link_name.splits option.splits)+

lemma no_item:
  assumes "item_name it = None"
  shows "tarred_entry earlier it = None" and "known (earlier @ [it]) n = known earlier n"
  using assms by (simp_all add: tarred_entry_def known_snoc regular_of_def)

lemma add_tar_items_fold:
  assumes "add_tar_items ts table b = Inr b'" and "\<And>n. bt_get table n = known earlier n"
  shows "b' = fold (\<lambda>(k, e). bt_insert k e) (map (\<lambda>e. (e_name e, e)) (tarred_from earlier ts)) b"
  using assms
proof (induction ts table b arbitrary: earlier rule: add_tar_items.induct)
  case (3 path mode kind ts table b)
  let ?it = "Tar_Item path mode kind"
  from "3.prems"(1) obtain p where p: "path = Some p" by (cases path) simp_all
  show ?case
  proof (cases "normalize_path p")
    case None
    then have "item_name ?it = None" by (simp add: item_name_def p split: option.split)
    from no_item[OF this] "3.IH"(1)[OF p None, of "earlier @ [?it]"] "3.prems" p None show ?thesis by simp
  next
    case (Some name)
    with "3.prems"(1) p obtain m e table' where m: "mode = Some m"
      and e: "tar_entry name (perms_of m) kind table = Inr (e, table')"
      and run: "add_tar_items ts table' (add_entry e b) = Inr b'"
      by (auto simp: and_then_Inr_iff split: option.splits)
    have name: "item_name ?it = Some (name, perms_of m, kind)" by (simp add: item_name_def p m Some)
    note spec = tar_entry_Inr[OF e name "3.prems"(2)]
    from "3.IH"(2)[OF p Some m run spec(2)] spec(1) show ?thesis
      by (cases e) (simp_all add: add_entry_def insert_entry_def)
  qed
qed simp_all

lemma add_tar_archive:
  assumes "add_tar (Some ts) new_builder = Inr b" and "finish b = Inr out"
    and "\<forall>e \<in> set (tarred_entries ts). entry_fits e"
  shows "\<exists>es. read_archive out = Some (numbered 0 es) \<and> sorted_wrt (<) (map e_name es)
    \<and> (\<forall>e. e \<in> set es \<longleftrightarrow> last_of_name (tarred_entries ts) (e_name e) = Some e)"
proof -
  have run: "add_tar_items ts [] new_builder = Inr b" using assms(1) by (simp add: add_tar_def)
  have "b = fold (\<lambda>(k, e). bt_insert k e) (map (\<lambda>e. (e_name e, e)) (tarred_entries ts)) new_builder"
    unfolding tarred_entries_def using run by (rule add_tar_items_fold) (simp add: known_Nil)
  then show ?thesis
    using builder_ok_add_tar[OF assms(1) builder_ok_new] assms(2,3) by (intro entries_archive)
qed

text \<open>
  Only regular files are remembered: a hard link to a name that was itself made by a hard link, or that
  was not met, is an empty file.
\<close>

lemma link_to_link_is_empty:
  "tarred_entries [Tar_Item (Some ''a'') (Some 0x1A4) (Tar_Regular (Some d)),
       Tar_Item (Some ''b'') (Some 0x1A4) (Tar_Link (Link_To ''a'')),
       Tar_Item (Some ''c'') (Some 0x1A4) (Tar_Link (Link_To ''b''))]
    = [entry_new ''a'' 0x81A4 1 d, entry_new ''b'' 0x81A4 1 d, entry_new ''c'' 0x81A4 1 []]"
  by (simp add: tarred_entries_def tarred_entry_def item_name_def normalize_path_def trim_end_char_def
      trim_start_char_def perms_of_def S_IFREG_def link_contents_def known_def regular_of_def
      List.map_filter_simps Let_def)

end
