(* ===== verification/Deploy_Stage1.thy ===== *)
theory Deploy_Stage1
  imports Deploy_Boot
begin

section \<open>deploy: the hop to stage1\<close>

text \<open>
  The first hop of a release is taken by another program, which follows the \<open>_stage1\<close> part of the same
  document to the image that holds \<open>stage1\<close>. That program is not part of the sources; these lemmas say
  what \<open>create\<close> puts in place for it: an image that the entry pins, or a signature of it in the image's
  own domain, behind a signed manifest where the release has one.
\<close>

definition image_hosted :: "deps \<Rightarrow> (string \<Rightarrow> bytes option) \<Rightarrow> string list \<Rightarrow> string \<Rightarrow> payload \<Rightarrow> bytes \<Rightarrow> bool" where
  "image_hosted D at bases arch p b \<longleftrightarrow>
     p_url p = compose_urls bases arch ''linux.efi'' \<and> at ''linux.efi'' = Some b
     \<and> (p_sha256 p = Some (sha256_hex D b)
        \<or> (\<exists>pem s. p_sha256 p = None \<and> p_ed25519 p = Some (pubkey_b64 s) \<and> sign D pem Stage1Uki b = Inr s
            \<and> at ''linux.efi.sig'' = Some (signature s)))"

lemma image_hosted_cong:
  assumes "image_hosted D at bases arch p b" and "at' ''linux.efi'' = at ''linux.efi''" and "at' ''linux.efi.sig'' = at ''linux.efi.sig''"
  shows "image_hosted D at' bases arch p b"
  using assms by (simp add: image_hosted_def)

lemma build_payload_others:
  assumes "build_payload H (create_ctx a) name src key d fs = (Inr p, fs')" and "n \<notin> {name, name @ ''.sig''}"
  shows "published a fs' n = published a fs n"
  using assms unfolding build_payload_def Let_def
  by (elim run_elims) (auto simp: res_simps split: option.splits)

lemma attach_args_others:
  assumes "attach_args H a (create_ctx a) key p fs = (Inr p', fs')" and "n \<notin> {''args.json'', ''args.json.sig''}"
  shows "published a fs' n = published a fs n"
  using assms(1) by (rule attach_args_Inr) (use assms(2) in simp_all)

lemma prepare_stage1:
  assumes "prepare H a fs = (Inr (e1, e2), fs')"
  obtains p b where "image_hosted (h_deps H) (published a fs') (x_bases (create_ctx a)) (c_arch a) p b"
    and "c_key a = None \<or> c_manifest a \<longrightarrow> p_sha256 p \<noteq> None"
    and "if c_manifest a
         then \<exists>m. ac_entry e1 = Manifest_Entry m
           \<and> pointer_hosted (h_deps H) (published a fs') (x_bases (create_ctx a)) (c_arch a) ''_stage1'' ''linux.efi'' Stage1Manifest p m
         else ac_entry e1 = Payload_Entry p"
  using assms
proof (rule prepare_steps, goal_cases)
  case (1 key uki p2 stage2 fs1 fs2 fs3 fs4)
  let ?D = "h_deps H" and ?bases = "x_bases (create_ctx a)"
  from 1(4) obtain b where b: "image_hosted ?D (published a fs2) ?bases (c_arch a) uki b"
    by (rule build_payload_Inr)
       (cases "if c_manifest a then None else key"; auto simp: image_hosted_def)
  have "key = None" if "c_key a = None" using 1(2) that by (simp add: read_key_def)
  then have pinned: "p_sha256 uki \<noteq> None" if "c_key a = None \<or> c_manifest a"
    using that 1(4) by (auto elim!: build_payload_Inr)
  have later: "published a fs4 n = published a fs2 n"
    if "n \<notin> {''stage2'', ''stage2.sig'', ''args.json'', ''args.json.sig''}" for n
    using that build_payload_others[OF 1(5), of n] attach_args_others[OF 1(6), of n] by simp
  have image: "image_hosted ?D (published a fs4) ?bases (c_arch a) uki b"
    by (rule image_hosted_cong[OF b]; rule later; simp)
  show ?case
  proof (cases "c_manifest a")
    case False
    with 1(7) have "e1 = direct_entry uki" "fs' = fs4" by (auto simp: make_entries_def)
    with image False pinned show ?thesis by (intro 1(1)[of uki b]) (simp_all add: direct_entry_def)
  next
    case True
    with 1(7) obtain pem fs5 where w1: "wrap_manifest H (create_ctx a) ''_stage1'' ''linux.efi'' uki pem Stage1Manifest fs4 = (Inr e1, fs5)"
      and w2: "wrap_manifest H (create_ctx a) ''_stage2'' ''stage2'' stage2 pem Stage2Manifest fs5 = (Inr e2, fs')"
      by (auto simp: make_entries_def res_simps)
    from w1 obtain m where m: "ac_entry e1 = Manifest_Entry m"
      "pointer_hosted ?D (published a fs5) ?bases (c_arch a) ''_stage1'' ''linux.efi'' Stage1Manifest uki m"
      and same1: "\<And>n. n \<notin> {manifest_name ''linux.efi'', manifest_name ''linux.efi'' @ ''.sig''} \<Longrightarrow> published a fs5 n = published a fs4 n"
      by (rule wrap_manifest_Inr) blast
    from w2 have same2: "published a fs' n = published a fs5 n"
      if "n \<notin> {''stage2.manifest.json'', ''stage2.manifest.json.sig''}" for n
      by (rule wrap_manifest_stage2_Inr) (use that in blast)
    have "image_hosted ?D (published a fs') ?bases (c_arch a) uki b"
      by (rule image_hosted_cong[OF image]) (simp_all add: same1 same2 manifest_name_def)
    moreover have "pointer_hosted ?D (published a fs') ?bases (c_arch a) ''_stage1'' ''linux.efi'' Stage1Manifest uki m"
      using m(2) by (simp add: pointer_hosted_def same2 manifest_name_def)
    ultimately show ?thesis using m(1) True pinned by (intro 1(1)[of uki b]) simp_all
  qed
qed

text \<open>What a verifier of the first hop finds, after the laws of the crates.\<close>

definition image_verified :: "deps \<Rightarrow> (string \<Rightarrow> bytes option) \<Rightarrow> payload \<Rightarrow> bytes \<Rightarrow> bool" where
  "image_verified D at p b \<longleftrightarrow> at ''linux.efi'' = Some b
     \<and> (p_sha256 p = Some (sha256_hex D b)
        \<or> (\<exists>key sig. p_sha256 p = None \<and> p_ed25519 p = Some key \<and> at ''linux.efi.sig'' = Some sig \<and> verify D key Stage1Uki b sig = Inr ()))"

lemma image_hosted_verified:
  assumes "crate_laws D" and "image_hosted D at bases arch p b"
  shows "image_verified D at p b"
  using assms(2) verify_signed[OF crate_lawsD(3,4,5)[OF assms(1)]]
  by (auto simp: image_hosted_def image_verified_def)

definition manifest_names_image ::
    "deps \<Rightarrow> (string \<Rightarrow> bytes option) \<Rightarrow> string \<Rightarrow> manifest_ref \<Rightarrow> payload \<Rightarrow> bool" where
  "manifest_names_image D at arch m p \<longleftrightarrow>
     (\<exists>b sig. at ''linux.efi.manifest.json'' = Some b \<and> at ''linux.efi.manifest.json.sig'' = Some sig
        \<and> verify D (m_ed25519 m) Stage1Manifest b sig = Inr ()
        \<and> value_from_slice D b = Some (JObj [(''_stage1'', JObj [(arch, JObj [(''payload'', ser_payload p)])])]))"

lemma pointer_names_image:
  assumes "crate_laws D" and "pointer_hosted D at bases arch ''_stage1'' ''linux.efi'' Stage1Manifest p m"
  shows "manifest_names_image D at arch m p"
proof -
  have "prints_back D (manifest_fragment ''_stage1'' arch p)"
    using wf_fragment[of "''_stage1''" arch p] by (rule json_lawD[OF crate_lawsD(6)[OF assms(1)]])
  then have "value_from_slice D (json_pretty D (manifest_fragment ''_stage1'' arch p)) = Some (manifest_fragment ''_stage1'' arch p)"
    using wf_fragment(1) by (rule value_roundtrip(2))
  then show ?thesis
    using assms(2) verify_signed[OF crate_lawsD(3,4,5)[OF assms(1)]]
    by (auto simp: pointer_hosted_def manifest_names_image_def manifest_name_def Let_def) (auto simp: manifest_fragment_def)
qed

lemma create_stage1:
  assumes "create H a fs = (Inr u, fs')" and "plain_arch (c_arch a)" and "crate_laws (h_deps H)"
    and "\<And>doc. old_doc H a fs = Some doc \<Longrightarrow> printable doc"
  shows "\<exists>raw doc e p b. f_data fs' (ud_path a) = Some raw \<and> value_from_slice (h_deps H) raw = Some doc
    \<and> get_path doc [''_stage1'', c_arch a] = Some (ser_arch_config e) \<and> entry_allowed (h_deps H) Stage0 e
    \<and> p_url p = compose_urls (x_bases (create_ctx a)) (c_arch a) ''linux.efi''
    \<and> image_verified (h_deps H) (published a fs') p b \<and> (c_key a = None \<or> c_manifest a \<longrightarrow> p_sha256 p \<noteq> None)
    \<and> (if c_manifest a
       then \<exists>m. ac_entry e = Manifest_Entry m
         \<and> m_url m = compose_urls (x_bases (create_ctx a)) (c_arch a) ''linux.efi.manifest.json''
         \<and> manifest_names_image (h_deps H) (published a fs') (c_arch a) m p
       else ac_entry e = Payload_Entry p)"
  using assms(1,2)
proof (rule create_steps, goal_cases)
  case (1 e1 e2 doc doc' fs1)
  let ?D = "h_deps H" and ?bases = "x_bases (create_ctx a)"
  have doc': "wf_json doc'" "printable doc'"
    using merge_doc_wf[OF 1(3)] merge_doc_printable[OF 1(3)] wf_old_doc assms(4) 1(2) by blast+
  note reads = print_doc_back(1)[OF crate_lawsD(6)[OF assms(3)] doc']
  from 1(1) obtain p b where image: "image_hosted ?D (published a fs1) ?bases (c_arch a) p b"
    and pinned: "c_key a = None \<or> c_manifest a \<longrightarrow> p_sha256 p \<noteq> None"
    and entry: "if c_manifest a
         then \<exists>m. ac_entry e1 = Manifest_Entry m
           \<and> pointer_hosted ?D (published a fs1) ?bases (c_arch a) ''_stage1'' ''linux.efi'' Stage1Manifest p m
         else ac_entry e1 = Payload_Entry p"
    by (rule prepare_stage1)
  have image': "image_hosted ?D (published a fs') ?bases (c_arch a) p b"
    by (rule image_hosted_cong[OF image]) (simp_all add: 1(5) arch_names_def)
  have "m_url m = compose_urls ?bases (c_arch a) ''linux.efi.manifest.json''
      \<and> manifest_names_image ?D (published a fs') (c_arch a) m p"
    if m: "pointer_hosted ?D (published a fs1) ?bases (c_arch a) ''_stage1'' ''linux.efi'' Stage1Manifest p m" for m
  proof -
    have "pointer_hosted ?D (published a fs') ?bases (c_arch a) ''_stage1'' ''linux.efi'' Stage1Manifest p m"
      using m by (simp add: pointer_hosted_def 1(5) arch_names_def manifest_name_def)
    from pointer_names_image[OF assms(3) this] m show ?thesis by (simp add: pointer_hosted_def manifest_name_def)
  qed
  with entry have "if c_manifest a
       then \<exists>m. ac_entry e1 = Manifest_Entry m \<and> m_url m = compose_urls ?bases (c_arch a) ''linux.efi.manifest.json''
         \<and> manifest_names_image ?D (published a fs') (c_arch a) m p
       else ac_entry e1 = Payload_Entry p"
    by (auto split: if_splits)
  moreover have "image_verified ?D (published a fs') p b" using assms(3) image' by (rule image_hosted_verified)
  moreover have "p_url p = compose_urls ?bases (c_arch a) ''linux.efi''" using image' by (simp add: image_hosted_def)
  ultimately show ?case
    using reads 1(4) pinned merge_doc_get(1)[OF 1(3)] prepare_Inr(2)[OF 1(1)]
    by (intro exI[of _ "print_doc ?D doc'"] exI[of _ doc'] exI[of _ e1] exI[of _ p] exI[of _ b]) simp
qed

end
