(* ===== verification/Deploy_Sequence.thy ===== *)
theory Deploy_Sequence
  imports Deploy_Stage1 Deploy_Total Mkuki
begin

section \<open>Runs of the tools, one after the other\<close>

text \<open>
  Two sequences on one directory. \<open>mkuki\<close>, then \<open>create\<close>: the image that was built is the image that is
  published and admitted. \<open>create\<close>, then a \<open>create\<close> that fails: it replaces the image and the payload
  before it looks at \<open>--args\<close>, so a release that pins digests is left with files it refuses.
\<close>

subsection \<open>The bytes that are published\<close>

lemma build_payload_source:
  assumes "build_payload H (create_ctx a) name src key d fs = (Inr p, fs')"
  shows "published a fs' name = f_data fs src"
  using assms unfolding build_payload_def Let_def
  by (elim run_elims) (auto simp: res_simps split: option.splits)

lemma prepare_image_source:
  assumes "prepare H a fs = (Inr (e1, e2), fs')"
  shows "published a fs' ''linux.efi'' = f_data fs (c_uki a)"
  using assms
proof (cases rule: prepare_steps)
  case (1 key uki p stage2 fs1 fs2 fs3 fs4)
  have "fs1 = fs" using 1(1) by (auto simp: read_key_def res_simps split: option.splits)
  then have image: "published a fs4 ''linux.efi'' = f_data fs (c_uki a)"
    using build_payload_source[OF 1(3)] build_payload_others[OF 1(4), of "''linux.efi''"]
      attach_args_others[OF 1(5), of "''linux.efi''"] by simp
  show ?thesis
  proof (cases "c_manifest a")
    case False
    with 1(6) image show ?thesis by (simp add: make_entries_def)
  next
    case True
    with 1(6) obtain pem fs5 where w1: "wrap_manifest H (create_ctx a) ''_stage1'' ''linux.efi'' uki pem Stage1Manifest fs4 = (Inr e1, fs5)"
      and w2: "wrap_manifest H (create_ctx a) ''_stage2'' ''stage2'' stage2 pem Stage2Manifest fs5 = (Inr e2, fs')"
      by (auto simp: make_entries_def res_simps)
    from w2 have "published a fs' ''linux.efi'' = published a fs5 ''linux.efi''"
      by (rule wrap_manifest_stage2_Inr) simp
    with wrap_manifest_stage1_Inr[OF w1, of "''linux.efi''"] image show ?thesis by simp
  qed
qed

lemma create_image_source:
  assumes "create H a fs = (Inr u, fs')" and "plain_arch (c_arch a)"
  shows "published a fs' ''linux.efi'' = f_data fs (c_uki a)"
  using assms
  by (rule create_steps) (simp add: arch_names_def prepare_image_source)

subsection \<open>An image built and published\<close>

lemma built_image_published:
  assumes "mkuki_main H m fs = (Inr u, fs1)" and "create H a fs1 = (Inr v, fs2)" and "c_uki a = a_out m"
    and "plain_arch (c_arch a)" and "crate_laws (h_deps H)"
    and "\<And>doc. old_doc H a fs1 = Some doc \<Longrightarrow> printable doc"
  obtains img raw doc e p where "f_data fs1 (a_out m) = Some img"
    and "newline @ ''sha256: '' @ sha256_hex (h_deps H) img \<in> set (f_printed fs1)"
    and "f_data fs2 (ud_path a) = Some raw" and "value_from_slice (h_deps H) raw = Some doc"
    and "get_path doc [''_stage1'', c_arch a] = Some (ser_arch_config e)"
    and "image_verified (h_deps H) (published a fs2) p img"
    and "c_key a = None \<or> c_manifest a \<longrightarrow> p_sha256 p = Some (sha256_hex (h_deps H) img)"
    and "if c_manifest a
       then \<exists>r. ac_entry e = Manifest_Entry r \<and> manifest_names_image (h_deps H) (published a fs2) (c_arch a) r p
       else ac_entry e = Payload_Entry p"
  using assms(1)
proof (rule mkuki_main_Inr, goal_cases)
  case (1 layers initrd kernel osrel stub img fs0)
  have source: "published a fs2 ''linux.efi'' = Some img"
    using create_image_source[OF assms(2,4)] 1(8) assms(3) by simp
  obtain raw doc e p b where facts: "f_data fs2 (ud_path a) = Some raw" "value_from_slice (h_deps H) raw = Some doc"
    "get_path doc [''_stage1'', c_arch a] = Some (ser_arch_config e)"
    and image: "image_verified (h_deps H) (published a fs2) p b"
    and pinned: "c_key a = None \<or> c_manifest a \<longrightarrow> p_sha256 p \<noteq> None"
    and entry: "if c_manifest a
       then \<exists>r. ac_entry e = Manifest_Entry r
         \<and> m_url r = compose_urls (x_bases (create_ctx a)) (c_arch a) ''linux.efi.manifest.json''
         \<and> manifest_names_image (h_deps H) (published a fs2) (c_arch a) r p
       else ac_entry e = Payload_Entry p"
    using create_stage1[OF assms(2,4,5,6)] by blast
  have "b = img" using image source by (simp add: image_verified_def)
  with image pinned have "c_key a = None \<or> c_manifest a \<longrightarrow> p_sha256 p = Some (sha256_hex (h_deps H) img)"
    by (auto simp: image_verified_def)
  with facts image entry \<open>b = img\<close> 1(8,12) show ?case
    by (intro 1(1)[of img raw doc e p]) (auto split: if_splits)
qed

subsection \<open>A \<open>create\<close> that fails after it has written\<close>

text \<open>With arguments that are not a JSON array of strings, everything before them has happened.\<close>

lemma create_bad_args:
  assumes "willing H" and "\<forall>b \<in> set (x_bases (create_ctx a)). starts_with b ''http://''"
    and "good_key H a fs" and "f_data fs (c_uki a) \<noteq> None" and "f_data fs (c_stage2 a) \<noteq> None"
    and "c_args a \<noteq> None" and "given_args H a = None"
  obtains fs' where "create H a fs = (Inl Bad_Args, fs')"
    and "published a fs' ''linux.efi'' = f_data fs (c_uki a)"
proof -
  let ?ctx = "create_ctx a"
  have bases: "check_bases (x_bases ?ctx) = Inr ()" using assms(2) by (simp add: check_bases_Inr_iff)
  have dir: "create_dir_all H (x_dir ?ctx) s = (Inr (), s)" for s
    using assms(1) by (simp add: create_dir_all_def willing_def)
  have modes: "\<not> (c_sign_args a \<and> c_manifest a)"
    using assms(3) by (auto simp: good_key_def split: option.splits)
  obtain key where key: "read_key H a fs = (Inr key, fs)" "\<And>pem. key = Some pem \<Longrightarrow> signable (h_deps H) pem"
  proof (cases "c_key a")
    case None
    then show thesis using that[of None] by (simp add: read_key_def)
  next
    case (Some p)
    with assms(3) obtain pem where "text_file fs p pem" "signable (h_deps H) pem" by (auto simp: good_key_def)
    then show thesis using that[of "Some pem"] Some read_text_runs[OF assms(1)] by (simp add: read_key_def then_do_def)
  qed
  have signable: "(if c_manifest a then None else key) = Some pem \<Longrightarrow> signable (h_deps H) pem" for pem
    using key(2) by (auto split: if_splits)
  obtain uki fs1 where b1: "build_payload H ?ctx ''linux.efi'' (c_uki a) (if c_manifest a then None else key) Stage1Uki fs = (Inr uki, fs1)"
    and grows: "grows fs fs1"
    using build_payload_runs[OF assms(1,4) signable] by blast
  have "f_data fs1 (c_stage2 a) \<noteq> None" using grows assms(5) by (simp add: grows_def)
  then obtain p fs2 where b2: "build_payload H ?ctx ''stage2'' (c_stage2 a) (if c_manifest a then None else key) Stage2Payload fs1 = (Inr p, fs2)"
    using build_payload_runs[OF assms(1) _ signable] by blast
  have args: "attach_args H a ?ctx key p fs2 = (Inl Bad_Args, fs2)"
    using assms(6,7) by (auto simp: attach_args_def given_args_def then_do_def ok_or_def)
  have "create H a fs = (Inl Bad_Args, fs2)"
    using modes by (simp add: create_def prepare_def Let_def then_do_def bases dir key(1) b1 b2 args)
  moreover have "published a fs2 ''linux.efi'' = f_data fs (c_uki a)"
    using build_payload_source[OF b1] build_payload_others[OF b2, of "''linux.efi''"] by simp
  ultimately show thesis by (rule that)
qed

lemma same_directory: "c_out a' = c_out a \<Longrightarrow> c_arch a' = c_arch a \<Longrightarrow> published a' = published a \<and> ud_path a' = ud_path a"
  by (auto simp: published_def create_ctx_def ud_path_def fun_eq_iff)

lemma failed_create_breaks:
  assumes "create H a fs = (Inr u, fs1)" and "plain_arch (c_arch a)" and "crate_laws (h_deps H)"
    and "\<And>doc. old_doc H a fs = Some doc \<Longrightarrow> printable doc" and "c_key a = None" and "\<not> c_manifest a"
    and "c_out a' = c_out a" and "c_arch a' = c_arch a" and "willing H"
    and "\<forall>b \<in> set (x_bases (create_ctx a')). starts_with b ''http://''"
    and "good_key H a' fs1" and "f_data fs1 (c_stage2 a') \<noteq> None"
    and "c_args a' \<noteq> None" and "given_args H a' = None"
    and "f_data fs1 (c_uki a') = Some new" and "f_data fs (c_uki a) = Some old"
    and "sha256_hex (h_deps H) new \<noteq> sha256_hex (h_deps H) old"
  obtains fs2 raw doc e p where "create H a' fs1 = (Inl Bad_Args, fs2)"
    and "f_data fs1 (ud_path a) = Some raw" and "f_data fs2 (ud_path a) = Some raw"
    and "value_from_slice (h_deps H) raw = Some doc"
    and "get_path doc [''_stage1'', c_arch a] = Some (ser_arch_config e)" and "ac_entry e = Payload_Entry p"
    and "image_verified (h_deps H) (published a fs1) p old"
    and "\<And>b. \<not> image_verified (h_deps H) (published a fs2) p b"
proof -
  let ?D = "h_deps H"
  obtain raw doc e p b where facts: "f_data fs1 (ud_path a) = Some raw" "value_from_slice ?D raw = Some doc"
    "get_path doc [''_stage1'', c_arch a] = Some (ser_arch_config e)" "ac_entry e = Payload_Entry p"
    and image: "image_verified ?D (published a fs1) p b" and pinned: "p_sha256 p \<noteq> None"
    using create_stage1[OF assms(1-4)] assms(5,6) by auto
  have b: "b = old" using image create_image_source[OF assms(1,2)] assms(16) by (simp add: image_verified_def)
  have uki: "f_data fs1 (c_uki a') \<noteq> None" using assms(15) by simp
  obtain fs2 where run: "create H a' fs1 = (Inl Bad_Args, fs2)"
    and replaced: "published a' fs2 ''linux.efi'' = f_data fs1 (c_uki a')"
    by (rule create_bad_args[OF assms(9-11) uki assms(12-14)])
  have "touches (arch_files a') fs1 fs2" using create_Inl[OF run] by simp
  then have kept: "f_data fs2 (ud_path a) = f_data fs1 (ud_path a)"
    using ud_path_not_arch_file[of a'] assms(2,7,8) same_directory[OF assms(7,8)] by (simp add: touches_def)
  have "p_sha256 p = Some (sha256_hex ?D old)" using image pinned by (auto simp: image_verified_def b)
  then have "\<not> image_verified ?D (published a fs2) p c" for c
    using replaced assms(15,17) same_directory[OF assms(7,8)] by (auto simp: image_verified_def)
  with facts kept image show thesis by (intro that[OF run facts(1) _ facts(2-4)]) (simp_all add: b)
qed

end
