(* ===== verification/Command_Lines.thy ===== *)
theory Command_Lines
  imports Deploy_Laws Mkuki
begin

section \<open>The command lines of the tools\<close>

text \<open>
  What the attributes on the argument structs of \<open>crates/deploy/src/main.rs\<close> and
  \<open>crates/mkuki/src/main.rs\<close> ask \<open>clap\<close> to refuse, as predicates over the parsed arguments; the parsing
  itself is a library. The lemmas say what the code makes of it: the two \<open>expect\<close>s of \<open>create\<close> name
  these attributes as their reason, and of the three ways to give \<open>mkuki\<close> a root file system one is in
  force. The level of \<open>mkuki\<close>'s log is here too.
\<close>

subsection \<open>What is accepted\<close>

definition clap_create :: "create_args \<Rightarrow> bool" where
  "clap_create a \<longleftrightarrow>
     c_arch a \<in> {''x86_64'', ''aarch64''} \<and> c_base_url a \<noteq> []
     \<and> (c_sign_args a \<longrightarrow> c_key a \<noteq> None \<and> c_args a \<noteq> None)
     \<and> (c_manifest a \<longrightarrow> c_key a \<noteq> None)"

fun clap_deploy :: "deploy_cmd \<Rightarrow> bool" where
  "clap_deploy (Create a) = clap_create a"
| "clap_deploy (Keygen a) = True"
| "clap_deploy (Sign a) = True"
| "clap_deploy (Validate path) = True"
| "clap_deploy (Modify a) = True"

definition clap_mkuki :: "mkuki_args \<Rightarrow> bool" where
  "clap_mkuki a \<longleftrightarrow>
     \<not> (a_from_docker a \<noteq> None \<and> a_rootfs a \<noteq> None)
     \<and> \<not> (a_layers a \<noteq> [] \<and> (a_rootfs a \<noteq> None \<or> a_from_docker a \<noteq> None))"

definition clap_verbosity :: "8 word \<Rightarrow> bool \<Rightarrow> bool" where
  "clap_verbosity verbose quiet \<longleftrightarrow> \<not> (quiet \<and> verbose \<noteq> 0)"

text \<open>The level that is in force when \<open>RUST_LOG\<close> says nothing.\<close>

datatype level_filter = ERROR | INFO | DEBUG | TRACE

definition init_tracing :: "8 word \<Rightarrow> bool \<Rightarrow> level_filter" where
  "init_tracing verbose quiet =
     (if quiet then ERROR else if verbose = 0 then INFO else if verbose = 1 then DEBUG else TRACE)"

subsection \<open>The panics of the tools\<close>

definition panics :: "tool_error set" where
  "panics = {Expect_Panic, Slice_Panic}"

lemma in_panics [simp]: "e \<in> panics \<longleftrightarrow> e = Expect_Panic \<or> e = Slice_Panic"
  by (simp add: panics_def)

lemma avoids_files [avoids_intros]:
  "avoids panics (read_bytes H p)" "avoids panics (write_bytes H p b)" "avoids panics (print_line x)"
  by (auto intro!: avoidsI dest!: write_bytes_Inl ok_or_Inl simp: read_bytes_def print_line_def split: if_splits)

lemma avoids_read_to_string [avoids_intros]: "avoids panics (read_to_string H p)"
  unfolding read_to_string_def by (intro avoids_intros) simp

subsection \<open>\<open>deploy\<close>\<close>

lemma check_bases_Inl: "check_bases bs = Inl e \<Longrightarrow> \<exists>b. e = Bad_Base_Url b"
  by (induction bs) (auto split: if_splits)

lemma avoids_check_bases [avoids_intros]: "avoids panics (lift (check_bases bs))"
  by (rule avoids_lift) (auto dest: check_bases_Inl)

lemma avoids_build_payload [avoids_intros]: "avoids panics (build_payload H ctx name src key d)"
  unfolding build_payload_def Let_def
  by (auto intro!: avoids_intros split: option.split)

lemma avoids_wrap_manifest [avoids_intros]: "avoids panics (wrap_manifest H ctx st name p pem d)"
  unfolding wrap_manifest_def Let_def by (auto intro!: avoids_intros)

text \<open>The two \<open>expect\<close>s have a key where the command line is accepted.\<close>

lemma avoids_attach_args:
  "c_sign_args a \<Longrightarrow> key \<noteq> None \<Longrightarrow> avoids panics (attach_args H a ctx key p)"
  "\<not> c_sign_args a \<Longrightarrow> avoids panics (attach_args H a ctx key p)"
  unfolding attach_args_def Let_def
  by (auto intro!: avoids_intros simp:  ok_or_def split: option.split)

lemma avoids_make_entries: "c_manifest a \<longrightarrow> key \<noteq> None \<Longrightarrow> avoids panics (make_entries H a ctx key uki stage2)"
  unfolding make_entries_def by (auto intro!: avoids_intros simp: ok_or_def)

lemma avoids_read_key: "avoids panics (read_key H a)"
  unfolding read_key_def by (auto intro!: avoids_intros split: option.split)

lemma read_key_given: "read_key H a s = (Inr key, s') \<Longrightarrow> c_key a \<noteq> None \<Longrightarrow> key \<noteq> None"
  by (auto simp: read_key_def res_simps split: option.splits)

lemma avoids_prepare:
  assumes "clap_create a"
  shows "avoids panics (prepare H a)"
  unfolding prepare_def Let_def create_dir_all_def
proof (rule avoids_then_do[OF avoids_check_bases], rule avoids_then_do, goal_cases)
  case 1
  then show ?case by (auto intro!: avoids_intros)
next
  case 2
  show ?case
  proof (rule avoids_then_do[OF avoids_read_key])
    fix key s s'
    assume "read_key H a s = (Inr key, s')"
    then have key: "c_sign_args a \<Longrightarrow> key \<noteq> None" "c_manifest a \<longrightarrow> key \<noteq> None"
      using assms read_key_given by (auto simp: clap_create_def)
    have args: "avoids panics (attach_args H a (create_ctx a) key p)" for p
      using key(1) by (cases "c_sign_args a") (simp_all add: avoids_attach_args)
    note steps = args avoids_make_entries[OF key(2)] avoids_intros
    show "avoids panics (if c_sign_args a \<and> c_manifest a then throw Sign_Args_With_Manifest
      else then_do (build_payload H (create_ctx a) ''linux.efi'' (c_uki a) (if c_manifest a then None else key) Stage1Uki) (\<lambda>uki.
        then_do (build_payload H (create_ctx a) ''stage2'' (c_stage2 a) (if c_manifest a then None else key) Stage2Payload) (\<lambda>stage2.
        then_do (attach_args H a (create_ctx a) key stage2) (\<lambda>stage2.
        then_do (make_entries H a (create_ctx a) key uki stage2) (\<lambda>(e1, e2).
        then_do (lift (map_err Invalid_Stage1 (arch_validate (h_deps H) e1 Stage0))) (\<lambda>_.
        then_do (lift (map_err Invalid_Stage2 (arch_validate (h_deps H) e2 Stage1))) (\<lambda>_.
        ret (e1, e2))))))))"
      by (auto intro!: steps split: prod.split)
  qed
qed

lemma set_arch_Inl: "set_arch st arch e m = Inl d \<Longrightarrow> d = Not_Object st"
  by (auto simp: set_arch_def split: json.splits)

lemma merge_doc_Inl: "merge_doc arch e1 e2 doc = Inl d \<Longrightarrow> \<exists>k. d = Not_Object k"
  by (cases doc) (auto simp: merge_doc_def and_then_def dest!: set_arch_Inl split: sum.splits)

lemma avoids_read_value [avoids_intros]: "avoids panics (read_value H p)"
  unfolding read_value_def by (intro avoids_intros) simp

lemma avoids_merge_user_data: "avoids panics (merge_user_data H p arch e1 e2)"
proof -
  have merge: "avoids panics (lift (merge_doc arch e1 e2 doc))" for doc
    by (rule avoids_lift) (auto dest: merge_doc_Inl)
  have "avoids panics (then_do (if c then read_value H p else ret (JObj [])) (\<lambda>doc.
      then_do (lift (merge_doc arch e1 e2 doc)) (\<lambda>doc'. write_bytes H p (print_doc (h_deps H) doc'))))" for c
    by (auto intro!: avoids_intros merge)
  from avoidsD[OF this] show ?thesis unfolding merge_user_data_def by (rule avoidsI)
qed

lemma avoids_create: "clap_create a \<Longrightarrow> avoids panics (create H a)"
  unfolding create_def by (auto intro!: avoids_intros avoids_prepare avoids_merge_user_data split: prod.split)

text \<open>The loops of \<open>modify\<close> fail only at a URL field, or where the document is no object.\<close>

lemma rewrite_member_Inl: "rewrite_member f k m = Inl e \<Longrightarrow> \<exists>v. f v = Inl e"
  by (auto simp: rewrite_member_def and_then_def split: option.splits sum.splits)

lemma rewrite_object_Inl: "rewrite_object f v = Inl e \<Longrightarrow> \<exists>m. f m = Inl e"
  by (cases v) (auto simp: rewrite_object_def and_then_def split: sum.splits)

lemma try_fold_Inl: "try_fold f xs m = Inl e \<Longrightarrow> \<exists>x m. f x m = Inl e"
  by (induction xs arbitrary: m) (auto simp: and_then_def split: sum.splits)

lemma rewrite_urls_Inl: "rewrite_urls adds rems v = Inl e \<Longrightarrow> e = Bad_Url_Field"
  by (cases v) (auto simp: rewrite_urls_def url_values_def)

lemma rewrite_entry_Inl: "rewrite_entry adds rems v = Inl e \<Longrightarrow> e = Bad_Url_Field"
  unfolding rewrite_entry_def rewrite_variant_def
  by (blast dest: rewrite_object_Inl try_fold_Inl rewrite_member_Inl rewrite_urls_Inl)

lemma rewrite_arches_Inl: "rewrite_arches adds rems m = Inl e \<Longrightarrow> e = Bad_Url_Field"
  by (induction adds rems m rule: rewrite_arches.induct)
     (auto simp: and_then_def dest: rewrite_entry_Inl split: sum.splits)

lemma rewrite_doc_Inl: "rewrite_doc adds rems doc = Inl e \<Longrightarrow> e = Bad_Url_Field \<or> e = Not_Object ''user-data''"
  unfolding rewrite_doc_def
  by (auto dest!: rewrite_object_Inl try_fold_Inl rewrite_member_Inl rewrite_arches_Inl split: if_splits)

lemma avoids_modify: "avoids panics (modify H a)"
proof -
  have "avoids panics (lift (rewrite_doc adds rems doc))" for adds rems doc
    by (rule avoids_lift) (auto dest: rewrite_doc_Inl)
  note steps = this avoids_intros
  show ?thesis unfolding modify_def Let_def by (intro steps)
qed

lemma avoids_keygen: "avoids panics (keygen H a)"
proof -
  have "avoids panics (write_private H p b)" for p b
    by (auto intro!: avoidsI dest!: write_bytes_Inl simp: write_private_def split: if_splits)
  moreover have "avoids panics (lift (random_seed H))"
    by (rule avoids_lift) (auto simp: random_seed_def split: option.splits if_splits)
  moreover have "avoids panics (case k_pub a of None \<Rightarrow> ret () | Some p \<Rightarrow> write_bytes H p b)" for b
    by (cases "k_pub a") (simp_all add: avoids_intros)
  ultimately show ?thesis unfolding keygen_def Let_def by (intro avoids_intros)
qed

lemma avoids_sign_file: "avoids panics (sign_file H a)"
  unfolding sign_file_def by (intro avoids_intros) simp_all

lemma avoids_validate: "avoids panics (validate H p)"
  unfolding validate_def Let_def by (auto intro!: avoids_intros)

lemma avoids_deploy_main: "clap_deploy c \<Longrightarrow> avoids panics (deploy_main H c)"
  by (cases c) (simp_all add: avoids_create avoids_keygen avoids_sign_file avoids_validate avoids_modify)

subsection \<open>\<open>mkuki\<close>\<close>

lemma avoids_source [avoids_intros]: "avoids panics (source_from_path H p)"
  unfolding source_from_path_def by (auto intro!: avoids_intros)

lemma avoids_layers_from_paths [avoids_intros]: "avoids panics (layers_from_paths H ps)"
  by (induction ps) (auto intro!: avoids_intros simp: layer_from_path_def)

lemma avoids_run_command [avoids_intros]: "avoids panics (run_command H c)"
  by (rule avoidsI) (simp add: run_command_def)

lemma avoids_docker_export [avoids_intros]: "avoids panics (docker_export H engine img)"
  unfolding docker_export_def Let_def
  by (auto intro!: avoids_intros split: option.split prod.split)

lemma avoids_resolve_layers: "avoids panics (resolve_layers H a)"
  unfolding resolve_layers_def by (auto intro!: avoids_intros split: option.split)

lemma build_layer_Inl: "build_layer H src = Inl e \<Longrightarrow> e \<notin> panics"
  by (auto simp: build_layer_def and_then_def dest!: map_err_Inl ok_or_Inl split: sum.splits layer_source.splits)

lemma build_layers_Inl: "build_layers H ls data hashes = Inl e \<Longrightarrow> e \<notin> panics"
  by (induction H ls data hashes rule: build_layers.induct)
     (auto simp: and_then_def dest: build_layer_Inl split: sum.splits)

lemma avoids_sign_image [avoids_intros]: "avoids panics (sign_image H a img)"
  unfolding sign_image_def by (auto intro!: avoids_intros split: option.split)

lemma avoids_print_lines [avoids_intros]: "avoids panics (print_lines ls)"
  by (induction ls) (auto intro!: avoids_intros)

text \<open>The slices of eight characters are in range, because digests have 64.\<close>

lemma avoids_mkuki_main:
  assumes "sha256_law (h_deps H)"
  shows "avoids panics (mkuki_main H a)"
proof -
  have initramfs: "avoids panics (lift (build_initramfs H layers))" for layers
    by (rule avoids_lift) (auto simp: build_initramfs_def dest: build_layers_Inl)
  have lengths: "\<forall>lh \<in> set (i_layer_hashes initrd). 8 \<le> length (snd lh)"
    if "lift (build_initramfs H layers) s = (Inr initrd, s')" for layers initrd s s'
    using build_layers_hash_lengths[of H layers "[]" "[]" initrd] that assms by (simp add: build_initramfs_def)
  note os_release = generate_os_release_total[OF assms]
  show ?thesis unfolding mkuki_main_def
  proof (intro avoids_then_do avoids_resolve_layers initramfs, goal_cases)
    case (2 layers s s' initrd s1 s1' kernel s2 s2')
    from os_release[OF lengths[OF 2(2)]] show ?case
      by (auto intro!: avoids_intros split: option.split)
  qed (auto intro!: avoids_intros split: prod.split)
qed

text \<open>Under an accepted command line the source of the layers is the option that was given.\<close>

lemma resolve_layers_option:
  assumes "clap_mkuki a"
  shows "a_layers a \<noteq> [] \<Longrightarrow> a_from_docker a = None \<and> a_rootfs a = None \<and> resolve_layers H a = layers_from_paths H (a_layers a)"
    and "a_from_docker a = Some img \<Longrightarrow> a_layers a = [] \<and> a_rootfs a = None
      \<and> resolve_layers H a = then_do (docker_export H (a_docker a) img) (\<lambda>tar. ret [\<lparr>l_label = ''rootfs'', l_source = Tar_Source tar\<rparr>])"
    and "a_rootfs a = Some rootfs \<Longrightarrow> a_layers a = [] \<and> a_from_docker a = None
      \<and> resolve_layers H a = then_do (source_from_path H rootfs) (\<lambda>src. ret [\<lparr>l_label = ''rootfs'', l_source = src\<rparr>])"
  using assms by (auto simp: clap_mkuki_def resolve_layers_def)

end
