(* ===== verification/Deploy_Validate.thy ===== *)
theory Deploy_Validate
  imports Deploy_Modify
begin

section \<open>deploy: what \<open>validate\<close> tells about a boot\<close>

text \<open>
  \<open>validate\<close> and \<open>stage1\<close> read a document differently: the one through the typed reader, the other
  through the members of a value, entry by entry. These lemmas say that on a document that gives its
  structs as objects they agree: the first pass of \<open>stage1\<close>'s loop fails only for what the network and
  the keys do, never for the document.
\<close>

definition config_errors :: "stage1_error set" where
  "config_errors = {Bad_Json, Reparse_Failed, No_Stage2_Config, Invalid_Entry} \<union> range Invalid_Payload \<union> range Invalid_Manifest"

lemma in_config_errors [simp]:
  "e \<in> config_errors \<longleftrightarrow> e \<in> {Bad_Json, Reparse_Failed, No_Stage2_Config, Invalid_Entry}
     \<or> (\<exists>m. e = Invalid_Payload m) \<or> (\<exists>m. e = Invalid_Manifest m)"
  by (auto simp: config_errors_def)

subsection \<open>What admission fails with\<close>

lemma config_http: "avoids config_errors (download_binary E url)"
proof -
  have client: "avoids config_errors (http_client E)" by (auto intro!: avoidsI simp: http_client_def split: if_splits)
  have send: "avoids config_errors (send E q)" for q
    by (auto intro!: avoidsI dest!: ok_or_Inl simp: send_def)
  have status: "avoids config_errors (lift (error_for_status r))" for r
    by (rule avoids_lift) (auto simp: error_for_status_def split: if_splits)
  have body: "avoids config_errors (lift (read_body r))" for r
    by (rule avoids_lift) (auto simp: read_body_def dest: ok_or_Inl split: option.splits)
  show ?thesis unfolding download_binary_def by (intro avoids_then_do' client send status body)
qed

lemma config_download_first: "avoids config_errors (download_first E us)"
  unfolding download_first_def by (rule dl.search_avoids) (simp_all add: config_http)

lemma config_signed_args: "avoids config_errors (fetch_signed_args E au asu pk h)"
  unfolding fetch_signed_args_def Let_def
  by (intro avoids_then_do' config_download_first avoids_map_err avoids_ok_or) simp_all

lemma config_admit_from: "avoids config_errors (admit_from E url mode)"
proof (cases mode)
  case (Admit_Sha256 pin)
  have "avoids config_errors (lift (verify_checksum E b pin))" for b
    by (rule avoids_lift) (auto simp: verify_checksum_def Let_def split: if_splits)
  then show ?thesis
    unfolding admit_from_def Let_def Admit_Sha256 admit.case by (intro avoids_intros config_http)
next
  case (Admit_Ed25519 pk su au asu)
  have args: "avoids config_errors (case au of None \<Rightarrow> ret (b, None)
      | Some a \<Rightarrow> then_do (fetch_signed_args E a asu pk h) (\<lambda>args. ret (b, Some args)))" for b h
    by (cases au) (auto intro!: avoids_intros config_signed_args)
  show ?thesis
    unfolding admit_from_def Let_def Admit_Ed25519 admit.case
    by (intro avoids_then_do' config_http config_download_first avoids_map_err args) simp
qed

lemma config_admit_payload: "avoids config_errors (admit_payload E us mode)"
  unfolding admit_payload_def by (rule adm.search_avoids) (simp_all add: config_admit_from)

lemma config_try_fetch_manifest: "avoids config_errors (try_fetch_manifest E m url)"
proof -
  have "avoids config_errors (lift (case m_sha256 m of
      Some pin \<Rightarrow> if \<not> eq_ignore_ascii_case pin h then Inl (Manifest_Pin_Mismatch pin h) else Inr ()
    | None \<Rightarrow> Inr ()))" for h
    by (rule avoids_lift) (auto split: option.splits if_splits)
  then show ?thesis
    unfolding try_fetch_manifest_def Let_def
    by (intro avoids_then_do' config_http config_download_first avoids_map_err avoids_ret) simp_all
qed

lemma config_fetch_manifest: "avoids config_errors (fetch_manifest E m)"
  unfolding fetch_manifest_def
  by (rule mf.search_avoids) (auto intro!: avoids_intros config_try_fetch_manifest simp: fetch_manifest_at_def)

subsection \<open>One pass over an entry that keeps the rules\<close>

lemma config_resolve_step:
  assumes "arch_value (arch_key E) doc = Some v" and "de_arch_config v = Some ac"
    and "entry_allowed (env_deps E) Stage1 ac"
  shows "avoids config_errors (resolve_step E raw doc [] )"
proof (cases "ac_entry ac")
  case (Payload_Entry p)
  with assms(3) have "admission (env_deps E) p Stage1 = Inr (mode_of p)"
    by (simp add: entry_allowed_def admission_Inr_iff)
  with assms(1,2) Payload_Entry show ?thesis
    by (auto simp: resolve_step_def payload_step_def Let_def ok_or_def map_err_def
        intro!: avoids_intros config_admit_payload split: prod.split)
next
  case (Manifest_Entry m)
  with assms(3) have "manifest_validate (env_deps E) m Stage1 = Inr ()"
    by (simp add: entry_allowed_def manifest_validate_Inr_iff)
  with assms(1,2) Manifest_Entry show ?thesis
    by (auto simp: resolve_step_def manifest_step_def map_err_def
        intro!: avoids_intros config_fetch_manifest split: prod.split)
qed

subsection \<open>The entry of an architecture, by either reader\<close>

lemma typed_arch_entry:
  assumes "de_user_data doc = Some ud" and "object_document doc" and "arch \<in> {''x86_64'', ''aarch64''}"
    and "arch_value arch doc = Some v" and "v \<noteq> JNull" and "stage_allowed D profile (ud_stage2 ud)"
  obtains ac where "de_arch_config v = Some ac" and "entry_allowed D profile ac"
proof -
  obtain s where s: "get doc ''_stage2'' = Some s" "get s arch = Some v"
    using assms(4) by (auto simp: arch_value_def split: option.splits)
  then obtain m sm where m: "doc = JObj m" "s = JObj sm" using get_Some_object by metis
  have "object_stage s" using assms(2) s(1) m(2) by (auto simp: object_document_def stages_def)
  then have ok: "bt_ok m" "bt_ok sm" using assms(2) m by (auto simp: object_document_def object_stage_def)
  have "opt_field de_stage_config (bt_get m ''_stage2'') = Some (ud_stage2 ud)"
    using assms(1) ok by (auto simp: de_user_data_def struct_fields_object m bind_eq_Some_conv)
  then have "de_stage_config s = ud_stage2 ud \<and> ud_stage2 ud \<noteq> None"
    using s(1) by (auto simp: m opt_field_def or_default_def de_option_def dest: sym[of "Some _"])
  then obtain sc where sc: "de_stage_config s = Some sc" "ud_stage2 ud = Some sc" by auto
  then have "opt_field de_arch_config (bt_get sm arch) = Some (if arch = ''x86_64'' then sc_x86_64 sc else sc_aarch64 sc)"
    using assms(3) ok by (auto simp: m de_stage_config_value bind_eq_Some_conv)
  then have "de_arch_config v = (if arch = ''x86_64'' then sc_x86_64 sc else sc_aarch64 sc) \<and> de_arch_config v \<noteq> None"
    using s(2) assms(5) by (auto simp: m opt_field_def or_default_def de_option_def)
  then obtain ac where ac: "de_arch_config v = Some ac" "(if arch = ''x86_64'' then sc_x86_64 sc else sc_aarch64 sc) = Some ac"
    by (metis not_None_eq)
  then have "entry_allowed D profile ac"
    using assms(6) sc(2) by (auto simp: stage_allowed_def split: if_splits)
  with ac(1) show thesis by (rule that)
qed

lemma validated_not_refused:
  assumes "validate H p fs = (Inr u, fs')" and "f_data fs (doc_path H p) = Some raw" and "env_deps E = h_deps H"
    and "json_typed (env_deps E) raw = Some doc" and "object_document doc"
    and "arch_value (arch_key E) doc = Some v" and "v \<noteq> JNull"
  shows "parse_json_to_config E raw = Inr raw" and "avoids config_errors (resolve_step E raw doc [])"
proof -
  obtain t ud where t: "string_from_utf8 raw = Some t" "user_data_from_slice (h_deps H) (str_bytes t) = Some ud"
    and allowed: "document_allowed (h_deps H) ud"
    using assms(1,2) by (auto simp: validate_def Let_def res_simps document_errors_Nil throw_def split: if_splits)
  have "str_bytes t = raw" using string_from_utf8_bytes[OF t(1)] by simp
  then have ud: "de_user_data doc = Some ud" using t(2) assms(3,4) by (simp add: user_data_from_slice_def)
  then show "parse_json_to_config E raw = Inr raw" using assms(4) by (simp add: parse_json_to_config_def)
  have "arch_key E \<in> {''x86_64'', ''aarch64''}" by (simp add: arch_key_def)
  then obtain ac where "de_arch_config v = Some ac" "entry_allowed (env_deps E) Stage1 ac"
    using typed_arch_entry[OF ud assms(5) _ assms(6,7)] allowed assms(3) unfolding document_allowed_def by metis
  with assms(6) show "avoids config_errors (resolve_step E raw doc [])" by (rule config_resolve_step)
qed

subsection \<open>Where they do not agree\<close>

text \<open>
  The typed reader takes a struct as an array of its fields too: with a stage written that way the
  document is valid for \<open>validate\<close> and for the first reading of \<open>stage1\<close>, which then finds no entry.
\<close>

lemma array_stage_is_not_found:
  "resolve_step E raw (JObj [(''_stage2'', JArr xs)]) [] w = (Inl No_Stage2_Config, w)"
  by (simp add: resolve_step_def arch_value_def)

lemma array_stage_is_typed:
  "de_user_data (JObj [(''_stage2'', JArr [JNull, ser_arch_config e])])
    = Some \<lparr>ud_stage1 = None, ud_stage2 = Some \<lparr>sc_aarch64 = None, sc_x86_64 = Some e\<rparr>\<rparr>"
  by (simp add: de_user_data_def struct_fields_def opt_field_def or_default_def de_option_def
      de_stage_config_def arch_config_wire.de_ser arch_config_wire.ser_not_null)

end
