(* ===== verification/Tools_Correct.thy ===== *)
theory Tools_Correct
  imports Demo_Host Cpio_Tar Deploy_Sequence Command_Lines Deploy_Validate
begin

section \<open>mkuki: what the image contains\<close>

text \<open>
  The properties of the tools: \<open>mkuki\<close> (the initramfs archive, the image, a run) and \<open>deploy\<close>
  (signing, \<open>create\<close>, \<open>validate\<close>, \<open>modify\<close>), each over the definitions of its component and with an
  application at the small host of \<open>Demo_Host\<close>.
\<close>

lemma pinned_doc_objects: "object_document pinned_doc"
  using pinned_doc_fine(1)
  by (auto simp: object_document_def object_stage_def object_entry_def stages_def pinned_doc_def demo_stage2_def split: if_splits)







text \<open>
  Reproducible: the archive does not depend on the order in which the file system lists the
  entries. Two walks with the same entries and no path met twice give the same bytes.
\<close>

theorem archive_is_deterministic:
  assumes "add_dir ws new_builder = Inr b" and "add_dir ws' new_builder = Inr b'"
    and "set (walked_entries ws) = set (walked_entries ws')"
    and "distinct (map e_name (walked_entries ws))" and "distinct (map e_name (walked_entries ws'))"
  shows "finish b = finish b'"
  using add_dir_order[OF assms] by simp

theorem archive_is_deterministic_witness:
  "\<exists>b b'. add_dir [Walked ''a'' (Some (0x41ED, Node_Dir)), Walked ''b'' (Some (0x81ED, Node_File (Some [1])))] new_builder = Inr b
    \<and> add_dir [Walked ''b'' (Some (0x81ED, Node_File (Some [1]))), Walked ''a'' (Some (0x41ED, Node_Dir))] new_builder = Inr b'
    \<and> finish b = finish b'"
proof -
  let ?ws = "[Walked ''a'' (Some (0x41ED, Node_Dir)), Walked ''b'' (Some (0x81ED, Node_File (Some [1])))]"
  let ?vs = "[Walked ''b'' (Some (0x81ED, Node_File (Some [1]))), Walked ''a'' (Some (0x41ED, Node_Dir))]"
  have "is_ok (add_dir ?ws new_builder)" "is_ok (add_dir ?vs new_builder)" by code_simp+
  then obtain b b' where "add_dir ?ws new_builder = Inr b" "add_dir ?vs new_builder = Inr b'"
    by (auto simp: is_ok_iff)
  moreover have "walked_entries ?ws = [entry_new ''a'' 0x41ED 2 [], entry_new ''b'' 0x81ED 1 [1]]"
    "walked_entries ?vs = [entry_new ''b'' 0x81ED 1 [1], entry_new ''a'' 0x41ED 2 []]" by code_simp+
  ultimately show ?thesis
    using archive_is_deterministic[of ?ws b ?vs b'] by (auto simp: entry_new_def)
qed

text \<open>
  C25. The image has its sections. On a sound stub, an image that is assembled parses as the stub did
  with the new sections counted, and each section (os-release, command line, release name, kernel,
  initramfs) is found through its own header: its name, its size, and its bytes, whole and aligned,
  after the end of the stub.
\<close>

theorem image_has_its_sections:
  assumes "assemble spec = Inr img" and "sound_stub (u_stub spec) pe k" and "spec_fits spec"
    and "j < length (uki_sections spec)"
  shows "parse_pe img = Inr (pe\<lparr>num_sections := num_sections pe + length (uki_sections spec)\<rparr>)
    \<and> has_section pe k (u_stub spec) img j (uki_sections spec ! j)"
  using assemble_sections[OF assms(1-3)] assms(4) by blast

theorem image_has_its_sections_witness:
  "\<exists>img. assemble demo_spec = Inr img
    \<and> has_section demo_pe 4 demo_stub img 2 \<lparr>s_name = ''.linux'', s_data = [1, 2, 3]\<rparr>"
proof -
  obtain img where img: "assemble demo_spec = Inr img" using demo_assembles by blast
  have sound: "sound_stub (u_stub demo_spec) demo_pe 4" using demo_stub_sound by (simp add: demo_spec_def)
  have fits: "spec_fits demo_spec" by (simp add: spec_fits_def demo_spec_def uki_sections_def)
  have secs: "2 < length (uki_sections demo_spec)"
    "uki_sections demo_spec ! 2 = \<lparr>s_name = ''.linux'', s_data = [1, 2, 3]\<rparr>" "u_stub demo_spec = demo_stub"
    by (simp_all add: demo_spec_def uki_sections_def)
  from image_has_its_sections[OF img sound fits secs(1)] img show ?thesis unfolding secs by blast
qed



text \<open>
  The stub is kept. Every byte of the stub outside the section count, the two fields of the
  optional header that are rewritten and the new section headers is in the image, at its place.
\<close>

theorem image_keeps_the_stub:
  assumes "assemble spec = Inr img" and "sound_stub (u_stub spec) pe k" and "spec_fits spec"
    and "i < length (u_stub spec)" and "kept pe (length (uki_sections spec)) i"
  shows "i < length img \<and> img ! i = u_stub spec ! i"
  using build_keeps_stub[OF _ assms(2) _ assms(4,5)] assms(1,3) by (simp add: assemble_def spec_fits_def)

theorem image_keeps_the_stub_witness:
  "\<exists>img. assemble demo_spec = Inr img \<and> img ! 0 = demo_stub ! 0"
proof -
  obtain img where img: "assemble demo_spec = Inr img" using demo_assembles by blast
  have sound: "sound_stub (u_stub demo_spec) demo_pe 4" using demo_stub_sound by (simp add: demo_spec_def)
  have fits: "spec_fits demo_spec" by (simp add: spec_fits_def demo_spec_def uki_sections_def)
  have stub: "u_stub demo_spec = demo_stub" by (simp add: demo_spec_def)
  have "kept demo_pe (length (uki_sections demo_spec)) 0" by (simp add: kept_def demo_pe_def)
  moreover have "0 < length (u_stub demo_spec)" by (simp add: stub demo_stub_length)
  ultimately show ?thesis using image_keeps_the_stub[OF img sound fits] img unfolding stub by blast
qed

text \<open>
  C28. How assembling ends. On a sound stub it gives an image, or it reports that the headers have no
  room, that there are too many sections or that the image exceeds 4 GiB; it never reads or writes out
  of range, and no section name is too long.
\<close>

theorem assemble_outcome:
  assumes "sound_stub (u_stub spec) pe k" and "spec_fits spec"
  shows "(\<exists>need room. room < need
      \<and> assemble spec = Inl (No_Header_Room (length (uki_sections spec)) need room))
    \<or> assemble spec = Inl Too_Many_Sections \<or> assemble spec = Inl Too_Large \<or> (\<exists>img. assemble spec = Inr img)"
proof -
  have "\<not> (\<exists>s \<in> set (uki_sections spec). 8 < length (s_name s))"
    by (auto simp: uki_sections_def split: option.splits)
  with build_outcome[OF assms(1), of "uki_sections spec"] assms(2) show ?thesis
    unfolding assemble_def spec_fits_def by blast
qed

theorem assemble_outcome_witness:
  "(\<exists>need room. room < need \<and> assemble demo_spec = Inl (No_Header_Room 4 need room))
    \<or> assemble demo_spec = Inl Too_Many_Sections \<or> assemble demo_spec = Inl Too_Large
    \<or> (\<exists>img. assemble demo_spec = Inr img)"
proof -
  have sound: "sound_stub (u_stub demo_spec) demo_pe 4" using demo_stub_sound by (simp add: demo_spec_def)
  have fits: "spec_fits demo_spec" by (simp add: spec_fits_def demo_spec_def uki_sections_def)
  have "length (uki_sections demo_spec) = 4" by (simp add: demo_spec_def uki_sections_def)
  with assemble_outcome[OF sound fits] show ?thesis by simp
qed

text \<open>
  C27. A run of \<open>mkuki\<close>. When it succeeds, the output file holds the image assembled from the stub, the
  kernel, the command line, the os-release text (given or generated from the digests) and the
  compressed archives of the layers, concatenated in order; with a key, the \<open>.sig\<close> file beside it is a
  signature of exactly that image that verifies in the UKI domain; no other file changes, and the
  digest printed is the image's.
\<close>

theorem mkuki_run_publishes_the_image:
  assumes "mkuki_main H a fs = (Inr u, fs')"
    and "b64_law (h_deps H)" and "ed_slice_law (h_deps H)" and "ed_sign_law (h_deps H)"
  shows "\<exists>layers fs1 gzs hashes kernel osrel stub img.
    resolve_layers H a fs = (Inr layers, fs1) \<and> list_all2 (\<lambda>l gz. build_layer H (l_source l) = Inr gz) layers gzs
    \<and> hashes = map2 (\<lambda>l gz. (l_label l, sha256_hex (h_deps H) gz)) layers gzs
    \<and> f_data fs (a_kernel a) = Some kernel \<and> f_data fs (a_stub a) = Some stub
    \<and> (case a_os_release a of Some p \<Rightarrow> f_data fs p = Some osrel
       | None \<Rightarrow> \<exists>t. generate_os_release (h_deps H) (a_id a) kernel (str_bytes (a_cmdline a)) hashes = Inr t
                  \<and> osrel = str_bytes t)
    \<and> assemble \<lparr>u_stub = stub, u_kernel = kernel, u_initrd = concat gzs, u_os_release = osrel,
         u_cmdline = str_bytes (a_cmdline a), u_uname = a_uname a\<rparr> = Inr img
    \<and> f_data fs' (a_out a) = Some img \<and> touches {a_out a, sig_path (a_out a)} fs fs'
    \<and> (a_sign_key a = None \<or> (\<exists>pem s. sign (h_deps H) pem Stage1Uki img = Inr s
         \<and> f_data fs' (sig_path (a_out a)) = Some (signature s)
         \<and> verify (h_deps H) (pubkey_b64 s) Stage1Uki img (signature s) = Inr ()))
    \<and> f_printed fs' = f_printed fs @ (newline @ ''sha256: '' @ sha256_hex (h_deps H) img)
        # map (\<lambda>(label, h). ''layer '' @ label @ '': '' @ h) hashes"
  using assms(1)
proof (rule mkuki_main_Inr, goal_cases)
  case (1 layers initrd kernel osrel stub img fs1)
  from 1(2) obtain gzs where gzs: "list_all2 (\<lambda>l gz. build_layer H (l_source l) = Inr gz) layers gzs"
    and data: "i_data initrd = concat gzs"
    and hashes: "i_layer_hashes initrd = map2 (\<lambda>l gz. (l_label l, sha256_hex (h_deps H) gz)) layers gzs"
    by (auto simp: build_initramfs_def build_layers_Inr_iff)
  have "a_sign_key a = None \<or> (\<exists>pem s. sign (h_deps H) pem Stage1Uki img = Inr s
      \<and> f_data fs' (sig_path (a_out a)) = Some (signature s)
      \<and> verify (h_deps H) (pubkey_b64 s) Stage1Uki img (signature s) = Inr ())"
    using 1(9) verify_signed[OF assms(2-4)] by blast
  with 1(1,3,4,5,6,7,8,11) gzs show ?case unfolding data hashes by blast
qed

theorem mkuki_run_publishes_the_image_witness:
  "\<exists>fs' img pk sig. mkuki_main demo_tool_host demo_mkuki demo_inputs = (Inr (), fs')
    \<and> f_data fs' ''img'' = Some img \<and> f_data fs' ''img.sig'' = Some sig
    \<and> verify host_deps pk Stage1Uki img sig = Inr ()"
proof -
  obtain fs' where run: "mkuki_main demo_tool_host demo_mkuki demo_inputs = (Inr (), fs')"
    using demo_mkuki_runs by blast
  have deps: "h_deps demo_tool_host = host_deps" by (simp add: demo_tool_host_def demo_host_def)
  have args: "a_out demo_mkuki = ''img''" "a_sign_key demo_mkuki \<noteq> None" "sig_path ''img'' = ''img.sig''"
    by (simp_all add: demo_mkuki_def sig_path_def)
  note laws = crate_lawsD(3,4,5)[OF host_laws]
  from mkuki_run_publishes_the_image[OF run, unfolded deps args, OF laws] show ?thesis
    by (elim exE conjE) (use args(2) run in blast)
qed

text \<open>
  The container is removed. Whatever the engine answers, exporting an image runs \<open>create\<close> first; if
  that gives no container id nothing else runs; otherwise \<open>export\<close> runs, and then, if it could be
  started at all, \<open>rm -f\<close> of the same container, also when the export failed.
\<close>

theorem exported_container_is_removed:
  "\<exists>cmds. f_commands (snd (docker_export H engine img fs)) = f_commands fs @ cmds
    \<and> exported H engine img (f_commands fs) cmds"
  using docker_export_commands[of H engine img fs] by (metis prod.collapse)

section \<open>deploy: keys, signatures and documents\<close>

text \<open>
  C35. A key that was generated signs. After \<open>keygen\<close>, \<open>sign\<close> with the private key file and a known
  domain name writes a signature that verifies, for that domain and the input file, under the public
  key that \<open>keygen\<close> put in the other file.
\<close>

theorem generated_key_signs:
  assumes "keygen H k fs = (Inr u, fs1)" and "k_pub k = Some p" and "p \<noteq> k_out k"
    and "sign_file H g fs1 = (Inr v, fs2)" and "g_key g = k_out k"
    and "g_out g \<noteq> p" and "g_out g \<noteq> g_input g"
    and "b64_law (h_deps H)" and "ed_slice_law (h_deps H)" and "ed_sign_law (h_deps H)"
  shows "\<exists>d pub b sig. domain_from_str (g_domain g) = Some d \<and> f_data fs2 p = Some (str_bytes pub)
    \<and> f_data fs2 (g_input g) = Some b \<and> f_data fs2 (g_out g) = Some sig
    \<and> verify (h_deps H) pub d b sig = Inr ()"
  using assms(1-3)
proof (rule keygen_Inr)
  fix seed
  assume seed: "length seed = 32" and fs1: "f_data fs1 = (f_data fs)
      (k_out k := Some (str_bytes (pem_from_seed (h_deps H) seed)),
       p := Some (str_bytes (pubkey_b64_from_seed (h_deps H) seed)))"
  show ?thesis using assms(4)
  proof (rule sign_file_Inr)
    fix d key pem b s
    assume d: "domain_from_str (g_domain g) = Some d" and key: "f_data fs1 (g_key g) = Some key"
      "string_from_utf8 key = Some pem" and b: "f_data fs1 (g_input g) = Some b"
      and s: "sign (h_deps H) pem d b = Inr s" and fs2: "f_data fs2 = (f_data fs1)(g_out g := Some (signature s))"
    have "str_bytes pem = str_bytes (pem_from_seed (h_deps H) seed)"
      using key fs1 assms(3,5) string_from_utf8_bytes[OF key(2)] by simp
    then have pem: "pem = pem_from_seed (h_deps H) seed" by simp
    have "pubkey_b64 s = pubkey_b64_from_seed (h_deps H) seed"
      using s seed_of_pem[OF assms(8) seed] by (auto simp: pem sign_def pubkey_b64_from_seed_def)
    moreover have "verify (h_deps H) (pubkey_b64 s) d b (signature s) = Inr ()"
      by (rule verify_signed[OF assms(8-10) s])
    ultimately show ?thesis using d b fs1 fs2 assms(6,7) by auto
  qed
qed

theorem generated_key_signs_witness:
  "\<exists>fs1 fs2 pub sig.
    keygen demo_host \<lparr>k_out = ''new.pem'', k_pub = Some ''new.pub''\<rparr> demo_files = (Inr (), fs1)
    \<and> sign_file demo_host \<lparr>g_domain = ''stage2.payload'', g_key = ''new.pem'', g_input = ''s2'', g_out = ''s2.sig''\<rparr> fs1 = (Inr (), fs2)
    \<and> f_data fs2 ''new.pub'' = Some (str_bytes pub) \<and> f_data fs2 ''s2.sig'' = Some sig
    \<and> (\<exists>d. verify host_deps pub d demo_binary sig = Inr ())"
proof -
  let ?k = "\<lparr>k_out = ''new.pem'', k_pub = Some ''new.pub''\<rparr>"
  let ?g = "\<lparr>g_domain = ''stage2.payload'', g_key = ''new.pem'', g_input = ''s2'', g_out = ''s2.sig''\<rparr>"
  have deps: "h_deps demo_host = host_deps" by (simp add: demo_host_def)
  have seed: "random_seed demo_host = Inr demo_seed"
    by (simp add: random_seed_def demo_host_def demo_seed_def)
  obtain fs1 where gen: "keygen demo_host ?k demo_files = (Inr (), fs1)"
    and f1: "f_data fs1 = (f_data demo_files)(''new.pem'' := Some (str_bytes demo_pem),
        ''new.pub'' := Some (str_bytes (pubkey_b64_from_seed host_deps demo_seed)))"
    by (simp add: keygen_def then_do_def seed write_private_def demo_host_simps write_bytes_def print_line_def
        demo_pem_def demo_files_def put_file_def Let_def)
  have domain: "domain_from_str ''stage2.payload'' = Some Stage2Payload" by code_simp
  have b: "f_data fs1 ''s2'' = Some demo_binary" by (simp add: f1 demo_files_def)
  have "sign_file demo_host ?g fs1 = (Inr (),
      snd (sign_file demo_host ?g fs1))"
    by (simp add: sign_file_def then_do_def domain read_to_string_def read_bytes_def demo_host_simps f1 demo_pem_utf8
        demo_files_def demo_sign write_bytes_def print_line_def)
  then obtain fs2 where signed: "sign_file demo_host ?g fs1 = (Inr (), fs2)" by blast
  from signed have "f_data fs2 ''s2'' = f_data fs1 ''s2''" by (auto elim!: sign_file_Inr)
  with b have b2: "f_data fs2 ''s2'' = Some demo_binary" by simp
  note laws = crate_lawsD(3,4,5)[OF host_laws]
  from generated_key_signs[OF gen _ _ signed, unfolded deps, OF _ _ _ _ _ laws] b2 gen signed
  show ?thesis by fastforce
qed

text \<open>
  C34. \<open>validate\<close>, exactly. It succeeds if and only if the document can be read as UTF-8, reads back as
  user-data, every entry keeps the admission rules of its stage (the http-only profile for
  \<open>_stage1\<close>) and there is at least one stage.
\<close>

theorem validate_accepts_exactly:
  "(\<exists>fs'. validate H p fs = (Inr (), fs')) \<longleftrightarrow>
     h_can_read H (doc_path H p)
     \<and> (\<exists>b t ud. f_data fs (doc_path H p) = Some b \<and> string_from_utf8 b = Some t
         \<and> user_data_from_slice (h_deps H) b = Some ud \<and> document_allowed (h_deps H) ud)"
proof
  assume "\<exists>fs'. validate H p fs = (Inr (), fs')"
  then obtain fs' where "validate H p fs = (Inr (), fs')" by blast
  then show "h_can_read H (doc_path H p)
     \<and> (\<exists>b t ud. f_data fs (doc_path H p) = Some b \<and> string_from_utf8 b = Some t
         \<and> user_data_from_slice (h_deps H) b = Some ud \<and> document_allowed (h_deps H) ud)"
    by (auto simp: validate_def Let_def res_simps document_errors_Nil[symmetric] throw_def
        dest: string_from_utf8_bytes split: if_splits)
next
  assume "h_can_read H (doc_path H p)
     \<and> (\<exists>b t ud. f_data fs (doc_path H p) = Some b \<and> string_from_utf8 b = Some t
         \<and> user_data_from_slice (h_deps H) b = Some ud \<and> document_allowed (h_deps H) ud)"
  then show "\<exists>fs'. validate H p fs = (Inr (), fs')" by (blast intro: validate_runs)
qed



text \<open>
  C19. What \<open>create\<close> writes is valid. If there was no user-data, or one that kept the rules, then after
  a successful \<open>create\<close> for one of the two architectures the file reads back as user-data whose every
  entry keeps the rules of its stage: \<open>validate\<close> accepts it.
\<close>

theorem created_document_is_valid:
  assumes "create H a fs = (Inr u, fs')" and "c_arch a \<in> {''x86_64'', ''aarch64''}" and "crate_laws (h_deps H)"
    and "\<And>doc. old_doc H a fs = Some doc \<Longrightarrow> printable doc \<and> sound_doc (h_deps H) doc"
    and "h_can_read H (ud_path a)" and "\<not> h_is_dir H (ud_path a)"
  shows "\<exists>fs''. validate H (ud_path a) fs' = (Inr (), fs'')"
proof -
  have path: "doc_path H (ud_path a) = ud_path a" using assms(6) by (simp add: doc_path_def)
  obtain raw ud t where "f_data fs' (ud_path a) = Some raw" "string_from_utf8 raw = Some t"
    "user_data_from_slice (h_deps H) raw = Some ud" "document_allowed (h_deps H) ud"
    using created_document_sound[OF assms(1-4)] by blast
  with assms(5) show ?thesis
    using validate_runs[of H "ud_path a" fs', unfolded path] by blast
qed

theorem created_document_is_valid_witness:
  "\<exists>fs' fs''. create demo_host demo_create demo_files = (Inr (), fs')
    \<and> validate demo_host ''out/user-data.json'' fs' = (Inr (), fs'')"
proof -
  obtain fs' where run: "create demo_host demo_create demo_files = (Inr (), fs')" using demo_create_runs by blast
  have laws: "crate_laws (h_deps demo_host)" using host_laws by (simp add: demo_host_simps)
  have "printable doc \<and> sound_doc (h_deps demo_host) doc" if "old_doc demo_host demo_create demo_files = Some doc" for doc
    using that sound_doc_empty by (auto simp: demo_old_doc printable_def)
  from created_document_is_valid[OF run _ laws this] run show ?thesis
    by (auto simp: demo_ud_path demo_host_simps demo_create_def[THEN arg_cong[where f = c_arch]] demo_host_def)
qed

text \<open>
  C20. \<open>create\<close> succeeds. It ends well, without an error, on any host whose files can be read and written, given
  bases that make admissible URLs, a key that can be parsed where one is named, input files that exist,
  arguments that parse, and a user-data file that is absent or a value in which the stages, where
  present, are objects.
\<close>

theorem create_succeeds:
  assumes "willing H" and "good_bases a" and "good_key H a fs" and "good_inputs H a fs" and "good_document H a fs"
    and "crate_laws (h_deps H)" and "plain_arch (c_arch a)"
  shows "\<exists>fs'. create H a fs = (Inr (), fs')"
  using assms by (rule create_runs)

theorem create_succeeds_witness: "\<exists>fs'. create demo_host demo_create demo_files = (Inr (), fs')"
  using create_succeeds[OF demo_create_good(1-5) _ demo_create_good(6)] host_laws by (simp add: demo_host_simps)

text \<open>
  C22. The first hop is verifiable. After \<open>create\<close>, the stage1 entry of the document keeps the rules of stage0
  and points at the published image: by its digest, or by a key under which the published signature of
  exactly that image verifies in the UKI domain; in manifest mode the pointer's key verifies, in the
  manifest domain, a published manifest that is the stage1 entry of this architecture and nothing else,
  and the image is pinned there.
\<close>

theorem published_stage1_verifies:
  assumes "create H a fs = (Inr u, fs')" and "plain_arch (c_arch a)" and "crate_laws (h_deps H)"
    and "\<And>doc. old_doc H a fs = Some doc \<Longrightarrow> printable doc"
  shows "\<exists>raw doc e p b. f_data fs' (ud_path a) = Some raw \<and> value_from_slice (h_deps H) raw = Some doc
    \<and> get_path doc [''_stage1'', c_arch a] = Some (ser_arch_config e) \<and> entry_allowed (h_deps H) Stage0 e
    \<and> p_url p = compose_urls (x_bases (create_ctx a)) (c_arch a) ''linux.efi''
    \<and> image_verified (h_deps H) (published a fs') p b \<and> (c_key a = None \<or> c_manifest a \<longrightarrow> p_sha256 p \<noteq> None)
    \<and> (if c_manifest a
       then \<exists>m. ac_entry e = Manifest_Entry m
         \<and> m_url m = compose_urls (x_bases (create_ctx a)) (c_arch a) ''linux.efi.manifest.json''
         \<and> manifest_names_image (h_deps H) (published a fs') (c_arch a) m p
       else ac_entry e = Payload_Entry p)"
  using assms by (rule create_stage1)

theorem published_stage1_verifies_witness:
  "\<exists>fs' b p. create demo_host demo_create demo_files = (Inr (), fs')
    \<and> image_verified host_deps (published demo_create fs') p b \<and> p_sha256 p \<noteq> None"
proof -
  obtain fs' where run: "create demo_host demo_create demo_files = (Inr (), fs')" using demo_create_runs by blast
  have old: "printable doc" if "old_doc demo_host demo_create demo_files = Some doc" for doc
    using that by (auto simp: demo_old_doc printable_def)
  have manifest: "c_manifest demo_create" by (simp add: demo_create_def)
  have laws: "crate_laws (h_deps demo_host)" using host_laws by (simp add: demo_host_simps)
  from published_stage1_verifies[OF run demo_plain(1) laws old] run manifest
  show ?thesis unfolding demo_host_simps by blast
qed

text \<open>
  C7. What is built is what is published. When \<open>mkuki\<close> has written an image and \<open>create\<close> is given it, the
  document's stage1 entry leads to exactly that image: it is the published file and it verifies there, and
  where the release pins a digest it is the one that \<open>mkuki\<close> printed.
\<close>

theorem built_image_is_published:
  assumes "mkuki_main H m fs = (Inr u, fs1)" and "create H a fs1 = (Inr v, fs2)" and "c_uki a = a_out m"
    and "plain_arch (c_arch a)" and "crate_laws (h_deps H)"
    and "\<And>doc. old_doc H a fs1 = Some doc \<Longrightarrow> printable doc"
  shows "\<exists>img raw doc e p. f_data fs1 (a_out m) = Some img
    \<and> newline @ ''sha256: '' @ sha256_hex (h_deps H) img \<in> set (f_printed fs1)
    \<and> f_data fs2 (ud_path a) = Some raw \<and> value_from_slice (h_deps H) raw = Some doc
    \<and> get_path doc [''_stage1'', c_arch a] = Some (ser_arch_config e)
    \<and> image_verified (h_deps H) (published a fs2) p img
    \<and> (c_key a = None \<or> c_manifest a \<longrightarrow> p_sha256 p = Some (sha256_hex (h_deps H) img))
    \<and> (if c_manifest a
       then \<exists>r. ac_entry e = Manifest_Entry r \<and> manifest_names_image (h_deps H) (published a fs2) (c_arch a) r p
       else ac_entry e = Payload_Entry p)"
  by (rule built_image_published[OF assms], assumption) (intro exI conjI, assumption+)

theorem built_image_is_published_witness:
  "\<exists>fs1 fs2 img p. mkuki_main demo_tool_host demo_mkuki demo_inputs = (Inr (), fs1)
    \<and> create demo_tool_host demo_built fs1 = (Inr (), fs2) \<and> f_data fs1 ''img'' = Some img
    \<and> image_verified host_deps (published demo_built fs2) p img"
proof -
  obtain fs1 where built: "mkuki_main demo_tool_host demo_mkuki demo_inputs = (Inr (), fs1)" using demo_mkuki_runs by blast
  obtain fs2 where run: "create demo_tool_host demo_built fs1 = (Inr (), fs2)" using demo_built_runs[OF built] by blast
  note facts = demo_built_facts
  have old: "printable doc" if "old_doc demo_tool_host demo_built fs1 = Some doc" for doc
    using that demo_built_fresh[OF built] by (auto simp: printable_def)
  have laws: "crate_laws (h_deps demo_tool_host)" using host_laws by (simp add: facts)
  from built_image_is_published[OF built run facts(1,2) laws old] built run
  show ?thesis unfolding facts(3,4) by blast
qed

text \<open>
  C32. A failed \<open>create\<close> leaves the deployment as it was: unless it is the write of \<open>user-data.json\<close>
  itself that fails, the document is not touched; only files of the architecture's directory may have
  been written.
\<close>

theorem failed_create_keeps_user_data:
  assumes "create H a fs = (Inl e, fs')" and "plain_arch (c_arch a)" and "e \<noteq> Write_Error (ud_path a)"
  shows "f_data fs' (ud_path a) = f_data fs (ud_path a) \<and> touches (arch_files a) fs fs'"
  using create_Inl[OF assms(1)] assms(3) ud_path_not_arch_file[OF assms(2)]
  by (auto simp: touches_def)

theorem failed_create_keeps_user_data_witness:
  "\<exists>e fs'. create demo_host (demo_create\<lparr>c_base_url := [''ftp://h'']\<rparr>) demo_files = (Inl e, fs')
    \<and> f_data fs' ''out/user-data.json'' = f_data demo_files ''out/user-data.json''"
proof -
  let ?a = "demo_create\<lparr>c_base_url := [''ftp://h'']\<rparr>"
  have "check_bases (x_bases (create_ctx ?a)) = Inl (Bad_Base_Url ''ftp://h'')" by code_simp
  then have run: "create demo_host ?a demo_files = (Inl (Bad_Base_Url ''ftp://h''), demo_files)"
    by (simp add: create_def prepare_def then_do_def Let_def)
  have plain: "plain_arch (c_arch ?a)" by (simp add: demo_create_def plain_arch_def)
  have path: "ud_path ?a = ''out/user-data.json''" by code_simp
  from failed_create_keeps_user_data[OF run plain] run path show ?thesis by auto
qed

text \<open>
  C10. A failed \<open>create\<close> can break the release. The document is kept, but the image and the payload are
  replaced before \<open>--args\<close> is parsed. After a release that pins the digest of its image, a \<open>create\<close> for the
  same directory and architecture with another image and arguments that do not parse reports an error and
  leaves \<open>user-data.json\<close> as it was, and no published image is one that the document admits any more.
\<close>

theorem failed_create_breaks_the_release:
  assumes "create H a fs = (Inr u, fs1)" and "plain_arch (c_arch a)" and "crate_laws (h_deps H)"
    and "\<And>doc. old_doc H a fs = Some doc \<Longrightarrow> printable doc" and "c_key a = None" and "\<not> c_manifest a"
    and "c_out a' = c_out a" and "c_arch a' = c_arch a" and "willing H"
    and "\<forall>b \<in> set (x_bases (create_ctx a')). starts_with b ''http://''"
    and "good_key H a' fs1" and "f_data fs1 (c_stage2 a') \<noteq> None"
    and "c_args a' \<noteq> None" and "given_args H a' = None"
    and "f_data fs1 (c_uki a') = Some new" and "f_data fs (c_uki a) = Some old"
    and "sha256_hex (h_deps H) new \<noteq> sha256_hex (h_deps H) old"
  shows "\<exists>fs2 raw doc e p. create H a' fs1 = (Inl Bad_Args, fs2)
    \<and> f_data fs1 (ud_path a) = Some raw \<and> f_data fs2 (ud_path a) = Some raw
    \<and> value_from_slice (h_deps H) raw = Some doc
    \<and> get_path doc [''_stage1'', c_arch a] = Some (ser_arch_config e) \<and> ac_entry e = Payload_Entry p
    \<and> image_verified (h_deps H) (published a fs1) p old
    \<and> (\<forall>b. \<not> image_verified (h_deps H) (published a fs2) p b)"
  by (rule failed_create_breaks[OF assms], assumption) (intro exI conjI allI, assumption+)

theorem failed_create_breaks_the_release_witness:
  "\<exists>fs1 fs2 p. create demo_host demo_pinned demo_files = (Inr (), fs1)
    \<and> create demo_host demo_again fs1 = (Inl Bad_Args, fs2)
    \<and> image_verified host_deps (published demo_pinned fs1) p [7]
    \<and> (\<forall>b. \<not> image_verified host_deps (published demo_pinned fs2) p b)"
proof -
  obtain fs1 where run: "create demo_host demo_pinned demo_files = (Inr (), fs1)" using demo_pinned_runs by blast
  note facts = demo_pinned_facts(5,6) demo_again_facts
  have key: "good_key demo_host demo_again fs1" by (simp add: good_key_def facts)
  have old: "printable doc" if "old_doc demo_host demo_pinned demo_files = Some doc" for doc
    using that by (auto simp: demo_pinned_facts(7) printable_def)
  have digests: "sha256_hex host_deps demo_binary \<noteq> sha256_hex host_deps [7]" by code_simp
  have uki: "f_data demo_files (c_uki demo_pinned) = Some [7]" by (simp add: facts demo_files_def)
  have s2: "f_data fs1 (c_uki demo_again) = Some demo_binary" "f_data fs1 (c_stage2 demo_again) \<noteq> None"
    using demo_pinned_keeps_inputs[OF run] by (simp_all add: facts)
  have bases: "\<forall>b \<in> set (x_bases (create_ctx demo_again)). starts_with b ''http://''"
    by (simp add: facts starts_with_def)
  have laws: "crate_laws (h_deps demo_host)" using host_laws by (simp add: demo_host_simps)
  from failed_create_breaks_the_release[OF run facts(2) laws old demo_pinned_facts(3,4) facts(4,5)
      demo_create_good(1) bases key s2(2) facts(11,12) s2(1) uki] digests run
  show ?thesis unfolding demo_host_simps by blast
qed



text \<open>
  C31. \<open>create\<close> adds to a document. The user-data after it holds the new entries under its architecture;
  every other architecture of either stage and every other key of the document is what it was; no
  file outside the architecture's directory and the document changes.
\<close>

theorem create_keeps_other_entries:
  assumes "create H a fs = (Inr u, fs')" and "plain_arch (c_arch a)" and "crate_laws (h_deps H)"
    and "\<And>doc. old_doc H a fs = Some doc \<Longrightarrow> printable doc"
  shows "\<exists>doc doc' e1 e2. old_doc H a fs = Some doc
    \<and> Option.bind (f_data fs' (ud_path a)) (value_from_slice (h_deps H)) = Some doc'
    \<and> get_path doc' [''_stage1'', c_arch a] = Some (ser_arch_config e1)
    \<and> get_path doc' [''_stage2'', c_arch a] = Some (ser_arch_config e2)
    \<and> (\<forall>k. k \<notin> stages \<longrightarrow> get doc' k = get doc k)
    \<and> (\<forall>st arch. st \<in> stages \<and> arch \<noteq> c_arch a \<longrightarrow> get_path doc' [st, arch] = get_path doc [st, arch])
    \<and> touches (insert (ud_path a) (arch_files a)) fs fs'"
  using assms(1-3)
proof (rule create_merges)
  fix doc doc' raw e1 e2
  assume doc: "old_doc H a fs = Some doc" "merge_doc (c_arch a) e1 e2 doc = Inr doc'"
    and raw: "f_data fs' (ud_path a) = Some raw" "value_from_slice (h_deps H) raw = Some doc'"
    and frame: "touches (insert (ud_path a) (arch_files a)) fs fs'"
  from raw have "Option.bind (f_data fs' (ud_path a)) (value_from_slice (h_deps H)) = Some doc'" by simp
  with doc(1) frame merge_doc_get[OF doc(2)] show ?thesis by blast
qed (use assms(4) in blast)

theorem create_keeps_other_entries_witness:
  "\<exists>fs' doc' e1. create demo_host demo_create demo_files = (Inr (), fs')
    \<and> Option.bind (f_data fs' ''out/user-data.json'') (value_from_slice host_deps) = Some doc'
    \<and> get_path doc' [''_stage1'', ''x86_64''] = Some (ser_arch_config e1)"
proof -
  obtain fs' where run: "create demo_host demo_create demo_files = (Inr (), fs')" using demo_create_runs by blast
  have laws: "crate_laws (h_deps demo_host)" using host_laws by (simp add: demo_host_simps)
  have old: "printable doc" if "old_doc demo_host demo_create demo_files = Some doc" for doc
    using that by (auto simp: demo_old_doc printable_def)
  have arch: "c_arch demo_create = ''x86_64''" "plain_arch (c_arch demo_create)"
    by (simp_all add: demo_create_def plain_arch_def)
  from create_keeps_other_entries[OF run arch(2) laws old, unfolded arch(1) demo_ud_path] run
  show ?thesis unfolding demo_host_simps by blast
qed

section \<open>deploy: moving a release between mirrors\<close>

text \<open>
  Rewriting URLs is editing the bases. On a list that \<open>create\<close> composed from bases that are a
  scheme and a host, removing and adding bases gives the list composed from the edited bases: the
  removed ones dropped, the added ones appended once, in order.
\<close>

theorem modify_edits_the_bases:
  assumes "\<forall>b \<in> set bases. host_base b" and "\<forall>r \<in> set rems. host_base r" and "bases \<noteq> []"
  shows "rewrite_urls adds rems (ser_url_list (compose_urls bases arch name))
    = Inr (ser_url_list (compose_urls (edit_bases adds rems bases) arch name))"
  using rewritten_urls_compose[OF assms]
  by (simp add: rewrite_urls_ser compose_urls_def)

theorem modify_edits_the_bases_witness:
  "rewrite_urls [''http://new'', ''http://b''] [''http://a'']
      (ser_url_list (compose_urls [''http://a'', ''http://b''] ''x86_64'' ''stage2''))
    = Inr (ser_url_list (compose_urls [''http://b'', ''http://new''] ''x86_64'' ''stage2''))"
proof -
  have hosts: "\<forall>b \<in> set [''http://a'', ''http://b'']. host_base b" "\<forall>r \<in> set [''http://a'']. host_base r"
    by (auto simp: host_base_def)
  have "edit_bases [''http://new'', ''http://b''] [''http://a''] [''http://a'', ''http://b''] = [''http://b'', ''http://new'']"
    by (simp add: edit_bases_def)
  with modify_edits_the_bases[OF hosts, of "[''http://new'', ''http://b'']" "''x86_64''" "''stage2''"]
  show ?thesis by simp
qed

text \<open>
  A base with a path is another matter. When the first URL of a list was composed from a base that
  has a path, an added base does not give the URL that \<open>create\<close> would compose from it: the path of the
  first base is put between the two.
\<close>

theorem added_mirror_inherits_path:
  assumes "CHR ''/'' \<notin> set h" and "b \<noteq> ''http://'' @ h"
  shows "rewrite_urls [b] [] (ser_url_list (compose_urls [''http://'' @ h @ ''/'' @ path] arch name))
      = Inr (ser_url_list (UrlList [compose_url arch name (''http://'' @ h @ ''/'' @ path),
          compose_url arch name (b @ ''/'' @ path)]))"
proof -
  let ?first = "compose_url arch name (''http://'' @ h @ ''/'' @ path)"
  have "url_path ?first = CHR ''/'' # (path @ ''/'' @ arch @ ''/'' @ name)"
    using url_path_host[OF assms(1), of "path @ ''/'' @ arch @ ''/'' @ name"] by (simp add: compose_url_def)
  moreover have "b @ CHR ''/'' # (path @ ''/'' @ arch @ ''/'' @ name) \<noteq> ?first"
  proof
    assume "b @ CHR ''/'' # (path @ ''/'' @ arch @ ''/'' @ name) = ?first"
    then have "b @ CHR ''/'' # (path @ ''/'' @ arch @ ''/'' @ name)
        = (''http://'' @ h) @ CHR ''/'' # (path @ ''/'' @ arch @ ''/'' @ name)"
      by (simp add: compose_url_def)
    with assms(2) show False by (simp only: append_same_eq) 
  qed
  ultimately show ?thesis
    by (simp add: rewrite_urls_ser compose_urls_def rewritten_urls_def under_base_def Let_def compose_url_def)
qed

theorem added_mirror_inherits_path_witness:
  "rewrite_urls [''http://mirror''] [] (ser_url_list (compose_urls [''http://cdn/releases''] ''x86_64'' ''stage2''))
    = Inr (ser_url_list (UrlList [''http://cdn/releases/x86_64/stage2'', ''http://mirror/releases/x86_64/stage2'']))"
  using added_mirror_inherits_path[of "''cdn''" "''http://mirror''" "''releases''" "''x86_64''" "''stage2''"]
  by (simp add: compose_url_def)

text \<open>
  C29. \<open>modify\<close> refines the edit of the typed document. When the document reads back and gives its structs
  as objects, the file written reads back as the same document with every list of mirrors edited
  (\<open>edit_user_data\<close>): the lists of each architecture's payload or manifest in both stages, nothing else.
\<close>

theorem modify_refines_edit:
  assumes "modify H a fs = (Inr u, fs')" and "json_law (h_deps H)"
    and "Option.bind (f_data fs (doc_path H (o_path a))) (value_from_slice (h_deps H)) = Some doc"
    and "de_user_data doc = Some ud" and "object_document doc" and "printable doc"
  shows "\<exists>raw. f_data fs' (doc_path H (o_path a)) = Some raw
    \<and> user_data_from_slice (h_deps H) raw
      = Some (edit_user_data (given_bases (o_add a)) (given_bases (o_remove a)) ud)"
  using assms(1)
proof (rule modify_Inr, fold given_bases_def)
  fix d d'
  assume "Option.bind (f_data fs (doc_path H (o_path a))) (value_from_slice (h_deps H)) = Some d"
    and "rewrite_doc (given_bases (o_add a)) (given_bases (o_remove a)) d = Inr d'"
    and out: "f_data fs' = (f_data fs)(doc_path H (o_path a) := Some (print_doc (h_deps H) d'))"
  with assms(3) have run: "rewrite_doc (given_bases (o_add a)) (given_bases (o_remove a)) doc = Inr d'" by simp
  have "wf_json doc" using assms(5) by (simp add: object_document_def)
  from print_doc_back(2)[OF assms(2)] rewrite_doc_fits[OF run this assms(6)]
  have "json_typed (h_deps H) (print_doc (h_deps H) d') = Some d'" by blast
  with rewrite_doc_reads[OF assms(5,4) run] out show ?thesis by (simp add: user_data_from_slice_def)
qed

theorem modify_refines_edit_witness:
  "\<exists>fs' raw ud. modify demo_host \<lparr>o_path = ''doc'', o_add = [''http://new/''], o_remove = [''http://down'']\<rparr> demo_published
      = (Inr (), fs')
    \<and> f_data fs' ''doc'' = Some raw \<and> user_data_from_slice host_deps raw = Some ud
    \<and> (case ud_stage2 ud of Some s \<Rightarrow>
        (case sc_x86_64 s of Some e \<Rightarrow>
          (case ac_entry e of Payload_Entry p \<Rightarrow> urls (p_url p) = [''http://h/p'', ''http://new/p''] | _ \<Rightarrow> False)
         | None \<Rightarrow> False) | None \<Rightarrow> False)"
proof -
  let ?a = "\<lparr>o_path = ''doc'', o_add = [''http://new/''], o_remove = [''http://down'']\<rparr>"
  obtain fs' where run: "modify demo_host ?a demo_published = (Inr (), fs')" using demo_modify_runs[of "[''http://down'']"] by auto
  have path: "doc_path demo_host (o_path ?a) = ''doc''" by (simp add: doc_path_def demo_host_def)
  have given: "given_bases (o_add ?a) = [''http://new'']" "given_bases (o_remove ?a) = [''http://down'']"
    by (simp_all add: given_bases_def trim_end_char_def)
  obtain ud where ud: "de_user_data pinned_doc = Some ud" and edited: "case ud_stage2 (edit_user_data [''http://new''] [''http://down''] ud) of
      Some s \<Rightarrow> (case sc_x86_64 s of Some e \<Rightarrow>
          (case ac_entry e of Payload_Entry p \<Rightarrow> urls (p_url p) = [''http://h/p'', ''http://new/p''] | _ \<Rightarrow> False)
         | None \<Rightarrow> False) | None \<Rightarrow> False"
  proof -
    have "case de_user_data pinned_doc of None \<Rightarrow> False | Some ud \<Rightarrow>
        (case ud_stage2 (edit_user_data [''http://new''] [''http://down''] ud) of
      Some s \<Rightarrow> (case sc_x86_64 s of Some e \<Rightarrow>
          (case ac_entry e of Payload_Entry p \<Rightarrow> urls (p_url p) = [''http://h/p'', ''http://new/p''] | _ \<Rightarrow> False)
         | None \<Rightarrow> False) | None \<Rightarrow> False)"
      by code_simp
    then show thesis using that by (auto split: option.splits)
  qed
  from modify_refines_edit[OF run _ _ ud pinned_doc_objects pinned_doc_fine(2), unfolded path given demo_host_simps]
    demo_published_reads crate_lawsD(6)[OF host_laws] run edited
  show ?thesis by blast
qed



end
