(* ===== verification/Departures.thy ===== *)
theory Departures
  imports Demo_Host
begin

section \<open>Where the code departs from its documents\<close>

text \<open>
  Behaviours of the tools, found while modelling, that a comment, a README or a plain reading would not
  suggest. Each is a small lemma about the definitions of the component, so that it goes when the code
  changes. The larger ones are properties of their own (mirrors kept by a signed manifest, a \<open>create\<close>
  that fails after it has written, the path that an added mirror inherits).
\<close>

subsection \<open>deploy\<close>

text \<open>\<open>modify\<close> may take the last mirror away: it writes a list that every admission rule refuses.\<close>

lemma last_mirror_is_removed:
  assumes "\<forall>u \<in> set us. under_base rems u"
  shows "rewrite_urls [] rems (ser_url_list (UrlList us)) = Inr (ser_url_list (UrlList []))"
    and "\<not> list_allowed profile (UrlList [])"
proof -
  have "filter (\<lambda>u. \<not> under_base rems u) us = []" using assms by (simp add: filter_empty_conv)
  then show "rewrite_urls [] rems (ser_url_list (UrlList us)) = Inr (ser_url_list (UrlList []))"
    by (cases us) (simp_all add: rewrite_urls_ser rewritten_urls_def)
  show "\<not> list_allowed profile (UrlList [])" by (simp add: list_allowed_def)
qed

text \<open>Elements of a list that are no strings are dropped without a word.\<close>

lemma other_elements_are_dropped:
  "rewrite_urls [] [] (JArr [JNull, JStr ''http://a/x'', JBool True, JStr ''http://b/x''])
    = Inr (JArr [JStr ''http://a/x'', JStr ''http://b/x''])"
  by code_simp

text \<open>A private key is written into a file that exists without changing who may read it.\<close>

lemma key_file_keeps_its_mode:
  assumes "keygen H a fs = (Inr u, fs')" and "k_pub a = Some p" and "p \<noteq> k_out a"
    and "f_data fs (k_out a) \<noteq> None"
  shows "f_mode fs' (k_out a) = f_mode fs (k_out a)
    \<and> (\<exists>seed. f_data fs' (k_out a) = Some (str_bytes (pem_from_seed (h_deps H) seed)))"
  using assms(1-3) by (rule keygen_Inr) (use assms(3,4) in auto)

subsection \<open>mkuki\<close>

text \<open>A stub that is cut off inside the optional header panics instead of being reported.\<close>

lemma truncated_stub_panics: "build (take 100 demo_stub) [] = Inl Panic"
proof -
  have "parse_pe (take 100 demo_stub) = Inl Panic" by code_simp
  then show ?thesis by (simp add: build_def)
qed

text \<open>Two sections at the end of the 32-bit address space: the second is placed at address 0.\<close>

lemma address_wraps:
  "case place_sections 16 4096 [\<lparr>s_name = ''.a'', s_data = [1]\<rparr>, \<lparr>s_name = ''.b'', s_data = [2]\<rparr>] [] 0xFFFFF000 of
     Inl e \<Rightarrow> False
   | Inr (out, vma, hs) \<Rightarrow> map (\<lambda>h. take 4 (drop 12 h)) hs = [le32 0xFFFFF000, le32 0]"
  by code_simp

text \<open>A file with the name of the trailer record hides itself and every file after it from a reader.\<close>

lemma hidden_entries:
  assumes "\<forall>e \<in> set es. entry_fits e" and "e_name h = ''TRAILER!!!''" and "length (e_data h) < 2 ^ 32"
  shows "read_archive (entries_bytes i (es @ h # hidden) @ rest) = Some (numbered i es)"
  using assms(1)
proof (induction es arbitrary: i)
  case Nil
  have "read_record (record_bytes (entry_fields h (of_nat i + 1)) (e_name h) (e_data h) @ entries_bytes (Suc i) hidden @ rest)
      = Some (\<lparr>r_fields = entry_fields h (of_nat i + 1), r_name = str_bytes (e_name h), r_data = e_data h\<rparr>,
          entries_bytes (Suc i) hidden @ rest)"
    by (rule read_record_bytes) (simp_all add: entry_fields_def unat_of_nat_u32[OF assms(3)] assms(2))
  then show ?case using assms(2) by (subst read_archive.simps) simp
next
  case (Cons e es)
  have "read_record (entries_bytes i ((e # es) @ h # hidden) @ rest)
      = Some (record_of e (of_nat i + 1), entries_bytes (Suc i) (es @ h # hidden) @ rest)"
    using read_entry[of e "of_nat i + 1" "entries_bytes (Suc i) (es @ h # hidden) @ rest"] Cons.prems by simp
  moreover have "r_name (record_of e (of_nat i + 1)) \<noteq> str_bytes ''TRAILER!!!''"
    using Cons.prems by (auto simp: record_of_def entry_fits_def)
  ultimately show ?case
    using Cons.IH[of "Suc i"] Cons.prems
    by (subst read_archive.simps) (simp add: length_record_pos)
qed

lemma trailer_name_hides_files:
  assumes "finish b = Inr out" and "map snd b = es @ h # hidden" and "\<forall>e \<in> set es. entry_fits e"
    and "e_name h = ''TRAILER!!!''" and "length (e_data h) < 2 ^ 32"
  shows "read_archive out = Some (numbered 0 es)"
proof -
  have "b \<noteq> []" using assms(2) by auto
  with assms(1,2) have "out = entries_bytes 0 (es @ h # hidden) @ trailer_bytes" by (simp add: finish_eq)
  with hidden_entries[OF assms(3-5)] show ?thesis by simp
qed

text \<open>\<open>normalize\<close> takes \<open>./\<close> off before \<open>/\<close>, once, and keeps separators inside.\<close>

lemma paths_stay_unclean:
  "normalize_path ''/./x'' = Some ''./x''" "normalize_path ''a//b'' = Some ''a//b''"
  by code_simp+

end
