(* ===== verification/Unit_Tests.thy ===== *)
theory Unit_Tests
  imports Demo_Host Deploy_Stage1
begin

section \<open>The unit tests of the repository, on the model\<close>

text \<open>
  The \<open>#[cfg(test)]\<close> modules of the crates as executable definitions, one per test function, with
  the model's functions in place of the code's. JSON text is given as the tree it denotes, in the order
  written; where a test compares printed text, the values are compared (so the order of keys is not).
  Left out are the two tests that pin bytes of SHA-256 and Ed25519, which are parameters here.
\<close>

subsection \<open>\<open>metadata\<close>\<close>

definition HASH64 :: string where
  "HASH64 = ''0123456789abcdef0123456789abcdef0123456789abcdef0123456789abcdef''"

definition test_pubkey :: "deps \<Rightarrow> string" where
  "test_pubkey D = b64_encode D (ed_public D (replicate 32 3))"

definition test_payload :: "string \<Rightarrow> string option \<Rightarrow> string option \<Rightarrow> payload" where
  "test_payload url sha256 ed25519 =
     \<lparr>p_url = UrlList [url], p_sha256 = sha256, p_ed25519 = ed25519, p_sig_url = None, p_args = None,
      p_args_url = None, p_args_sig_url = None\<rparr>"

fun is_sha256 :: "admit \<Rightarrow> bool" where
  "is_sha256 (Admit_Sha256 _) = True"
| "is_sha256 _ = False"

definition sha256_mode_ok :: "deps \<Rightarrow> bool" where
  "sha256_mode_ok D =
     (case admission D (test_payload ''http://h/p'' (Some HASH64) None) Stage1 of
        Inr a \<Rightarrow> is_sha256 a | Inl _ \<Rightarrow> False)"

definition https_allowed_on_stage1_only :: "deps \<Rightarrow> bool" where
  "https_allowed_on_stage1_only D =
     (is_ok (admission D (test_payload ''https://h/p'' (Some HASH64) None) Stage1)
      \<and> \<not> is_ok (admission D (test_payload ''https://h/p'' (Some HASH64) None) Stage0)
      \<and> is_ok (admission D (test_payload ''http://h/p'' (Some HASH64) None) Stage0))"

definition ed25519_mode_ok :: "deps \<Rightarrow> bool" where
  "ed25519_mode_ok D =
     (case admission D (test_payload ''http://h/p'' None (Some (test_pubkey D))) Stage1 of
        Inr a \<Rightarrow> \<not> is_sha256 a | Inl _ \<Rightarrow> False)"

definition both_modes_is_error :: "deps \<Rightarrow> bool" where
  "both_modes_is_error D =
     (\<not> is_ok (admission D (test_payload ''http://h/p'' (Some HASH64) (Some (test_pubkey D))) Stage1))"

definition neither_mode_is_error :: "deps \<Rightarrow> bool" where
  "neither_mode_is_error D = (\<not> is_ok (admission D (test_payload ''http://h/p'' None None) Stage1))"

definition bad_hex_is_error :: "deps \<Rightarrow> bool" where
  "bad_hex_is_error D =
     (\<not> is_ok (admission D (test_payload ''http://h/p'' (Some ''zz'') None) Stage1)
      \<and> \<not> is_ok (admission D (test_payload ''http://h/p'' (Some (replicate 64 CHR ''z'')) None) Stage1))"

definition bad_pubkey_is_error :: "deps \<Rightarrow> bool" where
  "bad_pubkey_is_error D =
     (\<not> is_ok (admission D (test_payload ''http://h/p'' None (Some ''not-base64!!'')) Stage1)
      \<and> \<not> is_ok (admission D (test_payload ''http://h/p'' None (Some ''AAAA'')) Stage1))"

definition non_http_url_is_error :: "deps \<Rightarrow> bool" where
  "non_http_url_is_error D = (\<not> is_ok (admission D (test_payload ''ftp://h/p'' (Some HASH64) None) Stage1))"

definition args_url_requires_ed25519 :: "deps \<Rightarrow> bool" where
  "args_url_requires_ed25519 D =
     (\<not> is_ok (admission D ((test_payload ''http://h/p'' (Some HASH64) None)
        \<lparr>p_args_url := Some (UrlList [''http://h/args''])\<rparr>) Stage1))"

definition args_sig_url_requires_args_url :: "deps \<Rightarrow> bool" where
  "args_sig_url_requires_args_url D =
     (\<not> is_ok (admission D ((test_payload ''http://h/p'' None (Some (test_pubkey D)))
        \<lparr>p_args_sig_url := Some (UrlList [''http://h/args.sig''])\<rparr>) Stage1))"

definition manifest_validate_ok_and_errors :: "deps \<Rightarrow> bool" where
  "manifest_validate_ok_and_errors D =
     (let m = \<lparr>m_url = UrlList [''http://h/m''], m_ed25519 = test_pubkey D, m_sig_url = None, m_sha256 = None\<rparr>
      in is_ok (manifest_validate D m Stage1)
       \<and> \<not> is_ok (manifest_validate D (m\<lparr>m_sha256 := Some ''nope''\<rparr>) Stage1)
       \<and> is_ok (manifest_validate D (m\<lparr>m_sha256 := Some HASH64\<rparr>) Stage1)
       \<and> \<not> is_ok (manifest_validate D (m\<lparr>m_sha256 := Some HASH64, m_ed25519 := ''AAAA''\<rparr>) Stage1))"

definition urllist_accepts_string_or_array :: bool where
  "urllist_accepts_string_or_array =
     (let one = JStr ''http://a/x''; many = JArr [JStr ''http://a/x'', JStr ''http://b/x'']
      in de_url_list one = Some (UrlList [''http://a/x''])
       \<and> de_url_list many = Some (UrlList [''http://a/x'', ''http://b/x''])
       \<and> map_option ser_url_list (de_url_list one) = Some one
       \<and> map_option ser_url_list (de_url_list many) = Some many)"

fun is_payload :: "entry \<Rightarrow> bool" where
  "is_payload (Payload_Entry _) = True"
| "is_payload (Manifest_Entry _) = False"

definition payload_tree :: "(string \<times> json) list \<Rightarrow> json" where
  "payload_tree siblings = JObj ((''payload'', JObj [(''url'', JStr ''http://h/p''), (''sha256'', JStr HASH64)]) # siblings)"

definition manifest_tree :: "deps \<Rightarrow> json" where
  "manifest_tree D = JObj [(''manifest'', JObj [(''url'', JStr ''http://h/m''), (''ed25519'', JStr (test_pubkey D))])]"

definition payload_entry_roundtrips :: bool where
  "payload_entry_roundtrips =
     (case de_arch_config (payload_tree []) of
        Some ac \<Rightarrow> is_payload (ac_entry ac) \<and> ac_resolved_manifests ac = []
          \<and> ser_arch_config ac = to_value (payload_tree [])
      | None \<Rightarrow> False)"

definition manifest_entry_roundtrips :: "deps \<Rightarrow> bool" where
  "manifest_entry_roundtrips D =
     (case de_arch_config (manifest_tree D) of
        Some ac \<Rightarrow> \<not> is_payload (ac_entry ac) \<and> ser_arch_config ac = to_value (manifest_tree D)
      | None \<Rightarrow> False)"

definition resolved_manifests_is_a_sibling_of_the_union :: "deps \<Rightarrow> bool" where
  "resolved_manifests_is_a_sibling_of_the_union D =
     (let json = payload_tree [(''resolved_manifests'', JArr [JObj [(''url'', JStr ''http://h/m''),
              (''ed25519'', JStr (test_pubkey D)), (''sha256'', JStr HASH64)]])]
      in case de_arch_config json of
           Some ac \<Rightarrow> is_payload (ac_entry ac) \<and> length (ac_resolved_manifests ac) = 1
             \<and> m_sha256 (ac_resolved_manifests ac ! 0) = Some HASH64 \<and> ser_arch_config ac = to_value json
         | None \<Rightarrow> False)"

definition arch_validate_dispatches_on_variant :: "deps \<Rightarrow> bool" where
  "arch_validate_dispatches_on_variant D =
     (let valid = (\<lambda>j. case de_arch_config j of Some ac \<Rightarrow> is_ok (arch_validate D ac Stage1) | None \<Rightarrow> False)
      in valid (payload_tree []) \<and> valid (manifest_tree D))"

definition metadata_tests :: "deps \<Rightarrow> bool" where
  "metadata_tests D \<longleftrightarrow>
     sha256_mode_ok D \<and> https_allowed_on_stage1_only D \<and> ed25519_mode_ok D \<and> both_modes_is_error D
     \<and> neither_mode_is_error D \<and> bad_hex_is_error D \<and> bad_pubkey_is_error D \<and> non_http_url_is_error D
     \<and> args_url_requires_ed25519 D \<and> args_sig_url_requires_args_url D \<and> manifest_validate_ok_and_errors D
     \<and> urllist_accepts_string_or_array \<and> payload_entry_roundtrips \<and> manifest_entry_roundtrips D
     \<and> resolved_manifests_is_a_sibling_of_the_union D \<and> arch_validate_dispatches_on_variant D"

text \<open>The first key decodes to 32 bytes; the two strings that are no keys do not.\<close>

definition key_facts :: "deps \<Rightarrow> bool" where
  "key_facts D \<longleftrightarrow> b64_law D \<and> ed_sign_law D \<and> b64_decode D ''not-base64!!'' = None
     \<and> (\<forall>b. b64_decode D ''AAAA'' = Some b \<longrightarrow> length b = 3)"

lemma test_pubkey_ok: "key_facts D \<Longrightarrow> ok_pubkey D (test_pubkey D) = Inr ()"
  by (simp add: key_facts_def ok_pubkey_def test_pubkey_def b64_trim b64_decode_encode ed_sign_law_def)

lemma bad_keys:
  assumes "key_facts D"
  shows "\<not> is_ok (ok_pubkey D ''not-base64!!'')" "\<not> is_ok (ok_pubkey D ''AAAA'')"
proof -
  have "str_trim ''not-base64!!'' = ''not-base64!!''" "str_trim ''AAAA'' = ''AAAA''"
    by (rule str_trim_graphic; simp add: is_ascii_graphic_def)+
  with assms show "\<not> is_ok (ok_pubkey D ''not-base64!!'')" "\<not> is_ok (ok_pubkey D ''AAAA'')"
    by (auto simp: key_facts_def ok_pubkey_def split: option.split)
qed

lemma hash64_ok: "ok_sha256 HASH64"
  by (simp add: ok_sha256_def HASH64_def is_ascii_hexdigit_def)

lemma bad_hashes: "\<not> ok_sha256 ''zz''" "\<not> ok_sha256 ''nope''" "\<not> ok_sha256 (replicate 64 CHR ''z'')"
  by code_simp+

lemma test_lists:
  "ok_list (UrlList [''http://h/p'']) b" "ok_list (UrlList [''https://h/p'']) True"
  "\<not> ok_list (UrlList [''https://h/p'']) False" "\<not> ok_list (UrlList [''ftp://h/p'']) b"
  "ok_list (UrlList [''http://h/args'']) b" "ok_list (UrlList [''http://h/args.sig'']) b"
  "ok_list (UrlList [''http://h/m'']) b"
  by (simp_all add: ok_list_def ok_url_def starts_with_def is_ascii_graphic_def)

lemmas reader_simps = de_arch_config_def struct_fields_def de_entry_def is_variant_def de_manifest_ref_def
  manifest_names_def de_payload_def payload_names_def required_def opt_field_def or_default_def de_option_def
  de_url_list_def de_list_def

lemmas writer_simps = ser_arch_config_def ser_manifest_ref_def ser_payload_def ser_manifest_refs_def ser_url_list_def
  member_def opt_member_def btree_of_def less_char_def

lemma metadata_tests_pass: "key_facts D \<Longrightarrow> metadata_tests D"
proof -
  assume keys: "key_facts D"
  note facts = test_payload_def admission_def Let_def bad_list_def test_lists hash64_ok test_pubkey_ok[OF keys]
    bad_keys[OF keys] bad_hashes manifest_validate_def
  show ?thesis
    unfolding metadata_tests_def
  proof (intro conjI)
    show "sha256_mode_ok D" by (simp add: sha256_mode_ok_def facts)
    show "https_allowed_on_stage1_only D" by (simp add: https_allowed_on_stage1_only_def facts)
    show "ed25519_mode_ok D" by (simp add: ed25519_mode_ok_def facts)
    show "both_modes_is_error D" by (simp add: both_modes_is_error_def facts)
    show "neither_mode_is_error D" by (simp add: neither_mode_is_error_def facts)
    show "bad_hex_is_error D" by (simp add: bad_hex_is_error_def facts)
    show "bad_pubkey_is_error D"
      using bad_keys[OF keys] by (auto simp: bad_pubkey_is_error_def facts is_ok_iff and_then_Inr_iff)
    show "non_http_url_is_error D" by (simp add: non_http_url_is_error_def facts)
    show "args_url_requires_ed25519 D" by (simp add: args_url_requires_ed25519_def facts)
    show "args_sig_url_requires_args_url D" by (simp add: args_sig_url_requires_args_url_def facts)
    show "manifest_validate_ok_and_errors D" by (simp add: manifest_validate_ok_and_errors_def facts)
    show "urllist_accepts_string_or_array" by code_simp
    show "payload_entry_roundtrips" by code_simp
    show "manifest_entry_roundtrips D"
      by (simp add: manifest_entry_roundtrips_def manifest_tree_def reader_simps writer_simps)
    show "resolved_manifests_is_a_sibling_of_the_union D"
      by (simp add: resolved_manifests_is_a_sibling_of_the_union_def payload_tree_def reader_simps writer_simps)
    have "de_arch_config (payload_tree []) = Some \<lparr>ac_entry = Payload_Entry (test_payload ''http://h/p'' (Some HASH64) None),
        ac_resolved_manifests = []\<rparr>"
      by code_simp
    moreover have "de_arch_config (manifest_tree D) = Some \<lparr>ac_entry = Manifest_Entry \<lparr>m_url = UrlList [''http://h/m''],
        m_ed25519 = test_pubkey D, m_sig_url = None, m_sha256 = None\<rparr>, ac_resolved_manifests = []\<rparr>"
      by (simp add: manifest_tree_def reader_simps)
    ultimately show "arch_validate_dispatches_on_variant D"
      by (simp add: arch_validate_dispatches_on_variant_def arch_validate_def facts)
  qed
qed

subsection \<open>\<open>stage1\<close>\<close>

text \<open>The \<open>json!\<close> macro builds a value: keys as a \<open>BTreeMap\<close> keeps them.\<close>

definition uki_tree :: json where
  "uki_tree = JObj [(''x86_64'', JObj [(''payload'', JObj [(''url'', JStr ''http://h/uki''), (''sha256'', JStr ''aa'')])])]"

definition stage2_tree :: json where
  "stage2_tree = JObj [(''x86_64'', JObj [(''payload'', JObj [(''url'', JStr ''http://h/stage2''), (''sha256'', JStr ''bb''),
     (''args'', JArr [JStr ''--x''])])])]"

definition blah_tree :: json where
  "blah_tree = JObj [(''z'', JNum (PosInt 2))]"

definition manifest_deep_merges_at_top_level :: bool where
  "manifest_deep_merges_at_top_level =
     (let doc = to_value (JObj [(''_stage1'', uki_tree), (''_stage2'', JObj [(''x86_64'', JObj [])])]);
          manifest = to_value (JObj [(''_stage2'', stage2_tree), (''blah'', blah_tree)])
      in deep_merge doc manifest
         = to_value (JObj [(''_stage1'', uki_tree), (''_stage2'', stage2_tree), (''blah'', blah_tree)]))"

definition args_tree :: "string \<Rightarrow> json" where
  "args_tree who = JObj [(''x86_64'', JObj [(''payload'', JObj [(''args'', JArr [JStr who])])])]"

definition manifest_wins_on_conflict :: bool where
  "manifest_wins_on_conflict =
     (deep_merge (to_value (JObj [(''_stage2'', args_tree ''operator''), (''keep'', JNum (PosInt 1))]))
        (to_value (JObj [(''_stage2'', args_tree ''release'')]))
      = to_value (JObj [(''_stage2'', args_tree ''release''), (''keep'', JNum (PosInt 1))]))"

definition forged_doc :: json where
  "forged_doc = JObj [(''_stage2'', JObj [(''x86_64'', JObj [
     (''payload'', JObj [(''url'', JStr ''http://h/p''), (''sha256'', JStr ''bb'')]),
     (''resolved_manifests'', JArr [JObj [(''url'', JStr ''http://evil''), (''ed25519'', JStr ''FORGED'')]])])])]"

definition resolved_manifests_are_verifier_authoritative :: bool where
  "resolved_manifests_are_verifier_authoritative =
     (let history = [\<lparr>m_url = UrlList [''http://h/m''], m_ed25519 = ''REALKEY'', m_sig_url = None, m_sha256 = Some ''cc''\<rparr>]
      in case set_resolved_manifests (to_value forged_doc) ''x86_64'' history of
           None \<Rightarrow> False
         | Some doc \<Rightarrow>
             (case get_path doc [''_stage2'', ''x86_64'', ''resolved_manifests''] of
                Some (JArr [r]) \<Rightarrow> get r ''ed25519'' = Some (JStr ''REALKEY'') \<and> get r ''url'' = Some (JStr ''http://h/m'')
                  \<and> get r ''sha256'' = Some (JStr ''cc'')
              | _ \<Rightarrow> False))"

definition stage1_tests :: bool where
  "stage1_tests \<longleftrightarrow> manifest_deep_merges_at_top_level \<and> manifest_wins_on_conflict
     \<and> resolved_manifests_are_verifier_authoritative"

lemma stage1_tests_pass: stage1_tests
proof -
  have manifest_deep_merges_at_top_level by code_simp
  moreover have manifest_wins_on_conflict by code_simp
  moreover have resolved_manifests_are_verifier_authoritative by code_simp
  ultimately show ?thesis by (simp only: stage1_tests_def simp_thms)
qed

subsection \<open>\<open>deploy\<close>\<close>

definition compose_and_url_path :: bool where
  "compose_and_url_path =
     (urls (compose_urls [''http://a'', ''http://b''] ''x86_64'' ''linux.efi'')
        = [''http://a/x86_64/linux.efi'', ''http://b/x86_64/linux.efi'']
      \<and> url_path ''http://cdn/x86_64/linux.efi'' = ''/x86_64/linux.efi'' \<and> url_path ''https://h:8000/p/q'' = ''/p/q'')"

definition rewrite_urls_add_then_remove :: bool where
  "rewrite_urls_add_then_remove =
     (case rewrite_urls [''http://cdn2''] [] (JStr ''http://cdn1/x86_64/stage2'') of
        Inl _ \<Rightarrow> False
      | Inr v \<Rightarrow> v = JArr [JStr ''http://cdn1/x86_64/stage2'', JStr ''http://cdn2/x86_64/stage2'']
          \<and> rewrite_urls [] [''http://cdn1''] v = Inr (JStr ''http://cdn2/x86_64/stage2''))"

text \<open>The two tests that run commands: a directory, its input files, the command, the file read back.\<close>

definition stage_payload :: "stage_config option \<Rightarrow> payload option" where
  "stage_payload s =
     (case s of None \<Rightarrow> None | Some c \<Rightarrow>
        (case sc_x86_64 c of None \<Rightarrow> None | Some e \<Rightarrow>
           (case ac_entry e of Payload_Entry p \<Rightarrow> Some p | Manifest_Entry m \<Rightarrow> None)))"

definition stage_manifest :: "stage_config option \<Rightarrow> manifest_ref option" where
  "stage_manifest s =
     (case s of None \<Rightarrow> None | Some c \<Rightarrow>
        (case sc_x86_64 c of None \<Rightarrow> None | Some e \<Rightarrow>
           (case ac_entry e of Payload_Entry p \<Rightarrow> None | Manifest_Entry m \<Rightarrow> Some m)))"

definition created_user_data :: "host \<Rightarrow> create_args \<Rightarrow> user_data tool" where
  "created_user_data H a =
     then_do (create H a) (\<lambda>_.
     then_do (validate H (c_out a)) (\<lambda>_.
     then_do (read_to_string H (path_join (c_out a) ''user-data.json'')) (\<lambda>text.
     lift (ok_or (Not_Json (c_out a)) (user_data_from_slice (h_deps H) (str_bytes text))))))"

definition create_sha256_roundtrips_through_validate :: "host \<Rightarrow> string \<Rightarrow> files \<Rightarrow> bool" where
  "create_sha256_roundtrips_through_validate H dir fs =
     (case (then_do (create_dir_all H dir) (\<lambda>_.
            then_do (write_bytes H (path_join dir ''uki.bin'') (str_bytes ''fake uki'')) (\<lambda>_.
            then_do (write_bytes H (path_join dir ''s2.bin'') (str_bytes ''fake stage2'')) (\<lambda>_.
            created_user_data H
              \<lparr>c_arch = ''x86_64'', c_uki = path_join dir ''uki.bin'', c_stage2 = path_join dir ''s2.bin'', c_key = None,
               c_base_url = [''http://cdn1'', ''http://cdn2''], c_args = None, c_sign_args = False, c_manifest = False,
               c_out = path_join dir ''out''\<rparr>)))) fs of
        (Inl _, _) \<Rightarrow> False
      | (Inr ud, _) \<Rightarrow>
          (case (stage_payload (ud_stage2 ud), stage_payload (ud_stage1 ud)) of
             (Some s2p, Some ukip) \<Rightarrow> length (urls (p_url s2p)) = 2 \<and> p_sha256 ukip \<noteq> None
           | _ \<Rightarrow> False))"

definition test_pem :: "deps \<Rightarrow> string" where
  "test_pem D = pem_from_seed D (replicate 32 7)"

definition create_manifest_emits_verifiable_fragment :: "host \<Rightarrow> string \<Rightarrow> files \<Rightarrow> bool" where
  "create_manifest_emits_verifiable_fragment H dir fs =
     (let out = path_join dir ''out'' in
      case (then_do (create_dir_all H dir) (\<lambda>_.
            then_do (write_bytes H (path_join dir ''uki.bin'') (str_bytes ''fake uki'')) (\<lambda>_.
            then_do (write_bytes H (path_join dir ''s2.bin'') (str_bytes ''fake stage2'')) (\<lambda>_.
            then_do (write_bytes H (path_join dir ''key.pem'') (str_bytes (test_pem (h_deps H)))) (\<lambda>_.
            then_do (created_user_data H
              \<lparr>c_arch = ''x86_64'', c_uki = path_join dir ''uki.bin'', c_stage2 = path_join dir ''s2.bin'',
               c_key = Some (path_join dir ''key.pem''), c_base_url = [''http://cdn1''],
               c_args = Some ''[\"--serve\",\"0.0.0.0:8080\"]'', c_sign_args = False, c_manifest = True, c_out = out\<rparr>) (\<lambda>ud.
            then_do (read_bytes H (path_join out ''x86_64/stage2.manifest.json'')) (\<lambda>mbytes.
            then_do (read_bytes H (path_join out ''x86_64/stage2.manifest.json.sig'')) (\<lambda>sig.
            ret (ud, mbytes, sig))))))))) fs of
        (Inl _, _) \<Rightarrow> False
      | (Inr (ud, mbytes, sig), _) \<Rightarrow>
          (case (stage_manifest (ud_stage2 ud), user_data_from_slice (h_deps H) mbytes) of
             (Some mref, Some frag) \<Rightarrow>
               is_ok (verify (h_deps H) (m_ed25519 mref) Stage2Manifest mbytes sig)
               \<and> (case stage_payload (ud_stage2 frag) of
                    Some p \<Rightarrow> p_sha256 p \<noteq> None \<and> p_args p = Some [''--serve'', ''0.0.0.0:8080'']
                  | None \<Rightarrow> False)
           | _ \<Rightarrow> False))"

subsection \<open>\<open>ed25519-sign\<close>\<close>

definition sign_then_verify_roundtrip :: "deps \<Rightarrow> bool" where
  "sign_then_verify_roundtrip D =
     (let msg = str_bytes ''payload bytes'' in
      case sign D (pem_from_seed D (replicate 32 7)) Stage2Payload msg of
        Inl _ \<Rightarrow> False
      | Inr s \<Rightarrow>
          is_ok (verify D (pubkey_b64 s) Stage2Payload msg (signature s))
          \<and> \<not> is_ok (verify D (pubkey_b64 s) Stage2Payload (str_bytes ''tampered!!!!!'') (signature s))
          \<and> \<not> is_ok (verify D (pubkey_b64 s) Stage2Payload msg ((signature s)[0 := (signature s ! 0) XOR 1]))
          \<and> \<not> is_ok (verify D ''not-base64!!'' Stage2Payload msg (signature s)))"

definition domain_separation_rejects_cross_use :: "deps \<Rightarrow> bool" where
  "domain_separation_rejects_cross_use D =
     (let msg = str_bytes ''identical bytes'' in
      case sign D (pem_from_seed D (replicate 32 7)) Stage2Manifest msg of
        Inl _ \<Rightarrow> False
      | Inr s \<Rightarrow>
          is_ok (verify D (pubkey_b64 s) Stage2Manifest msg (signature s))
          \<and> \<not> is_ok (verify D (pubkey_b64 s) Stage1Manifest msg (signature s))
          \<and> \<not> is_ok (verify D (pubkey_b64 s) Stage2Payload msg (signature s)))"

definition sign_tests :: "deps \<Rightarrow> bool" where
  "sign_tests D \<longleftrightarrow> sign_then_verify_roundtrip D \<and> domain_separation_rejects_cross_use D"

lemma sign_tests_pass: "sign_tests (demo_deps [])"
proof -
  have "sign_then_verify_roundtrip (demo_deps [])" by code_simp
  moreover have "domain_separation_rejects_cross_use (demo_deps [])" by code_simp
  ultimately show ?thesis by (simp only: sign_tests_def simp_thms)
qed

subsection \<open>The two runs of \<open>deploy\<close>\<close>

text \<open>
  They pass on any willing host on which the directory is fresh, \<open>out\<close> is a directory once it was
  made, and the crates keep their laws and parse the test's arguments.
\<close>

definition fresh_directory :: "host \<Rightarrow> files \<Rightarrow> bool" where
  "fresh_directory H fs \<longleftrightarrow> f_data fs ''t/out/user-data.json'' = None \<and> \<not> h_is_dir H ''t/out/user-data.json''
     \<and> h_is_dir H ''t/out''"

definition test_create :: "string option \<Rightarrow> string list \<Rightarrow> string option \<Rightarrow> bool \<Rightarrow> create_args" where
  "test_create key bases args manifest =
     \<lparr>c_arch = ''x86_64'', c_uki = ''t/uki.bin'', c_stage2 = ''t/s2.bin'', c_key = key, c_base_url = bases,
      c_args = args, c_sign_args = False, c_manifest = manifest, c_out = ''t/out''\<rparr>"

lemma test_ctx:
  "create_ctx (test_create key bases args manifest)
     = \<lparr>x_dir = ''t/out/x86_64'', x_arch = ''x86_64'', x_bases = map (trim_end_char CHR ''/'') bases\<rparr>"
  "ud_path (test_create key bases args manifest) = ''t/out/user-data.json''"
  by (simp_all add: create_ctx_def ud_path_def test_create_def path_join_def)

lemma test_bases:
  assumes "bases \<in> {[''http://cdn1''], [''http://cdn1'', ''http://cdn2'']}"
  shows "map (trim_end_char CHR ''/'') bases = bases" and "good_bases (test_create key bases args manifest)"
proof -
  have texts: "graphic ''x86_64''" "graphic ''http://cdn1''" "graphic ''http://cdn2''"
    "starts_with ''http://cdn1'' ''http://''" "starts_with ''http://cdn2'' ''http://''"
    by (simp_all add: graphic_def starts_with_def)
  show same: "map (trim_end_char CHR ''/'') bases = bases" using assms by (auto simp: trim_end_char_def)
  show "good_bases (test_create key bases args manifest)"
    using assms texts by (auto simp: good_bases_def test_ctx same) (simp_all add: test_create_def texts)
qed

text \<open>A document with the rules of its stages validates and reads back, from a text file.\<close>

lemma sound_document_reads:
  assumes "willing H" and "crate_laws (h_deps H)" and "wf_json doc" and "printable doc" and "de_user_data doc = Some ud"
    and "document_allowed (h_deps H) ud" and "doc_path H out = path" and "path = path_join out ''user-data.json''"
    and "f_data fs path = Some (print_doc (h_deps H) doc)"
  obtains fs' where "f_data fs' = f_data fs"
    and "then_do (validate H out) (\<lambda>_. then_do (read_to_string H (path_join out ''user-data.json'')) (\<lambda>text.
      lift (ok_or (Not_Json out) (user_data_from_slice (h_deps H) (str_bytes text))))) fs = (Inr ud, fs')"
proof -
  let ?raw = "print_doc (h_deps H) doc"
  note reread = print_doc_back[OF crate_lawsD(6)[OF assms(2)] assms(3,4)]
  obtain s where s: "string_from_utf8 ?raw = Some s" "str_bytes s = ?raw"
    using reread(3) string_from_utf8_bytes by blast
  have typed: "user_data_from_slice (h_deps H) ?raw = Some ud"
    using reread(2) assms(5) by (simp add: user_data_from_slice_def)
  obtain fs' where valid: "validate H out fs = (Inr (), fs')" and same: "f_data fs' = f_data fs"
    using validate_runs[of H out fs ?raw s ud] assms(1,6-9) s(1) typed
    by (auto simp: willing_def print_line_def)
  have "read_to_string H path fs' = (Inr s, fs')"
    using assms(1,9) s(1) same by (intro read_text_runs) (simp_all add: text_file_def)
  then show thesis
    using typed s(2) same valid assms(8) by (intro that[of fs']) (simp_all add: then_do_def)
qed

text \<open>What the document holds after such a run.\<close>

lemma test_create_document:
  assumes "willing H" and "crate_laws (h_deps H)" and "fresh_directory H fs"
    and "bases \<in> {[''http://cdn1''], [''http://cdn1'', ''http://cdn2'']}"
    and "a = test_create key bases args manifest" and "good_key H a fs" and "good_inputs H a fs"
  obtains fs' e1 e2 b where "created_user_data H a fs
      = (Inr \<lparr>ud_stage1 = Some \<lparr>sc_aarch64 = None, sc_x86_64 = Some e1\<rparr>,
              ud_stage2 = Some \<lparr>sc_aarch64 = None, sc_x86_64 = Some e2\<rparr>\<rparr>, fs')"
    and "entry_hosted (h_deps H) (published a fs') bases ''x86_64'' e2 b (given_args H a)"
    and "\<not> manifest \<Longrightarrow> \<exists>p. ac_entry e2 = Payload_Entry p"
    and "manifest \<Longrightarrow> \<exists>m. ac_entry e2 = Manifest_Entry m"
    and "\<not> manifest \<Longrightarrow> key = None \<Longrightarrow> \<exists>p. ac_entry e1 = Payload_Entry p \<and> p_sha256 p \<noteq> None"
proof -
  have arch: "c_arch a = ''x86_64''" "plain_arch (c_arch a)" "c_out a = ''t/out''" "c_manifest a = manifest" "c_key a = key"
    by (simp_all add: assms(5) test_create_def plain_arch_def)
  have ud: "ud_path a = ''t/out/user-data.json''" by (simp add: assms(5) test_ctx)
  have bases: "x_bases (create_ctx a) = bases" by (simp add: assms(5) test_ctx test_bases(1)[OF assms(4)])
  have old: "old_doc H a fs = Some (JObj [])"
    using assms(3) by (simp add: old_doc_def path_exists_def ud fresh_directory_def)
  have "good_document H a fs"
    using assms(3) old by (simp add: good_document_def path_exists_def ud fresh_directory_def mergeable_def)
  then obtain fs1 where run: "create H a fs = (Inr (), fs1)"
    using create_runs[OF assms(1) _ assms(6,7) _ assms(2) arch(2)] test_bases(2)[OF assms(4)] assms(5) by blast
  have sound: "printable doc \<and> sound_doc (h_deps H) doc" if "old_doc H a fs = Some doc" for doc
  proof -
    have "doc = JObj []" using that old by simp
    then show ?thesis using sound_doc_empty by (simp add: printable_def)
  qed
  then have printable: "printable doc" if "old_doc H a fs = Some doc" for doc using that by blast
  obtain e1 e2 doc' b where merged: "merge_doc ''x86_64'' e1 e2 (JObj []) = Inr doc'"
    and raw: "f_data fs1 (ud_path a) = Some (print_doc (h_deps H) doc')"
    and hosted: "entry_hosted (h_deps H) (published a fs1) bases ''x86_64'' e2 b (given_args H a)"
    and variant: "\<not> manifest \<Longrightarrow> \<exists>p. ac_entry e2 = Payload_Entry p" "manifest \<Longrightarrow> \<exists>m. ac_entry e2 = Manifest_Entry m"
    using run arch(2) by (rule create_Inr) (use old arch bases in auto)
  have doc': "doc' = fresh_document ''x86_64'' e1 e2" using merged by (simp only: merge_fresh)
  have fine: "wf_json doc'" "printable doc'"
    using merge_doc_wf[OF merged] merge_doc_printable[OF merged] by (simp_all add: printable_def)
  note reread = print_doc_back[OF crate_lawsD(6)[OF assms(2)] fine]
  let ?ud = "\<lparr>ud_stage1 = Some \<lparr>sc_aarch64 = None, sc_x86_64 = Some e1\<rparr>, ud_stage2 = Some \<lparr>sc_aarch64 = None, sc_x86_64 = Some e2\<rparr>\<rparr>"
  have typed: "de_user_data doc' = Some ?ud" by (simp add: doc' fresh_document_typed)
  then have allowed: "document_allowed (h_deps H) ?ud"
    using created_document_sound[OF run _ assms(2) sound] arch(1) raw reread(2) by (auto simp: user_data_from_slice_def)
  have path: "doc_path H ''t/out'' = ud_path a" "ud_path a = path_join ''t/out'' ''user-data.json''"
    using assms(3) by (simp_all add: doc_path_def fresh_directory_def path_join_def ud)
  obtain fs2 where "f_data fs2 = f_data fs1" and "created_user_data H a fs = (Inr ?ud, fs2)"
    using sound_document_reads[OF assms(1,2) fine typed allowed path raw]
    unfolding created_user_data_def arch(3) by (auto simp: then_do_def run)
  moreover have "published a fs2 = published a fs1" using \<open>f_data fs2 = f_data fs1\<close> by (simp add: published_def fun_eq_iff)
  moreover have "\<exists>p. ac_entry e1 = Payload_Entry p \<and> p_sha256 p \<noteq> None" if pinned: "\<not> manifest" "key = None"
  proof -
    obtain e p where "get_path doc' [''_stage1'', ''x86_64''] = Some (ser_arch_config e)"
      "p_sha256 p \<noteq> None" "ac_entry e = Payload_Entry p"
      using create_stage1[OF run arch(2) assms(2) printable] pinned raw reread(1) arch by auto
    moreover have "get_path doc' [''_stage1'', ''x86_64''] = Some (ser_arch_config e1)"
      by (simp add: doc' fresh_document_def)
    ultimately show ?thesis by (auto simp: arch_config_wire.ser_inject)
  qed
  ultimately show thesis using hosted variant by (intro that[of e1 e2 fs2 b]) simp_all
qed

lemma sha256_run_passes:
  assumes "willing H" and "crate_laws (h_deps H)" and "fresh_directory H fs"
  shows "create_sha256_roundtrips_through_validate H ''t'' fs"
proof -
  let ?a = "test_create None [''http://cdn1'', ''http://cdn2''] None False"
  let ?fs = "put_file ''t/s2.bin'' (str_bytes ''fake stage2'') (put_file ''t/uki.bin'' (str_bytes ''fake uki'') fs)"
  have paths: "path_join ''t'' ''uki.bin'' = ''t/uki.bin''" "path_join ''t'' ''s2.bin'' = ''t/s2.bin''"
    "path_join ''t'' ''out'' = ''t/out''"
    by (simp_all add: path_join_def)
  have fresh: "fresh_directory H ?fs" using assms(3) by (simp add: fresh_directory_def)
  have key: "good_key H ?a ?fs" by (simp add: good_key_def test_create_def)
  have inputs: "good_inputs H ?a ?fs" by (simp add: good_inputs_def test_create_def)
  obtain fs' e1 e2 b where run: "created_user_data H ?a ?fs
      = (Inr \<lparr>ud_stage1 = Some \<lparr>sc_aarch64 = None, sc_x86_64 = Some e1\<rparr>,
              ud_stage2 = Some \<lparr>sc_aarch64 = None, sc_x86_64 = Some e2\<rparr>\<rparr>, fs')"
    and hosted: "entry_hosted (h_deps H) (published ?a fs') [''http://cdn1'', ''http://cdn2''] ''x86_64'' e2 b (given_args H ?a)"
    and direct: "\<exists>p. ac_entry e2 = Payload_Entry p" "\<exists>p. ac_entry e1 = Payload_Entry p \<and> p_sha256 p \<noteq> None"
    by (rule test_create_document[OF assms(1,2) fresh _ refl key inputs]) auto
  from hosted direct(1) obtain p where p: "ac_entry e2 = Payload_Entry p" "length (urls (p_url p)) = 2"
    by (auto simp: entry_hosted_def payload_hosted_def compose_urls_def)
  have dir: "create_dir_all H ''t'' = ret ()" using assms(1) by (simp add: create_dir_all_def willing_def)
  show ?thesis
    using run direct(2) p
    by (auto simp: create_sha256_roundtrips_through_validate_def paths dir then_do_def write_runs[OF assms(1)]
        stage_payload_def test_create_def)
qed

lemma test_pem_text:
  assumes "crate_laws D"
  shows "string_from_utf8 (str_bytes (test_pem D)) = Some (test_pem D)" and "signable D (test_pem D)"
proof -
  have "\<forall>c \<in> set (b64_encode D (pkcs8_prefix @ replicate 32 7)). (of_char c :: nat) < 128"
    using b64_encode_chars(1)[OF crate_lawsD(3)[OF assms]] by (fastforce simp: is_ascii_graphic_def)
  then show "string_from_utf8 (str_bytes (test_pem D)) = Some (test_pem D)"
    by (intro string_from_utf8_ascii) (auto simp: test_pem_def pem_from_seed_def)
  show "signable D (test_pem D)"
    using seed_of_pem[OF crate_lawsD(3)[OF assms], of "replicate 32 7"] by (simp add: signable_def test_pem_def)
qed

text \<open>The arguments of the second test, as \<open>serde_json\<close> parses them.\<close>

definition serve_args :: string where
  "serve_args = ''[\"--serve\",\"0.0.0.0:8080\"]''"

lemma manifest_run_passes:
  assumes "willing H" and "crate_laws (h_deps H)" and "fresh_directory H fs"
    and "strings_from_slice (h_deps H) (str_bytes serve_args) = Some [''--serve'', ''0.0.0.0:8080'']"
  shows "create_manifest_emits_verifiable_fragment H ''t'' fs"
proof -
  let ?D = "h_deps H"
  let ?a = "test_create (Some ''t/key.pem'') [''http://cdn1''] (Some serve_args) True"
  let ?pem = "test_pem ?D"
  let ?fs = "put_file ''t/key.pem'' (str_bytes ?pem) (put_file ''t/s2.bin'' (str_bytes ''fake stage2'')
    (put_file ''t/uki.bin'' (str_bytes ''fake uki'') fs))"
  have paths: "path_join ''t'' ''uki.bin'' = ''t/uki.bin''" "path_join ''t'' ''s2.bin'' = ''t/s2.bin''"
    "path_join ''t'' ''key.pem'' = ''t/key.pem''" "path_join ''t'' ''out'' = ''t/out''"
    "path_join ''t/out'' ''x86_64/stage2.manifest.json'' = ''t/out/x86_64/stage2.manifest.json''"
    "path_join ''t/out'' ''x86_64/stage2.manifest.json.sig'' = ''t/out/x86_64/stage2.manifest.json.sig''"
    by (simp_all add: path_join_def)
  have fresh: "fresh_directory H ?fs" using assms(3) by (simp add: fresh_directory_def)
  have key: "good_key H ?a ?fs"
    using test_pem_text[OF assms(2)] by (auto simp: good_key_def test_create_def text_file_def)
  have given: "given_args H ?a = Some [''--serve'', ''0.0.0.0:8080'']"
    using assms(4) by (simp add: given_args_def test_create_def)
  have inputs: "good_inputs H ?a ?fs" using given by (simp add: good_inputs_def) (simp add: test_create_def)
  obtain fs' e1 e2 b where run: "created_user_data H ?a ?fs
      = (Inr \<lparr>ud_stage1 = Some \<lparr>sc_aarch64 = None, sc_x86_64 = Some e1\<rparr>,
              ud_stage2 = Some \<lparr>sc_aarch64 = None, sc_x86_64 = Some e2\<rparr>\<rparr>, fs')"
    and hosted: "entry_hosted ?D (published ?a fs') [''http://cdn1''] ''x86_64'' e2 b (given_args H ?a)"
    and pointer: "\<exists>m. ac_entry e2 = Manifest_Entry m"
    by (rule test_create_document[OF assms(1,2) fresh _ refl key inputs]) auto
  from hosted pointer obtain m p where m: "ac_entry e2 = Manifest_Entry m"
    and mh: "manifest_hosted ?D (published ?a fs') [''http://cdn1''] ''x86_64'' p m"
    and p: "p_sha256 p \<noteq> None" "p_args p = Some [''--serve'', ''0.0.0.0:8080'']"
    by (auto simp: entry_hosted_def payload_hosted_def given)
  let ?b = "json_pretty ?D (manifest_fragment ''_stage2'' ''x86_64'' p)"
  obtain pem s where signed: "sign ?D pem Stage2Manifest ?b = Inr s" "m_ed25519 m = pubkey_b64 s"
    and files: "f_data fs' ''t/out/x86_64/stage2.manifest.json'' = Some ?b"
      "f_data fs' ''t/out/x86_64/stage2.manifest.json.sig'' = Some (signature s)"
    using mh unfolding manifest_hosted_def Let_def published_def test_ctx by (auto simp: path_join_def)
  have good: "verify ?D (m_ed25519 m) Stage2Manifest ?b (signature s) = Inr ()"
    using verify_signed[OF crate_lawsD(3,4,5)[OF assms(2)] signed(1)] signed(2) by simp
  have "prints_back ?D (manifest_fragment ''_stage2'' ''x86_64'' p)"
    using wf_fragment by (rule json_lawD[OF crate_lawsD(6)[OF assms(2)]])
  then have frag: "user_data_from_slice ?D ?b = Some \<lparr>ud_stage1 = None,
      ud_stage2 = Some \<lparr>sc_aarch64 = None, sc_x86_64 = Some (direct_entry p)\<rparr>\<rparr>"
    using arch_config_wire.de_ser[of "direct_entry p"]
    by (simp add: prints_back_def user_data_from_slice_def manifest_fragment_def de_user_data_def struct_fields_def
        opt_field_def or_default_def de_option_def de_stage_config_def ser_direct)
  have dir: "create_dir_all H ''t'' = ret ()" using assms(1) by (simp add: create_dir_all_def willing_def)
  show ?thesis
    using run m p good
    by (auto simp: create_manifest_emits_verifiable_fragment_def paths dir then_do_def write_runs[OF assms(1)]
        stage_payload_def stage_manifest_def test_create_def serve_args_def Let_def frag direct_entry_def
        read_runs[OF assms(1) files(1)] read_runs[OF assms(1) files(2)])
qed

subsection \<open>A host for the runs\<close>

text \<open>The host of the demonstration, with a JSON reader that knows the arguments of the second run.\<close>

definition test_deps :: deps where
  "test_deps = host_deps\<lparr>json_typed := (\<lambda>b. if b = str_bytes serve_args
     then Some (JArr [JStr ''--serve'', JStr ''0.0.0.0:8080'']) else read_json b)\<rparr>"

definition test_host :: host where
  "test_host = demo_host\<lparr>h_deps := test_deps, h_is_dir := (\<lambda>p. p = ''t/out'')\<rparr>"

definition no_files :: files where
  "no_files = \<lparr>f_data = Map.empty, f_mode = Map.empty, f_commands = [], f_printed = []\<rparr>"

lemma no_print_is_text: "print_json v @ t \<noteq> str_bytes serve_args"
proof
  assume "print_json v @ t = str_bytes serve_args"
  then have "hd (print_json v @ t) = hd (str_bytes serve_args)" by (rule arg_cong)
  moreover have "hd (str_bytes serve_args) = 0x5B" by code_simp
  moreover have "\<exists>n ns. enc v = n # ns \<and> n < 30"
  proof (cases v)
    case (JNum k)
    then show ?thesis by (cases k) simp_all
  qed simp_all
  ultimately obtain n where "(of_nat n :: byte) = 0x5B" "n < 30" by (auto simp: print_json_def)
  then have "unat (of_nat n :: byte) = 91" by simp
  with \<open>n < 30\<close> show False by (simp add: unat_of_nat)
qed

lemma test_host_facts:
  "willing test_host" "crate_laws (h_deps test_host)" "fresh_directory test_host no_files" "key_facts (h_deps test_host)"
  "strings_from_slice (h_deps test_host) (str_bytes serve_args) = Some [''--serve'', ''0.0.0.0:8080'']"
proof -
  have deps: "h_deps test_host = test_deps" by (simp add: test_host_def)
  show "willing test_host" using demo_create_good(1) by (simp add: willing_def test_host_def)
  show "fresh_directory test_host no_files" by (simp add: fresh_directory_def test_host_def no_files_def)
  show laws: "crate_laws (h_deps test_host)"
    using host_laws no_print_is_text[of _ "[]"] no_print_is_text[of _ "[0x0A]"]
    by (simp add: deps test_deps_def crate_laws_def sha256_law_def hex_law_def b64_law_def ed_slice_law_def
        ed_sign_law_def json_law_def prints_back_def) (simp add: host_deps_def read_print)
  have "b64_decode test_deps = unhex" by (simp add: test_deps_def host_deps_def demo_deps_def)
  moreover have "unhex ''not-base64!!'' = None" "unhex ''AAAA'' = None" by code_simp+
  ultimately show "key_facts (h_deps test_host)"
    using crate_lawsD(3,5)[OF laws] by (simp add: key_facts_def deps)
  show "strings_from_slice (h_deps test_host) (str_bytes serve_args) = Some [''--serve'', ''0.0.0.0:8080'']"
    by (simp add: strings_from_slice_def deps test_deps_def de_list_def)
qed

definition deploy_tests :: "host \<Rightarrow> files \<Rightarrow> bool" where
  "deploy_tests H fs \<longleftrightarrow> compose_and_url_path \<and> rewrite_urls_add_then_remove
     \<and> create_sha256_roundtrips_through_validate H ''t'' fs \<and> create_manifest_emits_verifiable_fragment H ''t'' fs"

lemma url_tests_pass: "compose_and_url_path" "rewrite_urls_add_then_remove"
  by code_simp+

text \<open>
  C40. The repository's unit tests pass, whatever crates keep their laws and wherever the host
  cooperates: those of the admission rules and the wire format, of the manifest merge, of the URL
  editing, and the two that run \<open>create\<close> and \<open>validate\<close> in a fresh directory.
\<close>

theorem unit_tests_pass:
  assumes "crate_laws (h_deps H)" and "key_facts (h_deps H)" and "willing H" and "fresh_directory H fs"
    and "strings_from_slice (h_deps H) (str_bytes serve_args) = Some [''--serve'', ''0.0.0.0:8080'']"
  shows "metadata_tests (h_deps H) \<and> stage1_tests \<and> deploy_tests H fs"
  using metadata_tests_pass[OF assms(2)] stage1_tests_pass url_tests_pass sha256_run_passes[OF assms(3,1,4)]
    manifest_run_passes[OF assms(3,1,4,5)]
  by (simp add: deploy_tests_def)

theorem unit_tests_pass_witness:
  "metadata_tests test_deps \<and> stage1_tests \<and> deploy_tests test_host no_files"
  using unit_tests_pass[OF test_host_facts(2,4,1,3,5)] by (simp add: test_host_def)

end
