(* ===== verification/Example_Stage2.thy ===== *)
theory Example_Stage2
  imports Stage1_Boot
begin

section \<open>example-stage2: the sample payload\<close>

text \<open>
  \<open>crates/example-stage2/src/main.rs\<close>: a payload that shows what it was started with and powers the
  machine off. Its effects are the lines on the two output streams, the pause and the calls that end
  it; its inputs are what \<open>stage1\<close> hands over in \<open>execveat\<close>: the arguments, standard input, the file
  \<open>/tmp/stage1.attest\<close> and the process number, which an \<open>exec\<close> keeps.
\<close>

datatype effect =
    Out string | Err string       \<comment> \<open>a line on standard output, on standard error\<close>
  | Slept nat | Synced | Power_Off_Call
  | Exited nat
  | Panicked

text \<open>Reading a stream or a file gives bytes, or the text of an error of the operating system.\<close>

record process =
  q_argv :: "bytes list"
  q_stdin :: "string + bytes"
  q_file :: "string \<Rightarrow> string + bytes"
  q_pid :: nat

text \<open>\<open>read_to_string\<close>: the whole input as UTF-8, or an error.\<close>

definition read_text :: "string + bytes \<Rightarrow> string + string" where
  "read_text r = and_then r (\<lambda>b. ok_or ''stream did not contain valid UTF-8'' (string_from_utf8 b))"

definition shown :: "string \<Rightarrow> string + string \<Rightarrow> effect" where
  "shown what r = (case r of Inr s \<Rightarrow> Out s | Inl e \<Rightarrow> Err (''Error reading '' @ what @ '': '' @ e))"

definition arg_line :: "nat \<times> string \<Rightarrow> effect" where
  "arg_line ia = (case ia of (i, a) \<Rightarrow> Out (''arg['' @ decimal i @ '']: '' @ a))"

definition example_poweroff :: "process \<Rightarrow> effect list" where
  "example_poweroff q = (if q_pid q = 1 then [Synced, Power_Off_Call] else [Exited 1])"

text \<open>\<open>env::args()\<close> panics on an argument that is not Unicode.\<close>

definition example_main :: "process \<Rightarrow> effect list" where
  "example_main q =
     (case those (map string_from_utf8 (q_argv q)) of
        None \<Rightarrow> [Panicked]
      | Some args \<Rightarrow>
          [Out ''=== Arguments ===''] @ map arg_line (List.enumerate 0 args) @ [Out []]
          @ [Out ''=== config (stdin) ==='', shown ''config from stdin'' (read_text (q_stdin q)), Out []]
          @ [Out ''=== /tmp/stage1.attest ==='',
             shown ''/tmp/stage1.attest'' (read_text (q_file q ''/tmp/stage1.attest'')), Out []]
          @ [Out ''=== Task complete, waiting 60 seconds for console log capture ==='', Slept 60,
             Out ''=== Powering off ===''] @ example_poweroff q)"

subsection \<open>The process that \<open>stage1\<close> becomes\<close>

text \<open>
  The last content written to a path, or what the disk held before; and the process that a run whose
  last event is an execution turns into.
\<close>

fun written_file :: "trace \<Rightarrow> string \<Rightarrow> string option" where
  "written_file [] path = None"
| "written_file (e # es) path =
     (case written_file es path of
        Some s \<Rightarrow> Some s
      | None \<Rightarrow> (case e of Ev_Write_File p s \<Rightarrow> if p = path then Some s else None | _ \<Rightarrow> None))"

definition started_process :: "env \<Rightarrow> (string \<Rightarrow> string + bytes) \<Rightarrow> world \<Rightarrow> process option" where
  "started_process E disk w =
     (case rev (w_trace w) of
        Ev_Exec img argv input # _ \<Rightarrow>
          Some \<lparr>q_argv = map str_bytes argv, q_stdin = Inr input,
                q_file = (\<lambda>p. case written_file (w_trace w) p of Some s \<Rightarrow> Inr (str_bytes s) | None \<Rightarrow> disk p),
                q_pid = env_pid E\<rparr>
      | _ \<Rightarrow> None)"

text \<open>A Rust string is UTF-8.\<close>

definition rust_string :: "string \<Rightarrow> bool" where
  "rust_string s \<longleftrightarrow> string_from_utf8 (str_bytes s) = Some s"

lemma those_rust_strings: "\<forall>s \<in> set ss. rust_string s \<Longrightarrow> those (map string_from_utf8 (map str_bytes ss)) = Some ss"
  by (induction ss) (simp_all add: rust_string_def)

lemma written_file_append:
  "written_file (es @ fs) path = (case written_file fs path of Some s \<Rightarrow> Some s | None \<Rightarrow> written_file es path)"
  by (induction es) (auto split: option.splits)

lemma written_file_requests: "written_file (map Ev_Request rs) path = None"
  by (induction rs) simp_all

text \<open>A boot of this payload, from the entry of \<open>stage1\<close> to the end of the machine.\<close>

lemma example_after_boot:
  assumes "main E start = Some w'" and "Ev_Exec img argv input \<in> set (w_trace w')"
    and "\<forall>a \<in> set argv. rust_string a" and "string_from_utf8 input = Some config"
  shows "\<exists>q report. started_process E disk w' = Some q
    \<and> (env_uid E = 0 \<longrightarrow> Ev_Attest (sha256_digest (env_deps E) img) \<in> set (w_trace w')
         \<and> read_text (q_file q ''/tmp/stage1.attest'') = read_text (Inr (str_bytes report))
         \<and> Ev_Write_File ''/tmp/stage1.attest'' report \<in> set (w_trace w'))
    \<and> example_main q =
      [Out ''=== Arguments ===''] @ map arg_line (List.enumerate 0 argv) @ [Out []]
      @ [Out ''=== config (stdin) ==='', Out config, Out []]
      @ [Out ''=== /tmp/stage1.attest ==='', shown ''/tmp/stage1.attest'' (read_text (q_file q ''/tmp/stage1.attest'')), Out []]
      @ [Out ''=== Task complete, waiting 60 seconds for console log capture ==='', Slept 60,
         Out ''=== Powering off ===''] @ (if env_pid E = 1 then [Synced, Power_Off_Call] else [Exited 1])"
  using assms(1,2)
proof (cases rule: main_execs)
  case (1 raw w1 w2 args reqs report)
  let ?q = "\<lparr>q_argv = map str_bytes argv, q_stdin = Inr input,
    q_file = (\<lambda>p. case written_file (w_trace w') p of Some s \<Rightarrow> Inr (str_bytes s) | None \<Rightarrow> disk p), q_pid = env_pid E\<rparr>"
  have started: "started_process E disk w' = Some ?q"
    unfolding started_process_def 1(4) by simp
  have root: "Ev_Attest (sha256_digest (env_deps E) img) \<in> set (w_trace w')
      \<and> read_text (q_file ?q ''/tmp/stage1.attest'') = read_text (Inr (str_bytes report))
      \<and> Ev_Write_File ''/tmp/stage1.attest'' report \<in> set (w_trace w')" if "env_uid E = 0"
    using that by (simp add: 1(4) measurement_def Let_def written_file_append)
  have "example_main ?q =
      [Out ''=== Arguments ===''] @ map arg_line (List.enumerate 0 argv) @ [Out []]
      @ [Out ''=== config (stdin) ==='', Out config, Out []]
      @ [Out ''=== /tmp/stage1.attest ==='', shown ''/tmp/stage1.attest'' (read_text (q_file ?q ''/tmp/stage1.attest'')), Out []]
      @ [Out ''=== Task complete, waiting 60 seconds for console log capture ==='', Slept 60,
         Out ''=== Powering off ===''] @ (if env_pid E = 1 then [Synced, Power_Off_Call] else [Exited 1])"
    using assms(3,4) by (simp add: example_main_def those_rust_strings[simplified] read_text_def shown_def example_poweroff_def)
  then show ?thesis
    using started root by (intro exI[of _ ?q] exI[of _ report] conjI impI) simp_all
qed

end
