(* ===== verification/Stage1_Console.thy ===== *)
theory Stage1_Console
  imports Ed25519_Sign "HOL-Library.Signed_Division"
begin

section \<open>stage1: the lines on the console\<close>

text \<open>
  The text that \<open>kts\<close>, \<open>ktseprintln!\<close> and \<open>log_hash\<close> of \<open>crates/stage1/src/main.rs\<close> make. What is logged decides
  nothing, so the boot is modelled without its log first, and with it in \<open>Stage1_Log\<close>; here are the
  formats. The clock is what
  \<open>clock_gettime\<close> answers: seconds and nanoseconds as 64-bit signed numbers, or an error.
\<close>

type_synonym timespec = "64 word \<times> 64 word"

text \<open>\<open>{:>n}\<close> and \<open>{:0n}\<close>: at least \<open>n\<close> characters, filled on the left.\<close>

definition pad_left :: "char \<Rightarrow> nat \<Rightarrow> string \<Rightarrow> string" where
  "pad_left c n s = replicate (n - length s) c @ s"

text \<open>\<open>tv_sec as u64\<close> keeps the bits; \<open>tv_nsec / 1000\<close> is rounded towards zero and \<open>as u32\<close> truncates.\<close>

definition micros :: "64 word \<Rightarrow> 32 word" where
  "micros nsec = word_of_int (sint nsec sdiv 1000)"

definition kts :: "timespec option \<Rightarrow> string" where
  "kts clock =
     (case clock of
        Some (sec, nsec) \<Rightarrow>
          ''['' @ pad_left CHR '' '' 5 (decimal (unat sec)) @ ''.'' @ pad_left CHR ''0'' 6 (decimal (unat (micros nsec))) @ '']''
      | None \<Rightarrow> ''[    ?.??????]'')"

definition ktseprintln :: "timespec option \<Rightarrow> string \<Rightarrow> string" where
  "ktseprintln clock line = kts clock @ '' stage1: '' @ line"

definition log_hash :: "deps \<Rightarrow> timespec option \<Rightarrow> string \<Rightarrow> bytes \<Rightarrow> string" where
  "log_hash D clock label data = ktseprintln clock (label @ '' sha256='' @ hex_encode D (sha256_digest D data))"

subsection \<open>The stamp tells the time\<close>

text \<open>A reader of the two numbers: blanks and digits alike, by their last four bits.\<close>

definition read_number :: "string \<Rightarrow> nat" where
  "read_number = foldl (\<lambda>n c. 10 * n + of_char c mod 16) 0"

lemma read_number_snoc: "read_number (s @ [c]) = 10 * read_number s + of_char c mod 16"
  by (simp add: read_number_def)

lemma read_padding: "c \<in> {CHR '' '', CHR ''0''} \<Longrightarrow> read_number (replicate k c @ s) = read_number s"
  by (induction k) (auto simp: read_number_def)

lemma decimal_digit: "n < 10 \<Longrightarrow> of_char (hex_digit n) mod 16 = n"
proof -
  have "\<forall>n \<in> set [0..<10]. of_char (hex_digit n) mod 16 = n" by (simp add: hex_digit_def upt_conv_Cons)
  then show "n < 10 \<Longrightarrow> ?thesis" by simp
qed

lemma read_decimal: "read_number (decimal n) = n"
proof (induction n rule: decimal.induct)
  case (1 n)
  show ?case
  proof (cases "n < 10")
    case True
    then show ?thesis by (simp add: decimal.simps[of n] decimal_digit read_number_def)
  next
    case False
    with 1 show ?thesis by (simp add: decimal.simps[of n] read_number_snoc decimal_digit)
  qed
qed

lemma length_decimal: "0 < k \<Longrightarrow> n < 10 ^ k \<Longrightarrow> length (decimal n) \<le> k"
proof (induction k arbitrary: n)
  case (Suc k)
  show ?case
  proof (cases "n < 10")
    case False
    then have "0 < k" using Suc.prems by (cases k) auto
    moreover have "n div 10 < 10 ^ k" using Suc.prems by (simp add: less_mult_imp_div_less mult.commute)
    ultimately show ?thesis using Suc.IH[of "n div 10"] False by (simp add: decimal.simps[of n])
  qed (simp add: decimal.simps[of n])
qed simp

lemma length_pad_left: "length s \<le> n \<Longrightarrow> length (pad_left c n s) = n"
  by (simp add: pad_left_def)

text \<open>
  In the first hundred thousand seconds every stamp has the same width, and seconds and microseconds
  can be read off it.
\<close>

lemma kts_tells_time:
  assumes "unat sec < 100000" and "sint nsec = int ns" and "ns < 1000000000"
  obtains a b where "kts (Some (sec, nsec)) = ''['' @ a @ ''.'' @ b @ '']''" and "length a = 5" and "length b = 6"
    and "read_number a = unat sec" and "read_number b = ns div 1000"
proof -
  have "sint nsec sdiv 1000 = int (ns div 1000)" by (cases ns) (simp_all add: assms(2) signed_divide_int_def zdiv_int)
  moreover have small: "ns div 1000 < 10 ^ 6" using assms(3) by simp
  ultimately have micros: "unat (micros nsec) = ns div 1000" by (simp add: micros_def unat_of_nat)
  let ?a = "pad_left CHR '' '' 5 (decimal (unat sec))" and ?b = "pad_left CHR ''0'' 6 (decimal (ns div 1000))"
  have "length ?a = 5" "length ?b = 6"
    using length_decimal[of 5 "unat sec"] length_decimal[of 6 "ns div 1000"] small assms(1)
    by (simp_all add: length_pad_left)
  moreover have "read_number ?a = unat sec" "read_number ?b = ns div 1000"
    by (simp_all add: pad_left_def read_padding read_decimal)
  ultimately show thesis by (intro that[of ?a ?b]) (simp_all add: kts_def micros)
qed

end
