(* ===== verification/Stage1_Log.thy ===== *)
theory Stage1_Log
  imports Stage1_Boot Stage1_Console
begin

section \<open>stage1: a run with its console\<close>

text \<open>
  \<open>crates/stage1/src/main.rs\<close> once more, with the lines that the functions write to standard error
  (\<open>ktseprintln!\<close>, \<open>log_hash\<close>, and the two of \<open>main\<close>): the state is a world and the lines so far. A part
  that writes nothing is the function of the quiet model, lifted. The record \<open>console\<close> holds what the
  lines take from outside: the clock, read once for each line, and the text of an error with its
  causes (\<open>{:#}\<close>), most of which is written by libraries. A line that cannot be written panics; that
  is not modelled.
\<close>

record console =
  boot_clock :: "nat \<Rightarrow> timespec option"   \<comment> \<open>at the line of that number\<close>
  error_chain :: "stage1_error \<Rightarrow> string"

type_synonym logged = "world \<times> string list"
type_synonym 'a stage1_log = "(logged, stage1_error, 'a) act"

definition quietly :: "'a stage1 \<Rightarrow> 'a stage1_log" where
  "quietly m = (\<lambda>(w, c). case m w of (r, w') \<Rightarrow> (r, w', c))"

definition say :: "console \<Rightarrow> string \<Rightarrow> unit stage1_log" where
  "say K line = (\<lambda>(w, c). (Inr (), w, c @ [ktseprintln (boot_clock K (length c)) line]))"

definition say_hash :: "console \<Rightarrow> env \<Rightarrow> string \<Rightarrow> bytes \<Rightarrow> unit stage1_log" where
  "say_hash K E label data =
     (\<lambda>(w, c). (Inr (), w, c @ [log_hash (env_deps E) (boot_clock K (length c)) label data]))"

subsection \<open>Downloads and admission\<close>

definition log_download_binary :: "console \<Rightarrow> env \<Rightarrow> string \<Rightarrow> bytes stage1_log" where
  "log_download_binary K E url =
     then_do (quietly (download_binary E url)) (\<lambda>b.
     then_do (say_hash K E url b) (\<lambda>_. ret b))"

text \<open>The line for a URL that did not serve, in the three loops over mirrors.\<close>

definition refused :: "console \<Rightarrow> string \<Rightarrow> string \<Rightarrow> stage1_error \<Rightarrow> string" where
  "refused K what url e = what @ '': '' @ url @ '' ('' @ error_chain K e @ '')''"

fun log_download_first_from :: "console \<Rightarrow> env \<Rightarrow> stage1_error option \<Rightarrow> string list \<Rightarrow> bytes stage1_log" where
  "log_download_first_from K E prev [] s = (Inl (case prev of None \<Rightarrow> No_Url | Some e \<Rightarrow> e), s)"
| "log_download_first_from K E prev (url # rest) s =
     (case log_download_binary K E url s of
        (Inr b, s') \<Rightarrow> (Inr b, s')
      | (Inl e, s') \<Rightarrow> then_do (say K (refused K ''url unavailable'' url e)) (\<lambda>_.
                        log_download_first_from K E (Some e) rest) s')"

definition log_download_first :: "console \<Rightarrow> env \<Rightarrow> string list \<Rightarrow> bytes stage1_log" where
  "log_download_first K E us = log_download_first_from K E None us"

definition log_fetch_signed_args ::
    "console \<Rightarrow> env \<Rightarrow> url_list \<Rightarrow> url_list option \<Rightarrow> string \<Rightarrow> string \<Rightarrow> string list stage1_log" where
  "log_fetch_signed_args K E args_url args_sig_url pubkey payload_hash =
     (let args_urls = substitute (urls args_url) payload_hash;
          args_sig_urls = (case args_sig_url of
              Some u \<Rightarrow> substitute (urls u) payload_hash
            | None \<Rightarrow> map (\<lambda>u. u @ ''.sig'') args_urls)
      in then_do (log_download_first K E args_urls) (\<lambda>args_bytes.
         then_do (log_download_first K E args_sig_urls) (\<lambda>sig.
         then_do (lift (map_err Args_Signature (verify (env_deps E) pubkey Stage2Args args_bytes sig))) (\<lambda>_.
         then_do (lift (ok_or Args_Not_Strings (strings_from_slice (env_deps E) args_bytes))) (\<lambda>args.
         then_do (say K (''args: '' @ decimal (length args) @ '' signed (ed25519)'')) (\<lambda>_. ret args))))))"

definition pin_line :: "string \<Rightarrow> string" where
  "pin_line hash = ''verified: sha256:'' @ hash @ '' (sha256 pin)''"

definition key_line :: "string \<Rightarrow> string \<Rightarrow> string" where
  "key_line hash pubkey = ''verified: sha256:'' @ hash @ '' (ed25519 key:'' @ pubkey @ '')''"

definition log_admit_from :: "console \<Rightarrow> env \<Rightarrow> string \<Rightarrow> admit \<Rightarrow> (bytes \<times> string list option) stage1_log" where
  "log_admit_from K E url mode =
     then_do (log_download_binary K E url) (\<lambda>binary.
       let hash = hex_sha256 E binary in
       case mode of
         Admit_Sha256 expected \<Rightarrow>
           then_do (lift (verify_checksum E binary expected)) (\<lambda>_.
           then_do (say K (pin_line hash)) (\<lambda>_. ret (binary, None)))
       | Admit_Ed25519 pubkey sig_url args_url args_sig_url \<Rightarrow>
           (let sig_urls = (case sig_url of
                Some u \<Rightarrow> substitute (urls u) hash
              | None \<Rightarrow> [url @ ''.sig''])
            in then_do (log_download_first K E sig_urls) (\<lambda>sig.
               then_do (lift (map_err Payload_Signature
                             (verify (env_deps E) pubkey Stage2Payload binary sig))) (\<lambda>_.
               then_do (say K (key_line hash pubkey)) (\<lambda>_.
               case args_url of
                 None \<Rightarrow> ret (binary, None)
               | Some au \<Rightarrow>
                   then_do (log_fetch_signed_args K E au args_sig_url pubkey hash) (\<lambda>args.
                   ret (binary, Some args)))))))"

fun log_admit_payload_from ::
    "console \<Rightarrow> env \<Rightarrow> admit \<Rightarrow> stage1_error option \<Rightarrow> string list \<Rightarrow> (bytes \<times> string list option) stage1_log" where
  "log_admit_payload_from K E mode prev [] s = (Inl (case prev of None \<Rightarrow> No_Payload_Url | Some e \<Rightarrow> e), s)"
| "log_admit_payload_from K E mode prev (url # rest) s =
     (case log_admit_from K E url mode s of
        (Inr a, s') \<Rightarrow> (Inr a, s')
      | (Inl e, s') \<Rightarrow> then_do (say K (refused K ''payload url rejected'' url e)) (\<lambda>_.
                        log_admit_payload_from K E mode (Some e) rest) s')"

definition log_admit_payload ::
    "console \<Rightarrow> env \<Rightarrow> string list \<Rightarrow> admit \<Rightarrow> (bytes \<times> string list option) stage1_log" where
  "log_admit_payload K E us mode = log_admit_payload_from K E mode None us"

definition manifest_line :: "string \<Rightarrow> string \<Rightarrow> string" where
  "manifest_line hash key = ''manifest verified: sha256:'' @ hash @ '' (ed25519 key:'' @ key @ '')''"

definition log_try_fetch_manifest :: "console \<Rightarrow> env \<Rightarrow> manifest_ref \<Rightarrow> string \<Rightarrow> (bytes \<times> string) stage1_log" where
  "log_try_fetch_manifest K E m url =
     then_do (log_download_binary K E url) (\<lambda>b.
       let hash = hex_sha256 E b in
       then_do (lift (case m_sha256 m of
                     Some pin \<Rightarrow> if \<not> eq_ignore_ascii_case pin hash
                                 then Inl (Manifest_Pin_Mismatch pin hash) else Inr ()
                   | None \<Rightarrow> Inr ())) (\<lambda>_.
       let sig_urls = (case m_sig_url m of
              Some u \<Rightarrow> substitute (urls u) hash
            | None \<Rightarrow> [url @ ''.sig''])
       in then_do (log_download_first K E sig_urls) (\<lambda>sig.
          then_do (lift (map_err Manifest_Signature
                        (verify (env_deps E) (m_ed25519 m) Stage2Manifest b sig))) (\<lambda>_.
          then_do (say K (manifest_line hash (m_ed25519 m))) (\<lambda>_. ret (b, hash))))))"

fun log_fetch_manifest_from ::
    "console \<Rightarrow> env \<Rightarrow> manifest_ref \<Rightarrow> stage1_error option \<Rightarrow> string list \<Rightarrow> (string \<times> bytes \<times> string) stage1_log" where
  "log_fetch_manifest_from K E m prev [] s = (Inl (case prev of None \<Rightarrow> No_Manifest_Url | Some e \<Rightarrow> e), s)"
| "log_fetch_manifest_from K E m prev (url # rest) s =
     (case log_try_fetch_manifest K E m url s of
        (Inr (b, hash), s') \<Rightarrow> (Inr (url, b, hash), s')
      | (Inl e, s') \<Rightarrow> then_do (say K (refused K ''manifest rejected'' url e)) (\<lambda>_.
                        log_fetch_manifest_from K E m (Some e) rest) s')"

definition log_fetch_manifest :: "console \<Rightarrow> env \<Rightarrow> manifest_ref \<Rightarrow> (string \<times> bytes \<times> string) stage1_log" where
  "log_fetch_manifest K E m = log_fetch_manifest_from K E m None (urls (m_url m))"

subsection \<open>Resolution\<close>

definition log_payload_step ::
    "console \<Rightarrow> env \<Rightarrow> bytes \<Rightarrow> json \<Rightarrow> manifest_ref list \<Rightarrow> payload \<Rightarrow> progress stage1_log" where
  "log_payload_step K E raw_json doc history p =
     then_do (lift (map_err Invalid_Payload (admission (env_deps E) p Stage1))) (\<lambda>mode.
     then_do (log_admit_payload K E (urls (p_url p)) mode) (\<lambda>(binary, signed_args).
       let args = (case signed_args of Some a \<Rightarrow> a
                   | None \<Rightarrow> (case p_args p of Some a \<Rightarrow> a | None \<Rightarrow> []))
       in if history = [] then ret (Return (binary, args, raw_json))
          else then_do (lift (ok_or Entry_Vanished (set_resolved_manifests doc (arch_key E) history))) (\<lambda>doc'.
               ret (Return (binary, args, json_compact (env_deps E) doc')))))"

definition log_manifest_step ::
    "console \<Rightarrow> env \<Rightarrow> json \<Rightarrow> manifest_ref list \<Rightarrow> manifest_ref \<Rightarrow> progress stage1_log" where
  "log_manifest_step K E doc history m =
     then_do (lift (map_err Invalid_Manifest (manifest_validate (env_deps E) m Stage1))) (\<lambda>_.
     then_do (log_fetch_manifest K E m) (\<lambda>(murl, b, hash).
       if seen_before history murl hash then throw (Manifest_Cycle murl hash)
       else then_do (lift (ok_or Manifest_Not_Json (value_from_slice (env_deps E) b))) (\<lambda>manifest_doc.
            ret (Again (deep_merge (consume_pointer (arch_key E) doc) manifest_doc)
                       (history @ [hop_record m murl hash])))))"

definition log_resolve_step ::
    "console \<Rightarrow> env \<Rightarrow> bytes \<Rightarrow> json \<Rightarrow> manifest_ref list \<Rightarrow> progress stage1_log" where
  "log_resolve_step K E raw_json doc history =
     then_do (lift (ok_or No_Stage2_Config (arch_value (arch_key E) doc))) (\<lambda>entry_val.
     then_do (lift (ok_or Invalid_Entry (de_arch_config entry_val))) (\<lambda>ac.
       case ac_entry ac of
         Payload_Entry p \<Rightarrow> log_payload_step K E raw_json doc history p
       | Manifest_Entry m \<Rightarrow> log_manifest_step K E doc history m))"

partial_function (option) log_resolve_loop ::
    "console \<Rightarrow> env \<Rightarrow> bytes \<Rightarrow> json \<Rightarrow> manifest_ref list \<Rightarrow> logged \<Rightarrow> ((stage1_error + resolved) \<times> logged) option" where
  "log_resolve_loop K E raw_json doc history s =
     (case log_resolve_step K E raw_json doc history s of
        (Inl e, s') \<Rightarrow> Some (Inl e, s')
      | (Inr p, s') \<Rightarrow>
          (case p of
             Return r \<Rightarrow> Some (Inr r, s')
           | Again doc' history' \<Rightarrow> log_resolve_loop K E raw_json doc' history' s'))"

declare log_resolve_loop.simps [code]

definition log_resolve_payload ::
    "console \<Rightarrow> env \<Rightarrow> bytes \<Rightarrow> logged \<Rightarrow> ((stage1_error + resolved) \<times> logged) option" where
  "log_resolve_payload K E raw_json s =
     (case value_from_slice (env_deps E) raw_json of
        None \<Rightarrow> Some (Inl Reparse_Failed, s)
      | Some doc \<Rightarrow> log_resolve_loop K E raw_json doc [] s)"

subsection \<open>The boot\<close>

definition log_stdin_config :: "console \<Rightarrow> env \<Rightarrow> bytes option stage1_log" where
  "log_stdin_config K E =
     then_do (lift (stdin_config E)) (\<lambda>piped.
     case piped of
       None \<Rightarrow> ret None
     | Some buf \<Rightarrow> then_do (say_hash K E ''stdin'' buf) (\<lambda>_. ret (Some buf)))"

definition log_try_fetch_ec2 :: "console \<Rightarrow> env \<Rightarrow> bytes stage1_log" where
  "log_try_fetch_ec2 K E =
     then_do (quietly (send E \<lparr>req_method = Http_Put, req_url = ec2_token_url,
                req_headers = [(''X-aws-ec2-metadata-token-ttl-seconds'', ''21600'')]\<rparr>)) (\<lambda>r.
     then_do (lift (read_body r)) (\<lambda>token.
     then_do (quietly (send E \<lparr>req_method = Http_Get, req_url = ec2_metadata_url,
                req_headers = [(''X-aws-ec2-metadata-token'', response_text E token)]\<rparr>)) (\<lambda>r.
     then_do (lift (read_body r)) (\<lambda>body.
     then_do (say_hash K E ec2_metadata_url body) (\<lambda>_.
     lift (parse_json_to_config E body))))))"

definition log_try_fetch_gcp :: "console \<Rightarrow> env \<Rightarrow> bytes stage1_log" where
  "log_try_fetch_gcp K E =
     then_do (quietly (send E \<lparr>req_method = Http_Get, req_url = gcp_metadata_url,
                req_headers = [(''Metadata-Flavor'', ''Google'')]\<rparr>)) (\<lambda>r.
     then_do (lift (read_body r)) (\<lambda>body.
     then_do (say_hash K E gcp_metadata_url body) (\<lambda>_.
     lift (parse_json_to_config E body))))"

definition log_try_fetch_azure :: "console \<Rightarrow> env \<Rightarrow> bytes stage1_log" where
  "log_try_fetch_azure K E =
     then_do (quietly (send E \<lparr>req_method = Http_Get, req_url = azure_metadata_url,
                req_headers = [(''Metadata'', ''true'')]\<rparr>)) (\<lambda>r.
     then_do (lift (read_body r)) (\<lambda>body.
     then_do (lift (ok_or Azure_Base64 (b64_decode (env_deps E) (response_text E body)))) (\<lambda>decoded.
     then_do (say_hash K E azure_metadata_url decoded) (\<lambda>_.
     lift (parse_json_to_config E decoded)))))"

definition log_fetch_cloud_metadata :: "console \<Rightarrow> env \<Rightarrow> bytes stage1_log" where
  "log_fetch_cloud_metadata K E =
     then_do (quietly (http_client E)) (\<lambda>_ s.
       case log_try_fetch_ec2 K E s of
         (Inr doc, s1) \<Rightarrow> (Inr doc, s1)
       | (Inl _, s1) \<Rightarrow>
         (case log_try_fetch_gcp K E s1 of
            (Inr doc, s2) \<Rightarrow> (Inr doc, s2)
          | (Inl _, s2) \<Rightarrow>
            (case log_try_fetch_azure K E s2 of
               (Inr doc, s3) \<Rightarrow> (Inr doc, s3)
             | (Inl _, s3) \<Rightarrow> (Inl All_Clouds_Failed, s3))))"

text \<open>
  \<open>{:?}\<close> of a list of strings: quoted, with escapes for quotes, backslashes and control characters. (Of the
  characters outside ASCII that are escaped too nothing is said: they are kept here.)
\<close>

definition hex_lower_nat :: "nat \<Rightarrow> string" where
  "hex_lower_nat n = (if n < 16 then [hex_digit n] else [hex_digit (n div 16), hex_digit (n mod 16)])"

definition debug_char :: "char \<Rightarrow> string" where
  "debug_char c =
     (if c = CHR 0x00 then [CHR 0x5C, CHR ''0'']
      else if c = CHR 0x09 then [CHR 0x5C, CHR ''t'']
      else if c = CHR 0x0A then [CHR 0x5C, CHR ''n'']
      else if c = CHR 0x0D then [CHR 0x5C, CHR ''r'']
      else if c = CHR 0x22 \<or> c = CHR 0x5C then [CHR 0x5C, c]
      else if of_char c < (32 :: nat) \<or> c = CHR 0x7F then [CHR 0x5C, CHR ''u'', CHR 0x7B] @ hex_lower_nat (of_char c) @ [CHR 0x7D]
      else [c])"

definition debug_string :: "string \<Rightarrow> string" where
  "debug_string s = [CHR 0x22] @ concat (map debug_char s) @ [CHR 0x22]"

fun comma_separated :: "string list \<Rightarrow> string" where
  "comma_separated [] = []"
| "comma_separated [s] = s"
| "comma_separated (s # ss) = s @ '', '' @ comma_separated ss"

definition debug_strings :: "string list \<Rightarrow> string" where
  "debug_strings ss = ''['' @ comma_separated (map debug_string ss) @ '']''"

definition exec_line :: "string list \<Rightarrow> string" where
  "exec_line args = ''exec stage2 (sealed memfd, config on stdin): '' @ debug_strings args"

type_synonym 'a stage1_plog = "(logged, stage1_error, 'a) pact"

definition pquietly :: "(world, stage1_error, 'a) pact \<Rightarrow> 'a stage1_plog" where
  "pquietly m = (\<lambda>(w, c). case m w of None \<Rightarrow> None | Some (r, w') \<Rightarrow> Some (r, w', c))"

definition log_execute_binary :: "console \<Rightarrow> env \<Rightarrow> bytes \<Rightarrow> string list \<Rightarrow> bytes \<Rightarrow> control stage1_plog" where
  "log_execute_binary K E data args json_config =
     then_may (pquietly (make_memfd E ''stage2'' data True True)) (\<lambda>exe.
     then_may (pquietly (make_memfd E ''stage2-config'' json_config False False)) (\<lambda>cfg.
     then_may (may (quietly (rewind E cfg))) (\<lambda>_.
     then_may (may (quietly (dup_to_stdin E cfg))) (\<lambda>_.
     then_may (may (lift (c_argv args))) (\<lambda>argv.
     then_may (may (say K (exec_line args))) (\<lambda>_.
     may (quietly (execveat E exe argv (c_envp (env_vars E))))))))))"

definition log_stage2 :: "console \<Rightarrow> env \<Rightarrow> bytes \<Rightarrow> control stage1_plog" where
  "log_stage2 K E raw_json =
     then_may (log_resolve_payload K E raw_json) (\<lambda>(binary, args, stdin_doc).
     then_may (may (if env_uid E = 0
                    then quietly (then_do (generate_pre_execution_attestation E binary) (\<lambda>_. extend_pcrs E binary))
                    else ret ())) (\<lambda>_.
     log_execute_binary K E binary args stdin_doc))"

definition log_main_inner :: "console \<Rightarrow> env \<Rightarrow> control stage1_plog" where
  "log_main_inner K E =
     then_may (may (log_stdin_config K E)) (\<lambda>piped.
     case piped of
       Some bytes \<Rightarrow>
         then_may (may (lift (parse_json_to_config E bytes))) (\<lambda>raw_json. log_stage2 K E raw_json)
     | None \<Rightarrow>
         if 1 < length (env_args E) \<and> env_args E ! 1 = ''--attest'' then
           then_may (may (quietly (attest E (attest_nonce E)))) (\<lambda>report (w, c).
             Some (Inr Returned, emit (Ev_Print report) w, c))
         else
           then_may (may (log_fetch_cloud_metadata K E)) (\<lambda>raw_json. log_stage2 K E raw_json))"

text \<open>The one panic of the model is the slice of \<open>write_all\<close>; its hook writes another line than an error.\<close>

definition failure_line :: "console \<Rightarrow> stage1_error \<Rightarrow> string" where
  "failure_line K e =
     (if e = Memfd_Write_Overrun then ''stage1: PANIC: '' @ error_chain K e else ''Error: '' @ error_chain K e)"

definition log_main :: "console \<Rightarrow> env \<Rightarrow> logged \<Rightarrow> logged option" where
  "log_main K E s =
     (case log_main_inner K E s of
        None \<Rightarrow> None
      | Some (Inl e, w', c) \<Rightarrow> Some (poweroff E w', c @ [failure_line K e])
      | Some (Inr Returned, w', c) \<Rightarrow> Some (emit (Ev_Exit 0) w', c)
      | Some (Inr Replaced, w', c) \<Rightarrow> Some (w', c))"

end
