(* ===== verification/Stage1_Log_Laws.thy ===== *)
theory Stage1_Log_Laws
  imports Stage1_Log
begin

section \<open>stage1: logging decides nothing\<close>

text \<open>
  Forgetting the lines turns the logged run into the quiet one: for every logged function there is a
  list of lines that it adds, and its result and its world are those of the quiet function. The
  relation is a congruence of the combinators, so most functions follow by their structure; the loops
  over mirrors share the locale \<open>logged_search\<close>.
\<close>

subsection \<open>The relation\<close>

definition logs :: "'a stage1_log \<Rightarrow> 'a stage1 \<Rightarrow> bool" where
  "logs lm m \<longleftrightarrow> (\<forall>w c. \<exists>ls. lm (w, c) = (fst (m w), snd (m w), c @ ls))"

definition plogs :: "'a stage1_plog \<Rightarrow> (world, stage1_error, 'a) pact \<Rightarrow> bool" where
  "plogs lm m \<longleftrightarrow> (\<forall>w c. case m w of None \<Rightarrow> lm (w, c) = None
     | Some (r, w') \<Rightarrow> \<exists>ls. lm (w, c) = Some (r, w', c @ ls))"

named_theorems logs_intros \<open>congruence of the logging relation\<close>

lemma logsI: "(\<And>w c. \<exists>ls. lm (w, c) = (fst (m w), snd (m w), c @ ls)) \<Longrightarrow> logs lm m"
  by (simp add: logs_def)

lemma logs_run:
  assumes "logs lm m" and "m w = (r, w')"
  obtains ls where "lm (w, c) = (r, w', c @ ls)"
proof -
  obtain ls where "lm (w, c) = (fst (m w), snd (m w), c @ ls)" using assms(1) unfolding logs_def by blast
  with assms(2) show thesis by (intro that) simp
qed

lemma logs_quietly [logs_intros]: "logs (quietly m) m"
  by (rule logsI) (auto simp: quietly_def split: prod.split)

lemma logs_ret [logs_intros]: "logs (ret a) (ret a)"
  and logs_throw [logs_intros]: "logs (throw e) (throw e)"
  and logs_lift [logs_intros]: "logs (lift r) (lift r)"
  by (auto intro: logsI)

lemma logs_then_do [logs_intros]:
  assumes "logs lm m" and "\<And>a. logs (lf a) (f a)"
  shows "logs (then_do lm lf) (then_do m f)"
proof (rule logsI)
  fix w c
  obtain r w1 where m: "m w = (r, w1)" by fastforce
  obtain ls where lm: "lm (w, c) = (r, w1, c @ ls)" by (rule logs_run[OF assms(1) m])
  show "\<exists>ls. then_do lm lf (w, c) = (fst (then_do m f w), snd (then_do m f w), c @ ls)"
  proof (cases r)
    case (Inl e)
    then show ?thesis using m lm by (simp add: then_do_def)
  next
    case (Inr a)
    obtain r' w2 where f: "f a w1 = (r', w2)" by fastforce
    obtain ls' where "lf a (w1, c @ ls) = (r', w2, (c @ ls) @ ls')" by (rule logs_run[OF assms(2) f])
    then show ?thesis using m lm f Inr by (simp add: then_do_def)
  qed
qed

text \<open>A line on the way, and a line when the quiet function is done.\<close>

lemma logs_line:
  assumes "logs lm m" and "\<And>w c. lm' (w, c) = lm (w, c @ [l c])"
  shows "logs lm' m"
proof (rule logsI)
  fix w c
  obtain ls where "lm (w, c @ [l c]) = (fst (m w), snd (m w), (c @ [l c]) @ ls)"
    using assms(1) unfolding logs_def by blast
  with assms(2) show "\<exists>ls. lm' (w, c) = (fst (m w), snd (m w), c @ ls)" by simp
qed

lemma logs_say [logs_intros]: "logs lm m \<Longrightarrow> logs (then_do (say K line) (\<lambda>_. lm)) m"
  by (erule logs_line) (simp add: then_do_def say_def)

lemma logs_say_hash [logs_intros]: "logs lm m \<Longrightarrow> logs (then_do (say_hash K E label d) (\<lambda>_. lm)) m"
  by (erule logs_line) (simp add: then_do_def say_hash_def)

lemma then_do_ret_right: "then_do m ret = m"
  by (rule ext) (auto simp: then_do_def split: prod.split sum.split)

lemma logs_tail:
  assumes "logs lm m" and "\<And>a. logs (lf a) (ret a)"
  shows "logs (then_do lm lf) m"
  using logs_then_do[OF assms(1), of lf ret] assms(2) by (simp add: then_do_ret_right)

lemma logs_case_prod [logs_intros]: "(\<And>x y. logs (lf x y) (f x y)) \<Longrightarrow> logs (case p of (x, y) \<Rightarrow> lf x y) (case p of (x, y) \<Rightarrow> f x y)"
  by (cases p) simp

lemma logs_if [logs_intros]: "logs la a \<Longrightarrow> logs lb b \<Longrightarrow> logs (if P then la else lb) (if P then a else b)"
  by simp

lemma plogsI:
  "(\<And>w c. case m w of None \<Rightarrow> lm (w, c) = None | Some (r, w') \<Rightarrow> \<exists>ls. lm (w, c) = Some (r, w', c @ ls)) \<Longrightarrow> plogs lm m"
  by (simp add: plogs_def)

lemma plogs_pquietly [logs_intros]: "plogs (pquietly m) m"
  by (rule plogsI) (auto simp: pquietly_def split: option.split)

lemma plogs_may [logs_intros]: "logs lm m \<Longrightarrow> plogs (may lm) (may m)"
proof (rule plogsI)
  fix w c
  assume "logs lm m"
  then obtain ls where "lm (w, c) = (fst (m w), snd (m w), c @ ls)" unfolding logs_def by blast
  then show "case may m w of None \<Rightarrow> may lm (w, c) = None | Some (r, w') \<Rightarrow> \<exists>ls. may lm (w, c) = Some (r, w', c @ ls)"
    by (simp add: may_def split: prod.split)
qed

lemma plogs_then_may [logs_intros]:
  assumes "plogs lm m" and "\<And>a. plogs (lf a) (f a)"
  shows "plogs (then_may lm lf) (then_may m f)"
proof (rule plogsI)
  fix w c
  show "case then_may m f w of None \<Rightarrow> then_may lm lf (w, c) = None
    | Some (r, w') \<Rightarrow> \<exists>ls. then_may lm lf (w, c) = Some (r, w', c @ ls)"
  proof (cases "m w")
    case None
    then have "lm (w, c) = None" using assms(1) by (auto simp: plogs_def dest: spec[of _ w])
    with None show ?thesis by (simp add: then_may_def)
  next
    case (Some x)
    obtain r w1 where x: "x = (r, w1)" by fastforce
    with Some assms(1) obtain ls where lm: "lm (w, c) = Some (r, w1, c @ ls)"
      by (fastforce simp: plogs_def dest: spec[of _ w])
    show ?thesis
    proof (cases r)
      case (Inl e)
      with Some x lm show ?thesis by (simp add: then_may_def)
    next
      case (Inr a)
      have "case f a w1 of None \<Rightarrow> lf a (w1, c @ ls) = None
          | Some (r, w') \<Rightarrow> \<exists>ls'. lf a (w1, c @ ls) = Some (r, w', (c @ ls) @ ls')"
        using assms(2)[of a] unfolding plogs_def by blast
      with Inr Some x lm show ?thesis by (auto simp: then_may_def split: option.splits)
    qed
  qed
qed

lemma plogs_say [logs_intros]: "plogs lm m \<Longrightarrow> plogs (then_may (may (say K line)) (\<lambda>_. lm)) m"
proof (rule plogsI)
  fix w c
  assume lm: "plogs lm m"
  let ?c = "c @ [ktseprintln (boot_clock K (length c)) line]"
  have "then_may (may (say K line)) (\<lambda>_. lm) (w, c) = lm (w, ?c)" by (simp add: then_may_def may_def say_def)
  moreover have "case m w of None \<Rightarrow> lm (w, ?c) = None | Some (r, w') \<Rightarrow> \<exists>ls. lm (w, ?c) = Some (r, w', ?c @ ls)"
    using lm unfolding plogs_def by blast
  ultimately show "case m w of None \<Rightarrow> then_may (may (say K line)) (\<lambda>_. lm) (w, c) = None
    | Some (r, w') \<Rightarrow> \<exists>ls. then_may (may (say K line)) (\<lambda>_. lm) (w, c) = Some (r, w', c @ ls)"
    by (auto split: option.splits)
qed

subsection \<open>Loops over mirrors\<close>

locale logged_search = first_success attempt search none_given
  for attempt :: "'u \<Rightarrow> 'a stage1" and search and none_given +
  fixes log_attempt :: "'u \<Rightarrow> 'a stage1_log"
    and log_search :: "stage1_error option \<Rightarrow> 'u list \<Rightarrow> 'a stage1_log"
    and line :: "'u \<Rightarrow> stage1_error \<Rightarrow> string" and K :: console
  assumes attempt_logs: "logs (log_attempt u) (attempt u)"
    and log_search_Nil: "log_search prev [] s = (Inl (case prev of None \<Rightarrow> none_given | Some e \<Rightarrow> e), s)"
    and log_search_Cons: "log_search prev (u # us) s =
      (case log_attempt u s of (Inr a, s') \<Rightarrow> (Inr a, s')
       | (Inl e, s') \<Rightarrow> then_do (say K (line u e)) (\<lambda>_. log_search (Some e) us) s')"
begin

lemma search_logs: "logs (log_search prev us) (search prev us)"
proof (induction us arbitrary: prev)
  case Nil
  show ?case by (rule logsI) (simp add: log_search_Nil search_Nil)
next
  case (Cons u us)
  show ?case
  proof (rule logsI)
    fix w c
    obtain r w1 where a: "attempt u w = (r, w1)" by fastforce
    obtain ls where la: "log_attempt u (w, c) = (r, w1, c @ ls)" by (rule logs_run[OF attempt_logs a])
    show "\<exists>ls. log_search prev (u # us) (w, c) = (fst (search prev (u # us) w), snd (search prev (u # us) w), c @ ls)"
    proof (cases r)
      case (Inl e)
      obtain r' w2 where "search (Some e) us w1 = (r', w2)" by fastforce
      moreover from this obtain ls' where "then_do (say K (line u e)) (\<lambda>_. log_search (Some e) us) (w1, c @ ls) = (r', w2, (c @ ls) @ ls')"
        by (rule logs_run[OF logs_say[OF Cons.IH]])
      ultimately show ?thesis using a la Inl by (simp add: log_search_Cons search_Cons)
    qed (simp add: a la log_search_Cons search_Cons)
  qed
qed

text \<open>A search that succeeds shows the lines of the attempt that did.\<close>

lemma log_success_from:
  "log_search prev us s = (Inr a, s') \<Longrightarrow> \<exists>u \<in> set us. \<exists>s1. log_attempt u s1 = (Inr a, s')"
proof (induction us arbitrary: prev s)
  case Nil
  then show ?case by (simp add: log_search_Nil)
next
  case (Cons u us)
  then show ?case by (cases s) (fastforce simp: log_search_Cons then_do_def say_def split: prod.splits sum.splits)
qed

end

subsection \<open>Every function\<close>

lemma logs_download_binary [logs_intros]: "logs (log_download_binary K E url) (download_binary E url)"
  unfolding log_download_binary_def by (intro logs_tail logs_intros)

interpretation dl_log: logged_search "download_binary E" "download_first_from E" No_Url
  "log_download_binary K E" "log_download_first_from K E" "refused K ''url unavailable''" K for E K
  by unfold_locales (auto simp: logs_download_binary split: prod.split sum.split)

lemma logs_download_first [logs_intros]: "logs (log_download_first K E us) (download_first E us)"
  unfolding log_download_first_def download_first_def by (rule dl_log.search_logs)

lemma logs_fetch_signed_args [logs_intros]:
  "logs (log_fetch_signed_args K E au asu pk h) (fetch_signed_args E au asu pk h)"
proof -
  have last: "logs (then_do (lift r) (\<lambda>args. then_do (say K (line args)) (\<lambda>_. ret args))) (lift r)"
    for r :: "stage1_error + string list" and line
    by (intro logs_tail logs_intros)
  show ?thesis
    unfolding log_fetch_signed_args_def fetch_signed_args_def Let_def by (intro logs_intros last)
qed

lemma logs_admit_from [logs_intros]: "logs (log_admit_from K E url mode) (admit_from E url mode)"
  unfolding log_admit_from_def admit_from_def Let_def
  by (rule logs_then_do, rule logs_download_binary)
     (auto split: admit.split option.split intro!: logs_intros)

interpretation adm_log: logged_search "\<lambda>u. admit_from E u mode" "admit_payload_from E mode" No_Payload_Url
  "\<lambda>u. log_admit_from K E u mode" "log_admit_payload_from K E mode" "refused K ''payload url rejected''" K for E mode K
  by unfold_locales (auto simp: logs_admit_from split: prod.split sum.split)

lemma logs_admit_payload [logs_intros]: "logs (log_admit_payload K E us mode) (admit_payload E us mode)"
  unfolding log_admit_payload_def admit_payload_def by (rule adm_log.search_logs)

lemma logs_try_fetch_manifest [logs_intros]:
  "logs (log_try_fetch_manifest K E m url) (try_fetch_manifest E m url)"
  unfolding log_try_fetch_manifest_def try_fetch_manifest_def Let_def by (intro logs_intros)

definition log_fetch_manifest_at :: "console \<Rightarrow> env \<Rightarrow> manifest_ref \<Rightarrow> string \<Rightarrow> (string \<times> bytes \<times> string) stage1_log" where
  "log_fetch_manifest_at K E m url = then_do (log_try_fetch_manifest K E m url) (\<lambda>r. ret (url, r))"

interpretation mf_log: logged_search "fetch_manifest_at E m" "fetch_manifest_from E m" No_Manifest_Url
  "log_fetch_manifest_at K E m" "log_fetch_manifest_from K E m" "refused K ''manifest rejected''" K for E m K
proof
  show "logs (log_fetch_manifest_at K E m u) (fetch_manifest_at E m u)" for u
    unfolding log_fetch_manifest_at_def fetch_manifest_at_def by (intro logs_intros)
  show "log_fetch_manifest_from K E m prev (u # us) s =
      (case log_fetch_manifest_at K E m u s of (Inr a, s') \<Rightarrow> (Inr a, s')
       | (Inl e, s') \<Rightarrow> then_do (say K (refused K ''manifest rejected'' u e)) (\<lambda>_. log_fetch_manifest_from K E m (Some e) us) s')"
    for prev u us s
    by (auto simp: log_fetch_manifest_at_def then_do_def split: prod.splits sum.splits)
qed auto

lemma logs_fetch_manifest [logs_intros]: "logs (log_fetch_manifest K E m) (fetch_manifest E m)"
  unfolding log_fetch_manifest_def fetch_manifest_def by (rule mf_log.search_logs)

lemma logs_resolve_step: "logs (log_resolve_step K E raw doc h) (resolve_step E raw doc h)"
proof -
  have payload: "logs (log_payload_step K E raw doc h p) (payload_step E raw doc h p)" for p
    unfolding log_payload_step_def payload_step_def Let_def by (intro logs_intros)
  have manifest: "logs (log_manifest_step K E doc h m) (manifest_step E doc h m)" for m
    unfolding log_manifest_step_def manifest_step_def by (intro logs_intros)
  show ?thesis
    unfolding log_resolve_step_def resolve_step_def
    by (intro logs_then_do logs_lift) (auto split: entry.split intro: payload manifest)
qed

lemma log_resolve_loop_from:
  assumes "resolve_loop E raw doc h w = Some (r, w')"
  shows "\<exists>ls. log_resolve_loop K E raw doc h (w, c) = Some (r, w', c @ ls)"
proof -
  have "\<forall>c. \<exists>ls. log_resolve_loop K E raw doc h (w, c) = Some (fst (r, w'), snd (r, w'), c @ ls)"
  proof (rule resolve_loop.raw_induct[where P = "\<lambda>E raw doc h w rw. \<forall>c. \<exists>ls. log_resolve_loop K E raw doc h (w, c)
      = Some (fst rw, snd rw, c @ ls)", OF _ assms], intro allI, goal_cases)
    case (1 go E raw doc h w rw c)
    obtain x w1 where step: "resolve_step E raw doc h w = (x, w1)" by fastforce
    obtain ls where "log_resolve_step K E raw doc h (w, c) = (x, w1, c @ ls)"
      by (rule logs_run[OF logs_resolve_step step])
    note eq = log_resolve_loop.simps[of K E raw doc h "(w, c)", unfolded this]
    show ?case
    proof (cases x)
      case (Inl e)
      with 1(2) step eq show ?thesis by auto
    next
      case (Inr p)
      show ?thesis
      proof (cases p)
        case (Return v)
        with 1(2) step eq Inr show ?thesis by auto
      next
        case (Again doc' h')
        with 1(2) step Inr have "go E raw doc' h' w1 = Some rw" by simp
        from 1(1)[OF this] obtain ls' where "log_resolve_loop K E raw doc' h' (w1, c @ ls) = Some (fst rw, snd rw, (c @ ls) @ ls')"
          by blast
        with eq Inr Again show ?thesis by simp
      qed
    qed
  qed
  then show ?thesis by simp
qed

text \<open>Where the quiet loop does not return, neither does the logged one.\<close>

lemma log_resolve_loop_returns:
  assumes "log_resolve_loop K E raw doc h s = Some x"
  shows "resolve_loop E raw doc h (fst s) \<noteq> None"
proof (rule log_resolve_loop.raw_induct[where P = "\<lambda>K E raw doc h s x. resolve_loop E raw doc h (fst s) \<noteq> None", OF _ assms], goal_cases)
  case (1 go K E raw doc h s x)
  obtain y w1 where step: "resolve_step E raw doc h (fst s) = (y, w1)" by fastforce
  obtain ls where lstep: "log_resolve_step K E raw doc h (fst s, snd s) = (y, w1, snd s @ ls)"
    by (rule logs_run[OF logs_resolve_step step])
  note eq = resolve_loop.simps[of E raw doc h "fst s", unfolded step]
  show ?case
  proof (cases y)
    case (Inl e)
    with eq show ?thesis by simp
  next
    case (Inr p)
    show ?thesis
    proof (cases p)
      case (Again doc' h')
      with 1(2) lstep Inr have "go K E raw doc' h' (w1, snd s @ ls) = Some x" by simp
      from 1(1)[OF this] eq Inr Again show ?thesis by simp
    qed (simp add: eq Inr)
  qed
qed

lemma plogs_resolve_payload [logs_intros]: "plogs (log_resolve_payload K E raw) (resolve_payload E raw)"
proof (rule plogsI)
  fix w c
  show "case resolve_payload E raw w of None \<Rightarrow> log_resolve_payload K E raw (w, c) = None
    | Some (r, w') \<Rightarrow> \<exists>ls. log_resolve_payload K E raw (w, c) = Some (r, w', c @ ls)"
  proof (cases "value_from_slice (env_deps E) raw")
    case (Some doc)
    note defs = resolve_payload_def[of E raw w] log_resolve_payload_def[of K E raw "(w, c)"] Some
    show ?thesis
    proof (cases "resolve_loop E raw doc [] w")
      case None
      then have "log_resolve_loop K E raw doc [] (w, c) = None"
        using log_resolve_loop_returns[of K E raw doc "[]" "(w, c)"] by (cases "log_resolve_loop K E raw doc [] (w, c)") simp_all
      with None show ?thesis by (simp add: defs)
    next
      case (Some x)
      obtain r w' where x: "x = (r, w')" by fastforce
      show ?thesis using log_resolve_loop_from[OF Some[unfolded x], of K c] Some x by (simp add: defs)
    qed
  qed (simp add: resolve_payload_def log_resolve_payload_def)
qed

lemma logs_stdin_config [logs_intros]: "logs (log_stdin_config K E) (lift (stdin_config E))"
  unfolding log_stdin_config_def by (rule logs_tail) (auto split: option.split intro!: logs_intros)

lemma logs_clouds [logs_intros]:
  "logs (log_try_fetch_ec2 K E) (try_fetch_ec2 E)"
  "logs (log_try_fetch_gcp K E) (try_fetch_gcp E)"
  "logs (log_try_fetch_azure K E) (try_fetch_azure E)"
  unfolding log_try_fetch_ec2_def try_fetch_ec2_def log_try_fetch_gcp_def try_fetch_gcp_def
    log_try_fetch_azure_def try_fetch_azure_def
  by (intro logs_intros)+

lemma logs_or_else:
  assumes "logs lm m" and "logs ln n"
  shows "logs (\<lambda>s. case lm s of (Inr a, s1) \<Rightarrow> (Inr a, s1) | (Inl _, s1) \<Rightarrow> ln s1)
    (\<lambda>w. case m w of (Inr a, w1) \<Rightarrow> (Inr a, w1) | (Inl _, w1) \<Rightarrow> n w1)"
proof (rule logsI)
  fix w c
  obtain r w1 where m: "m w = (r, w1)" by fastforce
  obtain ls where lm: "lm (w, c) = (r, w1, c @ ls)" by (rule logs_run[OF assms(1) m])
  obtain r' w2 where n: "n w1 = (r', w2)" by fastforce
  obtain ls' where "ln (w1, c @ ls) = (r', w2, (c @ ls) @ ls')" by (rule logs_run[OF assms(2) n])
  with m lm n show "\<exists>ls. (case lm (w, c) of (Inr a, s1) \<Rightarrow> (Inr a, s1) | (Inl _, s1) \<Rightarrow> ln s1)
      = (fst (case m w of (Inr a, w1) \<Rightarrow> (Inr a, w1) | (Inl _, w1) \<Rightarrow> n w1),
         snd (case m w of (Inr a, w1) \<Rightarrow> (Inr a, w1) | (Inl _, w1) \<Rightarrow> n w1), c @ ls)"
    by (cases r) simp_all
qed

lemma logs_fetch_cloud_metadata [logs_intros]: "logs (log_fetch_cloud_metadata K E) (fetch_cloud_metadata E)"
proof -
  have "logs (\<lambda>s. (Inl All_Clouds_Failed, s)) (\<lambda>w. (Inl All_Clouds_Failed, w))" by (rule logsI) simp
  then show ?thesis
    unfolding log_fetch_cloud_metadata_def fetch_cloud_metadata_def
    by (intro logs_then_do logs_quietly logs_or_else logs_clouds)
qed

lemma plogs_execute_binary [logs_intros]: "plogs (log_execute_binary K E b args d) (execute_binary E b args d)"
  unfolding log_execute_binary_def execute_binary_def by (intro logs_intros)

lemma plogs_stage2 [logs_intros]: "plogs (log_stage2 K E raw) (stage2 E raw)"
  unfolding log_stage2_def stage2_def
  by (intro logs_intros) (auto intro!: logs_intros)

lemma plogs_main_inner: "plogs (log_main_inner K E) (main_inner E)"
proof -
  have printed: "plogs (\<lambda>(w, c). Some (Inr Returned, emit (Ev_Print report) w, c)) (\<lambda>w. Some (Inr Returned, emit (Ev_Print report) w))"
    for report by (rule plogsI) simp
  show ?thesis
    unfolding log_main_inner_def main_inner_def
    by (rule plogs_then_may, rule plogs_may, rule logs_stdin_config)
       (auto split: option.split intro!: logs_intros printed)
qed

text \<open>The run as a whole.\<close>

lemma log_main_main:
  "log_main K E (w, c) = None \<longleftrightarrow> main E w = None"
  "log_main K E (w, c) = Some (w', c') \<Longrightarrow> main E w = Some w' \<and> (\<exists>ls. c' = c @ ls)"
proof -
  have inner: "case main_inner E w of None \<Rightarrow> log_main_inner K E (w, c) = None
      | Some (r, w') \<Rightarrow> \<exists>ls. log_main_inner K E (w, c) = Some (r, w', c @ ls)"
    using plogs_main_inner[of K E] unfolding plogs_def by blast
  show "log_main K E (w, c) = None \<longleftrightarrow> main E w = None"
    using inner by (auto simp: main_def log_main_def split: option.splits sum.splits control.splits)
  show "log_main K E (w, c) = Some (w', c') \<Longrightarrow> main E w = Some w' \<and> (\<exists>ls. c' = c @ ls)"
    using inner by (auto simp: main_def log_main_def split: option.splits sum.splits control.splits)
qed

subsection \<open>What is executed was announced\<close>

fun verified_line :: "admit \<Rightarrow> string \<Rightarrow> string" where
  "verified_line (Admit_Sha256 pin) hash = pin_line hash"
| "verified_line (Admit_Ed25519 key sig_url args_url args_sig_url) hash = key_line hash key"

definition announced :: "env \<Rightarrow> bytes \<Rightarrow> string list \<Rightarrow> bool" where
  "announced E b c \<longleftrightarrow> (\<exists>mode sargs t. payload_admitted E mode b sargs
     \<and> ktseprintln t (verified_line mode (hex_sha256 E b)) \<in> set c)"

lemma announcedI:
  "payload_admitted E mode b sargs \<Longrightarrow> ktseprintln t (verified_line mode (hex_sha256 E b)) \<in> set c \<Longrightarrow> announced E b c"
  unfolding announced_def by blast

lemma announced_append: "announced E b c \<Longrightarrow> announced E b (c @ ls)"
  by (auto simp: announced_def)

lemma quietly_iff [res_simps]: "quietly m s = (r, s') \<longleftrightarrow> m (fst s) = (r, fst s') \<and> snd s' = snd s"
  by (cases s; cases s') (auto simp: quietly_def split: prod.splits)

lemma pquietly_iff [res_simps]: "pquietly m s = Some (r, s') \<longleftrightarrow> m (fst s) = Some (r, fst s') \<and> snd s' = snd s"
  by (cases s; cases s') (auto simp: pquietly_def split: option.splits prod.splits)

lemma say_iff [res_simps]:
  "say K line s = (r, s') \<longleftrightarrow> r = Inr () \<and> s' = (fst s, snd s @ [ktseprintln (boot_clock K (length (snd s))) line])"
  by (cases s; cases s') (auto simp: say_def)

text \<open>A logged run only adds lines, and its quiet part is the run of the quiet function.\<close>

lemma logs_Inr:
  assumes "logs lm m" and "lm (w, c) = (r, w', c')"
  shows "m w = (r, w')" and "\<exists>ls. c' = c @ ls"
proof -
  obtain ls where "lm (w, c) = (fst (m w), snd (m w), c @ ls)" using assms(1) unfolding logs_def by blast
  with assms(2) show "m w = (r, w')" and "\<exists>ls. c' = c @ ls" by auto
qed

lemma plogs_Some:
  assumes "plogs lm m" and "lm (w, c) = Some (r, w', c')"
  shows "m w = Some (r, w')" and "\<exists>ls. c' = c @ ls"
proof -
  have "case m w of None \<Rightarrow> lm (w, c) = None | Some (r, w') \<Rightarrow> \<exists>ls. lm (w, c) = Some (r, w', c @ ls)"
    using assms(1) unfolding plogs_def by blast
  with assms(2) show "m w = Some (r, w')" and "\<exists>ls. c' = c @ ls" by (auto split: option.splits)
qed

lemma log_admit_from_announces:
  assumes "log_admit_from K E url mode s = (Inr (b, sargs), w', c')"
  shows "announced E b c'"
proof -
  obtain w c where s: "s = (w, c)" by fastforce
  have "payload_admitted E mode b sargs"
    using admit_from_sound logs_Inr(1)[OF logs_admit_from assms[unfolded s]] by blast
  moreover have "\<exists>t. ktseprintln t (verified_line mode (hex_sha256 E b)) \<in> set c'"
  proof (cases mode)
    case (Admit_Sha256 pin)
    with assms show ?thesis by (auto simp: log_admit_from_def Let_def res_simps say_def)
  next
    case (Admit_Ed25519 pk su au asu)
    with assms[unfolded log_admit_from_def Let_def] obtain w1 c1 where
      rest: "(case au of None \<Rightarrow> ret (b, None) | Some a \<Rightarrow> then_do (log_fetch_signed_args K E a asu pk (hex_sha256 E b)) (\<lambda>args. ret (b, Some args)))
        (w1, c1 @ [ktseprintln (boot_clock K (length c1)) (key_line (hex_sha256 E b) pk)]) = (Inr (b, sargs), w', c')"
      by (auto simp: res_simps say_def split: option.splits)
    have "\<exists>ls. c' = (c1 @ [ktseprintln (boot_clock K (length c1)) (key_line (hex_sha256 E b) pk)]) @ ls"
    proof (cases au)
      case None
      with rest show ?thesis by simp
    next
      case (Some a)
      with rest show ?thesis by (auto simp: res_simps dest!: logs_Inr(2)[OF logs_fetch_signed_args])
    qed
    then show ?thesis by (auto simp: Admit_Ed25519)
  qed
  ultimately show ?thesis by (blast intro: announcedI)
qed

lemma log_payload_step_announces:
  assumes "log_payload_step K E raw doc h p s = (Inr (Return (b, args, d)), w', c')"
  shows "announced E b c'"
proof -
  from assms obtain mode sargs where "log_admit_payload K E (urls (p_url p)) mode s = (Inr (b, sargs), w', c')"
    by (auto simp: log_payload_step_def Let_def res_simps split: if_splits)
  then obtain url s1 where "log_admit_from K E url mode s1 = (Inr (b, sargs), w', c')"
    unfolding log_admit_payload_def by (blast dest: adm_log.log_success_from)
  then show ?thesis by (rule log_admit_from_announces)
qed

lemma log_resolve_loop_announces:
  assumes "log_resolve_loop K E raw doc h s = Some (Inr (b, args, d), w', c')"
  shows "announced E b c'"
proof -
  have "\<forall>b args d w' c'. x = (Inr (b, args, d), w', c') \<longrightarrow> announced E b c'"
    if "log_resolve_loop K E raw doc h s = Some x" for x
  proof (rule log_resolve_loop.raw_induct[where P = "\<lambda>K E raw doc h s x.
      \<forall>b args d w' c'. x = (Inr (b, args, d), w', c') \<longrightarrow> announced E b c'", OF _ that], intro allI impI, goal_cases)
    case (1 go K E raw doc h s x b args d w' c')
    obtain y s1 where step: "log_resolve_step K E raw doc h s = (y, s1)" by (cases "log_resolve_step K E raw doc h s")
    show ?case
    proof (cases y)
      case (Inl e)
      with 1(2,3) step show ?thesis by simp
    next
      case (Inr p)
      show ?thesis
      proof (cases p)
        case (Again doc' h')
        with 1(2) step Inr have "go K E raw doc' h' s1 = Some x" by simp
        from 1(1)[OF this] 1(3) show ?thesis by blast
      next
        case (Return r)
        with 1(2,3) step Inr have "log_resolve_step K E raw doc h s = (Inr (Return (b, args, d)), w', c')" by simp
        then obtain ac :: arch_config where "(case ac_entry ac of Payload_Entry q \<Rightarrow> log_payload_step K E raw doc h q
            | Manifest_Entry m \<Rightarrow> log_manifest_step K E doc h m) s = (Inr (Return (b, args, d)), w', c')"
          by (auto simp: log_resolve_step_def res_simps)
        then obtain q where "log_payload_step K E raw doc h q s = (Inr (Return (b, args, d)), w', c')"
          by (cases "ac_entry ac") (auto simp: log_manifest_step_def res_simps split: if_splits)
        then show ?thesis by (rule log_payload_step_announces)
      qed
    qed
  qed
  with assms show ?thesis by blast
qed

lemma log_execute_binary_Inr:
  assumes "log_execute_binary K E b args d (w, c) = Some (Inr x, w', c')"
  shows "execute_binary E b args d w = Some (Inr x, w')"
    and "c' = c @ [ktseprintln (boot_clock K (length c)) (exec_line args)]"
proof -
  show "execute_binary E b args d w = Some (Inr x, w')" by (rule plogs_Some(1)[OF plogs_execute_binary assms])
  show "c' = c @ [ktseprintln (boot_clock K (length c)) (exec_line args)]"
    using assms
    by (auto simp: log_execute_binary_def res_simps)
qed

lemma log_stage2_Inr:
  assumes "log_stage2 K E raw (w, c) = Some (Inr x, w', c')"
  obtains b args d w1 ls t where "resolve_payload E raw w = Some (Inr (b, args, d), w1)" and "announced E b ls"
    and "c' = ls @ [ktseprintln t (exec_line args)]"
proof -
  from assms obtain b args d s1 s2 where
    resolved: "log_resolve_payload K E raw (w, c) = Some (Inr (b, args, d), s1)"
    and measured: "(if env_uid E = 0
        then quietly (then_do (generate_pre_execution_attestation E b) (\<lambda>_. extend_pcrs E b)) else ret ()) s1 = (Inr (), s2)"
    and run: "log_execute_binary K E b args d s2 = Some (Inr x, w', c')"
    by (auto simp: log_stage2_def res_simps)
  obtain w1 c1 w2 c2 where s: "s1 = (w1, c1)" "s2 = (w2, c2)" by fastforce
  have "announced E b c1"
    using resolved by (auto simp: log_resolve_payload_def s split: option.splits intro: log_resolve_loop_announces)
  moreover have "c2 = c1" using measured by (auto simp: s quietly_def split: if_splits prod.splits)
  ultimately show thesis
    using log_execute_binary_Inr(2)[OF run[unfolded s]] plogs_Some(1)[OF plogs_resolve_payload resolved[unfolded s]]
    by (intro that) simp_all
qed

lemma log_main_inner_Replaced:
  assumes "log_main_inner K E (w, c) = Some (Inr Replaced, w', c')"
  obtains raw w1 c1 where "document E w = (Inr raw, w1)" and "log_stage2 K E raw (w1, c1) = Some (Inr Replaced, w', c')"
proof -
  show thesis
    using assms that
    by (cases "stdin_config E")
      (auto simp: log_main_inner_def document_def res_simps log_stdin_config_def say_hash_def then_do_def
          split: option.splits if_splits dest: logs_Inr(1)[OF logs_fetch_cloud_metadata])
qed

lemma log_main_execs:
  assumes "log_main K E (start, []) = Some (w', c)" and "Ev_Exec img argv input \<in> set (w_trace w')"
  obtains args ls t where "argv = ''stage2'' # args" and "announced E img ls"
    and "c = ls @ [ktseprintln t (exec_line args)]"
proof -
  have quiet: "main E start = Some w'" using log_main_main(2)[OF assms(1)] by simp
  obtain raw w1 w2 args where doc: "document E start = (Inr raw, w1)"
    and resolved: "resolve_payload E raw w1 = Some (Inr (img, args, input), w2)" and argv: "argv = ''stage2'' # args"
    using quiet assms(2) by (rule main_execs) blast
  obtain r v c1 where inner: "log_main_inner K E (start, []) = Some (r, v, c1)"
    using assms(1) by (auto simp: log_main_def split: option.splits)
  have quiet_inner: "main_inner E start = Some (r, v)" by (rule plogs_Some(1)[OF plogs_main_inner inner])
  have "r = Inr Replaced"
  proof (rule ccontr)
    assume "r \<noteq> Inr Replaced"
    then consider e where "r = Inl e" | "r = Inr Returned" by (cases r; metis control.exhaust)
    then show False
    proof cases
      case (1 e)
      with quiet_inner have "appends quiet start v" using main_inner_fails by blast
      with quiet quiet_inner 1 assms(2) show False
        by (auto simp: main_def poweroff_def appends_def start_def dest: quiet_no_exec split: if_splits)
    next
      case 2
      with quiet_inner obtain report where "w_trace v = w_trace start @ [Ev_Attest (attest_nonce E), Ev_Print report]"
        using main_inner_Returned(2) by blast
      with quiet quiet_inner 2 assms(2) show False by (auto simp: main_def start_def)
    qed
  qed
  with inner assms(1) have run: "log_main_inner K E (start, []) = Some (Inr Replaced, w', c)" by (simp add: log_main_def)
  then obtain raw' w3 c3 where doc': "document E start = (Inr raw', w3)"
    and s2: "log_stage2 K E raw' (w3, c3) = Some (Inr Replaced, w', c)"
    by (rule log_main_inner_Replaced)
  from s2 obtain b args' d w4 ls t where "resolve_payload E raw' w3 = Some (Inr (b, args', d), w4)"
    and "announced E b ls" and "c = ls @ [ktseprintln t (exec_line args')]"
    by (rule log_stage2_Inr)
  with doc doc' resolved argv show thesis by (intro that) simp_all
qed

end
