(* ===== verification/Spec2Isabelle.thy ===== *)
theory Spec2Isabelle
  imports Tools_Correct Departures Unit_Tests Example_Stage2 Stage1_Log_Laws
begin

text \<open>
  A verification development for \<open>lockboot/stage1\<close>, the second link of a measured network boot chain
  and the tools that feed it. \<open>mkuki\<close> builds the unified kernel image that holds \<open>stage1\<close>; \<open>deploy\<close>
  signs or hashes the payloads and writes the directory and the \<open>user-data.json\<close> that are published;
  \<open>stage1\<close>, process 1 of that image, reads the document, downloads and admits the stage2 payload,
  measures it into PCR 14 and executes it. The crates \<open>metadata\<close> (the document and its admission
  rules) and \<open>ed25519-sign\<close> (signatures with a domain tag) are the contract between the two sides.

  Theories, in the order of their imports, with the code each one models (paths under
  \<open>src/crates/\<close>):

  \<^item> \<open>Prelude\<close>: results as sums (\<open>?\<close> is \<open>and_then\<close>), bytes, strings and the string methods of the
    standard library; \<open>Ordered_Map\<close>: \<open>BTreeMap\<close>, its interface a locale interpreted on sorted lists;
    \<open>Effects\<close>: computations over a state, with the locales \<open>frame_relation\<close> (what every step keeps)
    and \<open>first_success\<close>, \<open>framed_search\<close> (the loops over mirrors).
  \<^item> \<open>Json\<close>: \<open>serde_json::Value\<close>; \<open>Deps\<close>: the third-party crates as the record \<open>deps\<close>, with what the code
    relies on as laws (\<open>crate_laws\<close>).
  \<^item> \<open>Ed25519_Sign\<close>: \<open>ed25519-sign/src/lib.rs\<close>. \<open>Metadata\<close> and \<open>Metadata_Wire\<close>: \<open>metadata/src/lib.rs\<close>, the types
    and admission rules, and the serde readers and writers with the locale \<open>wire_codec\<close> interpreted
    for each type.
  \<^item> \<open>Stage1_World\<close>, \<open>Stage1_Fetch\<close>, \<open>Stage1_Merge\<close>, \<open>Stage1_Resolve\<close>, \<open>Stage1_Progress\<close>, \<open>Stage1_Boot\<close>:
    \<open>stage1/src/main.rs\<close>, from its environment (network, TPM, kernel: functions that may answer anything,
    depending on all that happened before) over downloads, the manifest merge and the resolution loop
    to the boot itself. \<open>Stage1_Console\<close>: the format of its log lines. \<open>Stage1_Log\<close>: the functions
    once more with the lines they write; \<open>Stage1_Log_Laws\<close>: that erasing the lines gives the quiet
    functions (the loops in the locale \<open>logged_search\<close>), and what is announced before an execution.
    \<open>Example_Stage2\<close>: \<open>example-stage2/src/main.rs\<close>, as the process that a boot becomes.
  \<^item> \<open>Cpio\<close>: \<open>mkuki/src/cpio.rs\<close>; \<open>Cpio_Tar\<close>: what an archive made from a tar stream contains.
    \<open>Uki\<close>: \<open>mkuki/src/uki.rs\<close>. \<open>Host\<close>: the files, commands and tools that \<open>mkuki\<close> and \<open>deploy\<close> use.
    \<open>Mkuki\<close>: \<open>mkuki/src/lib.rs\<close> and the run in \<open>mkuki/src/main.rs\<close>.
  \<^item> \<open>Deploy\<close>: \<open>deploy/src/main.rs\<close>; \<open>Deploy_Laws\<close>: its lemmas; \<open>Deploy_Boot\<close>: what \<open>deploy\<close> publishes,
    resolved by \<open>stage1\<close>; \<open>Deploy_Stage1\<close>: the first hop, from the document to the image; \<open>Deploy_Total\<close>:
    where \<open>create\<close> cannot fail; \<open>Deploy_Sequence\<close>: runs of the tools one after the other (\<open>mkuki\<close> then
    \<open>create\<close>, \<open>create\<close> then one that fails); \<open>Command_Lines\<close>: what \<open>clap\<close> is asked to refuse, and that no run
    it accepts panics; \<open>Deploy_Modify\<close>: \<open>modify\<close> as an edit of the typed document (locale
    \<open>reads_edited\<close>, interpreted for each type), and what it makes of a release;
    \<open>Deploy_Validate\<close>: that \<open>stage1\<close> does not refuse a document which \<open>validate\<close> accepts.
  \<^item> \<open>Demo\<close>, \<open>Demo_Host\<close>: a concrete machine and a concrete host at which the properties with hypotheses
    are applied. \<open>Unit_Tests\<close>: the \<open>#[cfg(test)]\<close> modules of four crates as executable definitions, and
    that they pass. \<open>Departures\<close>: where the tools depart from their documents. \<open>Tools_Correct\<close>: the
    properties of \<open>mkuki\<close> and \<open>deploy\<close>. This theory: the properties of \<open>stage1\<close> and the two crates, and
    those that go from one program to the other.

  State. Of \<open>stage1\<close>, the record \<open>world\<close>: the trace of events (requests, TPM calls, file writes, the
  execution, power-off), the in-memory files and what descriptor 0 refers to. Of the tools, the record
  \<open>files\<close>: contents and modes by path, commands run, lines printed. Every operation takes the state
  and returns it with a result, \<open>Inl\<close> an error value of the code's own kind, \<open>Inr\<close> the value. A panic is
  an error value too (\<open>stage1\<close> installs a hook that powers off just as an error does).

  What the lemmas show, by group.
  \<^item> Safety of the boot: whatever runs was admitted by a pin or a key of a trusted document, was measured
    and is exactly what was measured; it cannot be forged where signatures are unforgeable; a run that
    boots nothing powers off; no PCR but 14 is extended. \<open>trusted\<close> is the abstract specification of
    the manifest chain: an inductive predicate over documents and the hops that led to them. Where the
    payload is pinned, the document alone decides what is resolved. The console shows what runs, and
    logging decides nothing.
  \<^item> Liveness and termination: one honest mirror suffices, resolution ends when finitely many URLs are
    answered (and need not end otherwise), a cooperating machine boots, \<open>create\<close> succeeds on a willing host,
    and a release that it published boots, also after \<open>modify\<close> has moved it to other mirrors; in
    manifest mode not without the old ones, which the signed manifest keeps.
  \<^item> The document: validation is exactly the documented rules, and what it accepts \<open>stage1\<close> does not
    refuse where structs are objects; readers and writers are inverse, merging
    is described path by path, \<open>create\<close> and \<open>modify\<close> keep everything they do not mean to change,
    rewriting URLs refines editing the list of mirrors, and \<open>modify\<close> refines the edit of the typed
    document; the stage1 entry leads, through signatures of the right domains, to the published image,
    which is the one that was built. A failing \<open>create\<close> keeps the document, not the files it pins.
  \<^item> The image: the archive reads back as the finite map of the tree, or of the tar stream, and does not
    depend on the order of listing; the PE image has each section whole, findable, apart from the others
    in memory, keeps the stub, and building never indexes out of range on a sound stub.

  Bounds. There is no fuel: the resolution loop and \<open>write_all\<close> are partial functions whose value
  \<open>None\<close> is not returning, and their termination is proved. Machine integers are words where the code
  can wrap or truncate (\<open>u16\<close>, \<open>u32\<close>, \<open>u64\<close> fields of the two formats, \<open>align_up\<close>, device numbers);
  sums of a few 32-bit values in \<open>usize\<close> are naturals. Theorems about images bound section data by 4 GiB
  and the stub by a header that its linker makes (\<open>sound_stub\<close>).

  Not modelled, and why: a write to the console that fails (it panics, which powers off); the wall clock
  and the text of errors, parameters of the log lines; the parsing of arguments by \<open>clap\<close> and of \<open>RUST_LOG\<close>
  by \<open>tracing\<close>, and the output of the latter (what \<open>clap\<close> refuses is modelled); the directory walk, the tar
  and gzip readers and writers, HTTP, TLS and the TPM quote format, which are libraries, so parameters
  here; the two unit tests that pin bytes of SHA-256 and Ed25519, for the same reason. Paths are strings:
  two spellings of one file, and links, are not identified. That the kernel unpacks concatenated archives
  in order is not part of the sources.
\<close>

section \<open>From release to boot\<close>

text \<open>
  C2. A release that is published boots. After a successful \<open>deploy create\<close> for an architecture, if the
  mirrors serve the files it wrote, a cooperating machine of that architecture that receives the
  \<open>user-data.json\<close> it wrote (from wherever it takes its document) runs \<open>stage1\<close> to the execution of exactly
  the published stage2 file, with the arguments that were given; a directly admitted payload finds the
  document on its standard input, byte for byte. This is for every mode (pinned, signed, signed
  arguments, signed manifest).
\<close>

theorem created_release_boots:
  assumes "create H a fs = (Inr u, fs')" and "c_arch a \<in> {''x86_64'', ''aarch64''}"
    and "\<forall>b \<in> set (x_bases (create_ctx a)). brace_free b" and "crate_laws (h_deps H)"
    and "\<And>doc. old_doc H a fs = Some doc \<Longrightarrow> printable doc"
    and "env_deps E = h_deps H" and "arch_key E = c_arch a"
    and "hosts E (x_bases (create_ctx a)) (c_arch a) (published a fs')"
    and "cooperates E" and "\<not> wants_report E"
    and "f_data fs' (ud_path a) = Some raw" and "document E start = (Inr raw, w1)"
    and "\<not> list_ex has_nul (default_args (given_args H a))"
  shows "\<exists>es b input w'. published a fs' ''stage2'' = Some b \<and> main E start = Some w'
    \<and> w_trace w' = es @ [Ev_Exec b (''stage2'' # default_args (given_args H a)) input]
    \<and> (\<not> c_manifest a \<longrightarrow> input = raw)"
proof -
  have plain: "plain_arch (c_arch a)" "brace_free (c_arch a)"
    using assms(2) by (auto simp: plain_arch_def brace_free_def)
  obtain b input w2 where b: "published a fs' ''stage2'' = Some b"
    and run: "resolve_payload E raw w1 = Some (Inr (b, default_args (given_args H a), input), w2)"
    and direct: "\<not> c_manifest a \<longrightarrow> input = raw"
    using create_resolves[OF assms(1) plain assms(3,6,4,7,8,5), of w1] assms(11) by auto
  from main_boots_last[OF assms(9,10,12) run assms(13)] b direct show ?thesis by blast
qed

theorem created_release_boots_witness:
  "\<exists>fs' raw es b input w'. create demo_host demo_create demo_files = (Inr (), fs')
    \<and> f_data fs' ''out/user-data.json'' = Some raw
    \<and> main (booting_env [''http://h''] (published demo_create fs') raw) start = Some w'
    \<and> w_trace w' = es @ [Ev_Exec b [''stage2''] input]"
proof -
  obtain fs' where run: "create demo_host demo_create demo_files = (Inr (), fs')" using demo_create_runs by blast
  have laws: "crate_laws (h_deps demo_host)" using host_laws by (simp add: demo_host_simps)
  have arch: "c_arch demo_create \<in> {''x86_64'', ''aarch64''}" "c_arch demo_create = ''x86_64''"
    by (simp_all add: demo_create_def)
  have old: "printable doc \<and> sound_doc (h_deps demo_host) doc" if "old_doc demo_host demo_create demo_files = Some doc" for doc
    using that sound_doc_empty by (auto simp: demo_old_doc printable_def)
  obtain raw ud where raw: "f_data fs' (ud_path demo_create) = Some raw" "user_data_from_slice (h_deps demo_host) raw = Some ud"
    using created_document_sound[OF run arch(1) laws old] by blast
  have plain: "plain_arch (c_arch demo_create)" by (simp add: demo_create_def plain_arch_def)
  obtain doc' where "f_data fs' (ud_path demo_create) = Some (print_doc (h_deps demo_host) doc')"
    using run plain by (rule create_Inr)
  with raw(1) have full: "raw \<noteq> []" by (auto simp: print_doc_def)
  let ?E = "booting_env [''http://h''] (published demo_create fs') raw"
  note facts = booting_env_facts
  have doc: "document ?E start = (Inr raw, start)" "\<not> wants_report ?E"
    using raw(2) by (intro piped_document[OF facts(5)[OF full]]; simp add: facts(3) demo_host_simps)+
  have bases: "x_bases (create_ctx demo_create) = [''http://h'']" by (simp add: demo_ctx)
  have args: "default_args (given_args demo_host demo_create) = []"
    by (simp add: given_args_def demo_create_def default_args_def)
  have "\<exists>es b input w'. published demo_create fs' ''stage2'' = Some b \<and> main ?E start = Some w'
    \<and> w_trace w' = es @ [Ev_Exec b (''stage2'' # default_args (given_args demo_host demo_create)) input]
    \<and> (\<not> c_manifest demo_create \<longrightarrow> input = raw)"
  proof (rule created_release_boots[OF run arch(1)])
    show "\<forall>b \<in> set (x_bases (create_ctx demo_create)). brace_free b" by (simp add: bases brace_free_def)
    show "printable doc" if "old_doc demo_host demo_create demo_files = Some doc" for doc using old[OF that] by simp
    show "hosts ?E (x_bases (create_ctx demo_create)) (c_arch demo_create) (published demo_create fs')"
      unfolding bases arch(2) by (rule facts(1)) (simp_all add: demo_servers_def)
  qed (use laws raw(1) doc facts(2-4) arch(2) in \<open>simp_all add: demo_host_simps args\<close>)
  with run raw(1) show ?thesis unfolding args demo_ud_path by blast
qed

text \<open>
  C5. A release can move to other mirrors. After \<open>deploy modify\<close> has edited the document that \<open>create\<close>
  wrote (bases are a scheme and a host, at least one is left), a cooperating machine that receives the
  edited document still executes exactly the published stage2 file with the arguments given, when the
  files are served at the edited bases. A release in manifest mode needs the old bases too: they are
  what the signed manifest names.
\<close>

theorem modified_release_boots:
  assumes "create H a fs = (Inr u, fs1)" and "modify H m fs1 = (Inr u', fs')"
    and "doc_path H (o_path m) = ud_path a" and "c_arch a \<in> {''x86_64'', ''aarch64''}" and "crate_laws (h_deps H)"
    and "\<And>doc. old_doc H a fs = Some doc \<Longrightarrow> printable doc"
    and "\<forall>b \<in> set (x_bases (create_ctx a)). host_base b \<and> brace_free b"
    and "\<forall>b \<in> set (given_bases (o_add m)). host_base b \<and> graphic b \<and> brace_free b"
    and "\<forall>b \<in> set (given_bases (o_remove m)). host_base b" and "new_bases a m \<noteq> []"
    and "env_deps E = h_deps H" and "arch_key E = c_arch a"
    and "hosts E (new_bases a m) (c_arch a) (published a fs')"
    and "c_manifest a \<Longrightarrow> hosts E (x_bases (create_ctx a)) (c_arch a) (published a fs')"
    and "cooperates E" and "\<not> wants_report E"
    and "f_data fs' (ud_path a) = Some raw" and "document E start = (Inr raw, w1)"
    and "\<not> list_ex has_nul (default_args (given_args H a))"
  shows "\<exists>es b input w'. published a fs' ''stage2'' = Some b \<and> main E start = Some w'
    \<and> w_trace w' = es @ [Ev_Exec b (''stage2'' # default_args (given_args H a)) input]
    \<and> (\<not> c_manifest a \<longrightarrow> input = raw)"
proof -
  have plain: "plain_arch (c_arch a)" "brace_free (c_arch a)"
    using assms(4) by (auto simp: plain_arch_def brace_free_def)
  obtain b input w2 where "published a fs' ''stage2'' = Some b" "\<not> c_manifest a \<longrightarrow> input = raw"
    and run: "resolve_payload E raw w1 = Some (Inr (b, default_args (given_args H a), input), w2)"
    using modified_resolves[OF assms(1-3) plain assms(5-14), of w1] assms(17) by auto
  with main_boots_last[OF assms(15,16,18) run assms(19)] show ?thesis by blast
qed

theorem modified_release_boots_witness:
  "\<exists>fs1 fs' raw es b input w'. create demo_host demo_create demo_files = (Inr (), fs1)
    \<and> modify demo_host demo_move fs1 = (Inr (), fs') \<and> f_data fs' ''out/user-data.json'' = Some raw
    \<and> main (booting_env [''http://h'', ''http://h2''] (published demo_create fs') raw) start = Some w'
    \<and> w_trace w' = es @ [Ev_Exec b [''stage2''] input]"
proof -
  obtain fs1 where run: "create demo_host demo_create demo_files = (Inr (), fs1)" using demo_create_runs by blast
  obtain fs' where moved: "modify demo_host demo_move fs1 = (Inr (), fs')" using demo_move_runs[OF run] by blast
  obtain raw where raw: "f_data fs' (ud_path demo_create) = Some raw" "user_data_from_slice host_deps raw \<noteq> None" "raw \<noteq> []"
    using demo_moved_document[OF run moved] by blast
  let ?E = "booting_env [''http://h'', ''http://h2''] (published demo_create fs') raw"
  note facts = booting_env_facts and move = demo_move_facts
  have doc: "document ?E start = (Inr raw, start)" "\<not> wants_report ?E"
    using raw(2) by (intro piped_document[OF facts(5)[OF raw(3)]]; simp add: facts(3))+
  have old: "printable doc" if "old_doc demo_host demo_create demo_files = Some doc" for doc
    using that by (auto simp: demo_old_doc printable_def)
  have arch: "c_arch demo_create = ''x86_64''" by (simp add: demo_create_def)
  have bases: "x_bases (create_ctx demo_create) = [''http://h'']" by (simp add: demo_ctx)
  have args: "default_args (given_args demo_host demo_create) = []"
    by (simp add: given_args_def demo_create_def default_args_def)
  have "\<exists>es b input w'. published demo_create fs' ''stage2'' = Some b \<and> main ?E start = Some w'
    \<and> w_trace w' = es @ [Ev_Exec b (''stage2'' # default_args (given_args demo_host demo_create)) input]
    \<and> (\<not> c_manifest demo_create \<longrightarrow> input = raw)"
  proof (rule modified_release_boots[OF run moved move(1)])
    show "hosts ?E (x_bases (create_ctx demo_create)) (c_arch demo_create) (published demo_create fs')"
      "hosts ?E (new_bases demo_create demo_move) (c_arch demo_create) (published demo_create fs')"
      unfolding bases arch move(4) by (rule facts(1); simp add: demo_servers_def)+
  qed (use old host_laws raw(1) doc facts(2-4) arch move in \<open>simp_all add: demo_host_simps args bases\<close>)
  with run moved raw(1) show ?thesis unfolding args demo_ud_path by blast
qed

text \<open>
  C9. A signed manifest keeps its mirrors. \<open>modify\<close> edits the pointer to the manifest but cannot edit the
  manifest, which was signed with the URLs of the mirrors of its day. Once no old mirror answers for the
  payload, resolving the edited document fails, although every file of the release is served at the
  edited bases.
\<close>

theorem signed_manifest_keeps_its_mirrors:
  assumes "create H a fs = (Inr u, fs1)" and "modify H m fs1 = (Inr u', fs')"
    and "doc_path H (o_path m) = ud_path a" and "c_arch a \<in> {''x86_64'', ''aarch64''}" and "crate_laws (h_deps H)"
    and "\<And>doc. old_doc H a fs = Some doc \<Longrightarrow> printable doc"
    and "c_manifest a" and "\<forall>b \<in> set (x_bases (create_ctx a)). host_base b"
    and "\<forall>b \<in> set (given_bases (o_add m)). host_base b \<and> graphic b"
    and "\<forall>b \<in> set (given_bases (o_remove m)). host_base b" and "new_bases a m \<noteq> []"
    and "env_deps E = h_deps H" and "arch_key E = c_arch a"
    and "hosts E (new_bases a m) (c_arch a) (published a fs')"
    and "\<forall>b \<in> set (x_bases (create_ctx a)). compose_url (c_arch a) ''stage2'' b \<notin> answered_urls E"
  shows "\<exists>raw. f_data fs' (ud_path a) = Some raw \<and> (\<forall>w. \<exists>e w'. resolve_payload E raw w = Some (Inl e, w'))"
proof -
  have "plain_arch (c_arch a)" using assms(4) by (auto simp: plain_arch_def)
  from modified_stranded[OF assms(1-3) this assms(5-15)] show ?thesis by (metis option.inject)
qed

theorem signed_manifest_keeps_its_mirrors_witness:
  "\<exists>fs1 fs' raw e w'. create demo_host demo_create demo_files = (Inr (), fs1)
    \<and> modify demo_host demo_move fs1 = (Inr (), fs') \<and> f_data fs' ''out/user-data.json'' = Some raw
    \<and> resolve_payload (booting_env [''http://h2''] (published demo_create fs') []) raw start = Some (Inl e, w')"
proof -
  obtain fs1 where run: "create demo_host demo_create demo_files = (Inr (), fs1)" using demo_create_runs by blast
  obtain fs' where moved: "modify demo_host demo_move fs1 = (Inr (), fs')" using demo_move_runs[OF run] by blast
  let ?E = "booting_env [''http://h2''] (published demo_create fs') []"
  note facts = booting_env_facts and move = demo_move_facts
  have old: "printable doc" if "old_doc demo_host demo_create demo_files = Some doc" for doc
    using that by (auto simp: demo_old_doc printable_def)
  have arch: "c_arch demo_create = ''x86_64''" "c_manifest demo_create" by (simp_all add: demo_create_def)
  have bases: "x_bases (create_ctx demo_create) = [''http://h'']" by (simp add: demo_ctx)
  have "\<exists>raw. f_data fs' (ud_path demo_create) = Some raw \<and> (\<forall>w. \<exists>e w'. resolve_payload ?E raw w = Some (Inl e, w'))"
  proof (rule signed_manifest_keeps_its_mirrors[OF run moved move(1)])
    show "hosts ?E (new_bases demo_create demo_move) (c_arch demo_create) (published demo_create fs')"
      unfolding arch move(4) by (rule facts(1); simp add: demo_servers_def)
    show "\<forall>b \<in> set (x_bases (create_ctx demo_create)). compose_url (c_arch demo_create) ''stage2'' b \<notin> answered_urls ?E"
      unfolding bases arch using facts(6) by simp
  qed (use old host_laws facts(3,4) arch move in \<open>simp_all add: demo_host_simps bases\<close>)
  with run moved show ?thesis unfolding demo_ud_path by blast
qed

section \<open>stage1: what a boot guarantees\<close>

text \<open>
  C1. Only an admitted payload is ever executed. Whatever the network, the TPM and the kernel
  answer, if a run of \<open>main\<close> executes an image, then the image was admitted by the pin or the key of
  a payload entry of a trusted document (the document received, with manifests merged that verified
  under the keys that pin them), its arguments are that payload's (or the signed ones), and its
  standard input is that document.
\<close>

theorem executed_payload_is_admitted:
  assumes "main E start = Some w'" and "Ev_Exec img argv input \<in> set (w_trace w')"
  shows "\<exists>raw w1 doc history p sargs.
    document E start = (Inr raw, w1) \<and> trusted E raw doc history
    \<and> doc_entry E doc = Some (Payload_Entry p) \<and> payload_allowed (env_deps E) Stage1 p
    \<and> payload_admitted E (mode_of p) img sargs
    \<and> argv = ''stage2'' # final_args p sargs \<and> delivered E raw doc history input"
  using assms
proof (cases rule: main_execs)
  case (1 raw w1 w2 args reqs report)
  from 1(2) obtain doc history p sargs where "trusted E raw doc history"
    "doc_entry E doc = Some (Payload_Entry p)" "payload_allowed (env_deps E) Stage1 p"
    "payload_admitted E (mode_of p) img sargs" "args = final_args p sargs"
    "delivered E raw doc history input"
    by (rule resolve_payload_sound)
  with 1(1,3) show ?thesis by auto
qed

theorem executed_payload_is_admitted_witness:
  "\<exists>raw w1 doc history p sargs.
    document delegating_env start = (Inr raw, w1) \<and> trusted delegating_env raw doc history
    \<and> doc_entry delegating_env doc = Some (Payload_Entry p)
    \<and> payload_allowed (env_deps delegating_env) Stage1 p
    \<and> payload_admitted delegating_env (mode_of p) demo_binary sargs
    \<and> [''stage2''] = ''stage2'' # final_args p sargs \<and> delivered delegating_env raw doc history [9]"
  using delegating_boots executed_payload_is_admitted by blast

text \<open>
  C3. Measure, then execute exactly what was measured. A run that executes an image makes network
  requests, then (as root) quotes over the image's digest, stores the quote and extends PCR 14 with
  that digest, then executes; the image is a sealed in-memory file with those bytes, and standard
  input is a second file with the document.
\<close>

theorem measured_then_executed:
  assumes "main E start = Some w'" and "Ev_Exec img argv input \<in> set (w_trace w')"
  shows "\<exists>reqs report exe conf.
    w_trace w' = map Ev_Request reqs
      @ (if env_uid E = 0
         then [Ev_Attest (sha256_digest (env_deps E) img), Ev_Write_File ''/tmp/stage1.attest'' report,
               Ev_Extend 14 (sha256_digest (env_deps E) img)]
         else [])
      @ [Ev_Exec img argv input]
    \<and> w_files w' = [exe, conf] \<and> mf_sealed exe \<and> mf_data exe = img \<and> mf_data conf = input"
  using assms by (elim main_execs) (auto simp: measurement_def Let_def)

theorem measured_then_executed_witness:
  "\<exists>w' reqs report. main pinned_env start = Some w' \<and> w_trace w' = map Ev_Request reqs
      @ [Ev_Attest (pad 32 demo_binary), Ev_Write_File ''/tmp/stage1.attest'' report,
         Ev_Extend 14 (pad 32 demo_binary), Ev_Exec demo_binary [''stage2'', ''-v''] [5]]"
proof -
  obtain w' where run: "main pinned_env start = Some w'"
    and exec: "Ev_Exec demo_binary [''stage2'', ''-v''] [5] \<in> set (w_trace w')"
    using pinned_boots by blast
  from measured_then_executed[OF run exec] run show ?thesis
    by (auto simp: pinned_env_def demo_env_def demo_deps_def)
qed

text \<open>
  C8. Fail closed. A run that is not asked for a report either ends by executing a payload, or it
  executes nothing and ends by powering the machine off (as process 1) or exiting with status 1.
\<close>

theorem boots_or_powers_off:
  assumes "main E start = Some w'" and "\<not> wants_report E"
  shows "(\<exists>es img argv input. w_trace w' = es @ [Ev_Exec img argv input])
    \<or> (\<exists>es. w_trace w' = es @ (if env_pid E = 1 then [Ev_Sync, Ev_Power_Off] else [Ev_Exit 1])
          \<and> (\<forall>img argv input. Ev_Exec img argv input \<notin> set (w_trace w')))"
  using assms(1)
proof (cases rule: main_ends)
  case (execs raw w1 w2 binary args stdin_doc reqs report)
  then show ?thesis by (metis append.assoc)
next
  case (reports report)
  with assms(2) show ?thesis by simp
next
  case (fails es)
  then show ?thesis by (auto dest: quiet_no_exec)
qed

theorem boots_or_powers_off_witness:
  "\<exists>w'. main (demo_env [] [] [1]) start = Some w' \<and> w_trace w' = [Ev_Sync, Ev_Power_Off]
    \<and> ((\<exists>es img argv input. w_trace w' = es @ [Ev_Exec img argv input])
       \<or> (\<exists>es. w_trace w' = es @ [Ev_Sync, Ev_Power_Off]
             \<and> (\<forall>img argv input. Ev_Exec img argv input \<notin> set (w_trace w'))))"
proof -
  have failing: "main (demo_env [] [] [1]) start = Some (poweroff (demo_env [] [] [1]) start)"
    "\<not> wants_report (demo_env [] [] [1])" "env_pid (demo_env [] [] [1]) = 1"
    by (simp_all add: main_def main_inner_def then_may_def may_def stdin_config_def
        parse_json_to_config_def demo_env_def demo_deps_def wants_report_def)
  show ?thesis using boots_or_powers_off[OF failing(1,2)] failing(1,3)
    by (simp add: poweroff_def start_def)
qed




text \<open>No run extends a PCR other than 14.\<close>

theorem only_pcr_14_is_extended:
  assumes "main E start = Some w'" and "Ev_Extend pcr digest \<in> set (w_trace w')"
  shows "pcr = 14"
  using assms(1)
proof (cases rule: main_ends)
  case (execs raw w1 w2 binary args stdin_doc reqs report)
  with assms(2) show ?thesis by (auto simp: measurement_def Let_def split: if_splits)
next
  case (reports report)
  with assms(2) show ?thesis by simp
next
  case (fails es)
  with assms(2) show ?thesis by (auto simp: list_all_iff split: if_splits)
qed

theorem only_pcr_14_is_extended_witness:
  "\<exists>w'. main pinned_env start = Some w' \<and> (\<exists>pcr digest. Ev_Extend pcr digest \<in> set (w_trace w') \<and> pcr = 14)"
proof -
  obtain w' where run: "main pinned_env start = Some w'"
    and exec: "Ev_Exec demo_binary [''stage2'', ''-v''] [5] \<in> set (w_trace w')"
    using pinned_boots by blast
  have "Ev_Extend 14 (pad 32 demo_binary) \<in> set (w_trace w')"
    using run exec by (elim main_execs) (auto simp: measurement_def Let_def pinned_env_def demo_env_def demo_deps_def)
  with only_pcr_14_is_extended[OF run this] run show ?thesis by blast
qed



text \<open>
  C13. A machine that cooperates boots: where the kernel and the TPM do what they are asked (writes
  may be partial) and resolution gives a payload whose arguments have no NUL, the payload is executed.
\<close>

theorem cooperating_machine_boots:
  assumes "cooperates E" and "\<not> wants_report E" and "document E start = (Inr raw, w1)"
    and "resolve_payload E raw w1 = Some (Inr (binary, args, input), w2)"
    and "\<not> list_ex has_nul args"
  shows "\<exists>es w'. main E start = Some w' \<and> w_trace w' = es @ [Ev_Exec binary (''stage2'' # args) input]"
proof -
  obtain w' where run: "main E start = Some w'"
    and exec: "Ev_Exec binary (''stage2'' # args) input \<in> set (w_trace w')"
    using main_boots[OF assms] by blast
  from run exec run show ?thesis by (auto elim!: exec_is_last)
qed

theorem cooperating_machine_boots_witness:
  "\<exists>es w'. main delegating_env start = Some w' \<and> w_trace w' = es @ [Ev_Exec demo_binary [''stage2''] [9]]"
proof -
  obtain w2 where resolved: "resolve_payload delegating_env [7] start = Some (Inr (demo_binary, [], [9]), w2)"
    using delegating_resolves by auto
  have coop: "cooperates delegating_env" by (simp add: delegating_env_def demo_cooperates)
  show ?thesis
    by (rule cooperating_machine_boots[OF coop demo_no_report(2) demo_documents(2) resolved]) simp
qed

section \<open>stage1: resolving the payload\<close>

text \<open>What the resolution of a directly admitted, pinned payload can be.\<close>

lemma str_lower_hex: "str_lower (hex_lower b) = hex_lower b"
proof -
  have "\<forall>k \<in> set [0..<16]. ascii_lower (hex_digit k) = hex_digit k"
    by code_simp
  then have "ascii_lower (hex_digit (n mod 16)) = hex_digit (n mod 16)" for n by simp
  then have "ascii_lower (hex_digit n) = hex_digit n" for n by (simp add: hex_digit_def)
  then show ?thesis by (induction b) (simp_all add: str_lower_def hex_lower_def hex_byte_def)
qed

lemma direct_pinned_payload:
  assumes "value_from_slice (env_deps E) raw_json = Some doc" and "doc_entry E doc = Some (Payload_Entry p)"
    and "p_sha256 p = Some pin" and "hex_law (env_deps E)"
    and "resolve_payload E raw_json w = Some (Inr (binary, args, input), w')"
  shows "hex_lower (sha256_digest (env_deps E) binary) = str_lower pin"
    and "args = (case p_args p of None \<Rightarrow> [] | Some a \<Rightarrow> a)" and "input = raw_json"
proof -
  from resolve_payload_direct[OF assms(1,2,5)] obtain sargs where
    admitted: "payload_admitted E (mode_of p) binary sargs" and args: "args = final_args p sargs"
    and input: "delivered E raw_json doc [] input"
    by (rule resolve_step_Return) (use assms(2) in auto)
  have "matches_pin E pin binary" "sargs = None"
    using admitted assms(3) by (simp_all add: payload_admitted_def mode_of_def)
  then show "hex_lower (sha256_digest (env_deps E) binary) = str_lower pin"
    and "args = (case p_args p of None \<Rightarrow> [] | Some a \<Rightarrow> a)" and "input = raw_json"
    using assms(4) args input
    by (auto simp: matches_pin_def hex_sha256_def hex_law_def final_args_def delivered_def str_lower_hex split: option.splits)
qed

text \<open>
  C4. Against a forger. Suppose every key signs only what its holder signed (\<open>S pk\<close>), SHA-256 keeps
  the domain tags apart, and the network is arbitrary. Then the binary that resolution returns is the
  one a trusted document pins by digest, or has the digest of a message that the holder of the key in
  the trusted document signed as a payload; a signature over a manifest, arguments or a UKI never
  admits it.
\<close>

theorem payload_cannot_be_forged:
  assumes "resolve_payload E raw_json w = Some (Inr (binary, args, input), w')"
    and "\<And>pk. only_signs (env_deps E) pk (S pk)"
    and "sha256_law (env_deps E)" and "tags_separate (env_deps E)"
  shows "\<exists>doc history p. trusted E raw_json doc history \<and> doc_entry E doc = Some (Payload_Entry p)
    \<and> ((\<exists>pin. p_sha256 p = Some pin \<and> matches_pin E pin binary)
       \<or> (\<exists>pk. p_ed25519 p = Some pk \<and> signed_in E (S pk) Stage2Payload binary))"
  using assms(1)
proof (rule resolve_payload_sound)
  fix doc history p sargs
  assume doc: "trusted E raw_json doc history" "doc_entry E doc = Some (Payload_Entry p)"
    and allowed: "payload_allowed (env_deps E) Stage1 p"
    and admitted: "payload_admitted E (mode_of p) binary sargs"
  show ?thesis
  proof (cases "p_sha256 p")
    case (Some pin)
    with doc admitted show ?thesis by (auto simp: payload_admitted_def mode_of_def)
  next
    case None
    with allowed obtain pk where pk: "p_ed25519 p = Some pk" by (auto simp: payload_allowed_def)
    with None admitted have "signed_by E pk Stage2Payload binary"
      by (simp add: payload_admitted_def mode_of_def)
    then have "signed_in E (S pk) Stage2Payload binary"
      using assms(2-4) by (rule signed_by_signed_in)
    with doc pk show ?thesis by blast
  qed
qed

theorem payload_cannot_be_forged_witness:
  "\<exists>doc history p. trusted guarded_env [7] doc history \<and> doc_entry guarded_env doc = Some (Payload_Entry p)
    \<and> ((\<exists>pin. p_sha256 p = Some pin \<and> matches_pin guarded_env pin demo_binary)
       \<or> (\<exists>pk. p_ed25519 p = Some pk
             \<and> signed_in guarded_env {(Stage2Payload, demo_binary), (Stage2Manifest, [8])} Stage2Payload demo_binary))"
proof -
  obtain w2 where "resolve_payload guarded_env [7] start = Some (Inr (demo_binary, [], [9]), w2)"
    using guarded_resolves by auto
  then show ?thesis
    by (rule payload_cannot_be_forged[where S = "\<lambda>_. {(Stage2Payload, demo_binary), (Stage2Manifest, [8])}"])
       (rule guarded_signs guarded_laws)+
qed

text \<open>
  C11. The provenance handed to the payload is the verifier's. When manifests were followed, standard
  input is a document whose \<open>_stage2.<arch>.resolved_manifests\<close> reads back as exactly the hops that
  were followed, whatever a manifest put there: distinct (URL, digest) pairs, each the digest of bytes
  that verified as a manifest under the key recorded. Everything outside \<open>_stage2\<close> is the merged
  document's.
\<close>

theorem resolved_manifests_are_authoritative:
  assumes "resolve_payload E raw_json w = Some (Inr (binary, args, input), w')"
    and "value_from_slice (env_deps E) raw_json = Some doc0"
    and "\<And>p. doc_entry E doc0 \<noteq> Some (Payload_Entry p)"
  shows "\<exists>doc history doc' e. trusted E raw_json doc history \<and> history \<noteq> []
    \<and> input = json_compact (env_deps E) doc'
    \<and> arch_value (arch_key E) doc' = Some (JObj e)
    \<and> Option.bind (bt_get e ''resolved_manifests'') (de_list de_manifest_ref) = Some history
    \<and> distinct (map (\<lambda>r. (urls (m_url r), m_sha256 r)) history)
    \<and> (\<forall>r \<in> set history. \<exists>b. m_sha256 r = Some (hex_sha256 E b) \<and> signed_by E (m_ed25519 r) Stage2Manifest b)
    \<and> (\<forall>k. k \<noteq> ''_stage2'' \<longrightarrow> get doc' k = get doc k)"
  using assms(1)
proof (rule resolve_payload_sound)
  fix doc history p sargs
  assume doc: "trusted E raw_json doc history" "doc_entry E doc = Some (Payload_Entry p)"
    and input: "delivered E raw_json doc history input"
  have "history \<noteq> []"
    using doc assms(2,3) by (auto elim: trusted.cases)
  moreover from input this obtain doc' e where "input = json_compact (env_deps E) doc'"
    "arch_value (arch_key E) doc' = Some (JObj e)"
    "Option.bind (bt_get e ''resolved_manifests'') (de_list de_manifest_ref) = Some history"
    "\<forall>k. k \<noteq> ''_stage2'' \<longrightarrow> get doc' k = get doc k"
    by (rule delivered_history) blast
  moreover have "distinct (map (\<lambda>r. (urls (m_url r), m_sha256 r)) history)"
    using trusted_distinct[OF doc(1)] by (simp add: hop_key_def[abs_def])
  ultimately show ?thesis
    using doc(1) trusted_verified[OF doc(1)] unfolding verified_hop_def by blast
qed

theorem resolved_manifests_are_authoritative_witness:
  "\<exists>doc history doc' e. trusted delegating_env [7] doc history \<and> history \<noteq> []
    \<and> [9] = json_compact (env_deps delegating_env) doc'
    \<and> arch_value ''x86_64'' doc' = Some (JObj e)
    \<and> Option.bind (bt_get e ''resolved_manifests'') (de_list de_manifest_ref) = Some history"
proof -
  obtain w2 where resolved: "resolve_payload delegating_env [7] start = Some (Inr (demo_binary, [], [9]), w2)"
    using delegating_resolves by auto
  have doc0: "value_from_slice (env_deps delegating_env) [7] = Some delegating_doc" by code_simp
  have entry: "doc_entry delegating_env delegating_doc \<noteq> Some (Payload_Entry p)" for p
    by (simp add: demo_entries)
  have "arch_key delegating_env = ''x86_64''" by code_simp
  with resolved_manifests_are_authoritative[OF resolved doc0 entry] show ?thesis by auto
qed

text \<open>
  A document whose entry is a payload is delivered byte for byte: nothing is merged, stamped or
  re-printed.
\<close>

theorem direct_payload_gets_the_received_bytes:
  assumes "value_from_slice (env_deps E) raw_json = Some doc" and "doc_entry E doc = Some (Payload_Entry p)"
    and "resolve_payload E raw_json w = Some (Inr (binary, args, input), w')"
  shows "input = raw_json \<and> (\<exists>sargs. payload_admitted E (mode_of p) binary sargs \<and> args = final_args p sargs)"
  using resolve_payload_direct[OF assms]
proof (rule resolve_step_Return)
  fix q sargs
  assume "doc_entry E doc = Some (Payload_Entry q)" "payload_admitted E (mode_of q) binary sargs"
    "args = final_args q sargs" "delivered E raw_json doc [] input"
  with assms(2) show ?thesis by (auto simp: delivered_def)
qed

theorem direct_payload_gets_the_received_bytes_witness:
  "\<exists>p sargs. doc_entry pinned_env pinned_doc = Some (Payload_Entry p)
    \<and> payload_admitted pinned_env (mode_of p) demo_binary sargs \<and> [''-v''] = final_args p sargs"
proof -
  obtain w2 where resolved: "resolve_payload pinned_env [5] start = Some (Inr (demo_binary, [''-v''], [5]), w2)"
    using pinned_resolves by auto
  have doc: "value_from_slice (env_deps pinned_env) [5] = Some pinned_doc" by code_simp
  show ?thesis
    using direct_payload_gets_the_received_bytes[OF doc demo_entries(1) resolved] demo_entries(1) by blast
qed

text \<open>
  C36. Signed arguments. When the payload entry in force names \<open>args_url\<close>, the arguments executed are
  the strings of a JSON array whose bytes verified under the payload's key in the args domain, never
  the inline ones; without it they are the inline ones.
\<close>

theorem remote_arguments_are_signed:
  assumes "resolve_payload E raw_json w = Some (Inr (binary, args, input), w')"
  shows "\<exists>doc history p. trusted E raw_json doc history \<and> doc_entry E doc = Some (Payload_Entry p)
    \<and> (case p_args_url p of
         None \<Rightarrow> args = (case p_args p of None \<Rightarrow> [] | Some a \<Rightarrow> a)
       | Some u \<Rightarrow> (\<exists>pk b. p_ed25519 p = Some pk \<and> signed_by E pk Stage2Args b
                      \<and> strings_from_slice (env_deps E) b = Some args))"
  using assms
proof (rule resolve_payload_sound)
  fix doc history p sargs
  assume "trusted E raw_json doc history" "doc_entry E doc = Some (Payload_Entry p)"
    and allowed: "payload_allowed (env_deps E) Stage1 p"
    and admitted: "payload_admitted E (mode_of p) binary sargs" and args: "args = final_args p sargs"
  moreover have "case p_args_url p of
         None \<Rightarrow> args = (case p_args p of None \<Rightarrow> [] | Some a \<Rightarrow> a)
       | Some u \<Rightarrow> (\<exists>pk b. p_ed25519 p = Some pk \<and> signed_by E pk Stage2Args b
                      \<and> strings_from_slice (env_deps E) b = Some args)"
  proof (cases "p_args_url p")
    case None
    with admitted have "sargs = None"
      by (auto simp: payload_admitted_def mode_of_def split: option.splits)
    with None args show ?thesis by (simp add: final_args_def)
  next
    case (Some u)
    with allowed obtain pk where pk: "p_sha256 p = None" "p_ed25519 p = Some pk"
      by (auto simp: payload_allowed_def)
    with Some admitted obtain a where "sargs = Some a" "args_admitted E pk a"
      by (auto simp: payload_admitted_def mode_of_def split: option.splits)
    with Some pk args show ?thesis by (auto simp: final_args_def args_admitted_def)
  qed
  ultimately show ?thesis by blast
qed

theorem remote_arguments_are_signed_witness:
  "\<exists>doc history p. trusted pinned_env [6] doc history \<and> doc_entry pinned_env doc = Some (Payload_Entry p)
    \<and> (case p_args_url p of
         None \<Rightarrow> [''-x''] = (case p_args p of None \<Rightarrow> [] | Some a \<Rightarrow> a)
       | Some u \<Rightarrow> (\<exists>pk b. p_ed25519 p = Some pk \<and> signed_by pinned_env pk Stage2Args b
                      \<and> strings_from_slice (env_deps pinned_env) b = Some [''-x'']))"
proof -
  obtain w2 where "resolve_payload pinned_env [6] start = Some (Inr (demo_binary, [''-x''], [6]), w2)"
    using remote_args_resolves by auto
  then show ?thesis by (rule remote_arguments_are_signed)
qed

text \<open>
  C6. The document decides, the network does not. Two machines of one architecture that received the same
  document with a payload pinned by digest, whatever their networks, TPMs and kernels and whatever
  happened before, either resolve it to images of the same digest with the same arguments and the same
  standard input, or one of them fails: nobody on the way can choose among payloads.
\<close>

theorem document_decides_the_payload:
  assumes "value_from_slice (env_deps E) raw_json = Some doc" and "doc_entry E doc = Some (Payload_Entry p)"
    and "p_sha256 p = Some pin" and "hex_law (env_deps E)"
    and "env_deps E' = env_deps E" and "arch_key E' = arch_key E"
    and "resolve_payload E raw_json w = Some (Inr (binary, args, input), w1)"
    and "resolve_payload E' raw_json w' = Some (Inr (binary', args', input'), w1')"
  shows "sha256_digest (env_deps E) binary' = sha256_digest (env_deps E) binary
    \<and> args' = (case p_args p of None \<Rightarrow> [] | Some a \<Rightarrow> a) \<and> args' = args \<and> input' = raw_json \<and> input' = input"
proof -
  note one = direct_pinned_payload[OF assms(1-4,7)]
  have "doc_entry E' doc = Some (Payload_Entry p)" using assms(2,5,6) by (simp add: doc_entry_def)
  note two = direct_pinned_payload[OF _ this assms(3) _ assms(8), unfolded assms(5), OF assms(1,4)]
  have "hex_lower (sha256_digest (env_deps E) binary') = hex_lower (sha256_digest (env_deps E) binary)"
    using one(1) two(1) by simp
  then have "sha256_digest (env_deps E) binary' = sha256_digest (env_deps E) binary"
    by (metis option.inject unhex_hex_lower)
  with one two show ?thesis by simp
qed

theorem document_decides_the_payload_witness:
  "\<exists>binary args input w1.
    resolve_payload (pinned_env\<lparr>respond := (\<lambda>t q. Some \<lparr>resp_status = 200, resp_body = Some demo_binary\<rparr>)\<rparr>) [5] start
      = Some (Inr (binary, args, input), w1)
    \<and> sha256_digest (env_deps pinned_env) binary = pad 32 demo_binary \<and> args = [''-v''] \<and> input = [5]"
proof -
  let ?E = "pinned_env\<lparr>respond := (\<lambda>t q. Some \<lparr>resp_status = 200, resp_body = Some demo_binary\<rparr>)\<rparr>"
  obtain w1 where one: "resolve_payload pinned_env [5] start = Some (Inr (demo_binary, [''-v''], [5]), w1)"
    using pinned_resolves by auto
  have "map_option fst (resolve_payload ?E [5] start) = Some (Inr (demo_binary, [''-v''], [5]))" by code_simp
  then obtain w2 where two: "resolve_payload ?E [5] start = Some (Inr (demo_binary, [''-v''], [5]), w2)" by auto
  have doc: "value_from_slice (env_deps pinned_env) [5] = Some pinned_doc" by code_simp
  have "hex_law (env_deps pinned_env)" by (simp add: pinned_env_def demo_env_def demo_laws)
  moreover have "p_sha256 pinned_payload = Some (hex_lower (pad 32 demo_binary))" by (simp add: pinned_payload_def)
  moreover have "env_deps ?E = env_deps pinned_env" "arch_key ?E = arch_key pinned_env" by (simp_all add: arch_key_def)
  ultimately show ?thesis
    using document_decides_the_payload[OF doc demo_entries(1) _ _ _ _ one two] two
    by (auto simp: pinned_env_def demo_env_def demo_deps_def)
qed

text \<open>Resolution does nothing but make network requests, whether it succeeds or fails.\<close>

theorem resolution_only_makes_requests:
  assumes "resolve_payload E raw_json w = Some (r, w')"
  shows "\<exists>reqs. w' = w\<lparr>w_trace := w_trace w @ map Ev_Request reqs\<rparr>"
  using resolve_payload_only_requests[OF assms] by (simp add: only_requests_def)

theorem resolution_only_makes_requests_witness:
  "\<exists>r w' reqs. resolve_payload pinned_env [5] start = Some (r, w')
     \<and> w' = start\<lparr>w_trace := w_trace start @ map Ev_Request reqs\<rparr>"
proof -
  obtain w2 where resolved: "resolve_payload pinned_env [5] start = Some (Inr (demo_binary, [''-v''], [5]), w2)"
    using pinned_resolves by auto
  with resolution_only_makes_requests[OF resolved] show ?thesis by blast
qed

text \<open>
  C12. Resolution returns when the servers answer finitely many URLs: digests have 32 bytes and the
  cycle check refuses a (URL, digest) pair it has followed before.
\<close>

theorem resolution_terminates:
  assumes "finite {req_url q | t q r. respond E t q = Some r}" and "sha256_law (env_deps E)"
  shows "\<exists>r w'. resolve_payload E raw_json w = Some (r, w')"
  using resolve_payload_returns[OF _ assms(2)] assms(1) by (simp add: answered_urls_def)

theorem resolution_terminates_witness:
  "\<exists>r w'. resolve_payload (two_page_env) [7] start = Some (r, w')"
proof (rule resolution_terminates)
  have "{req_url q | t q r. respond two_page_env t q = Some r} \<subseteq> fst ` set demo_site"
    by (auto simp: two_page_env_def split: if_splits)
  then show "finite {req_url q | t q r. respond two_page_env t q = Some r}"
    using finite_subset by blast
  show "sha256_law (env_deps two_page_env)" 
    by (simp add: two_page_env_def delegating_env_def demo_env_def demo_laws)
qed

text \<open>
  C39. Without such a bound resolution may never return: there is a network and a document with
  properly signed manifests, each delegating to a new URL, on which the loop has no result. The
  cycle check alone does not bound the chain.
\<close>

theorem resolution_may_never_return:
  "\<exists>E raw_json. sha256_law (env_deps E) \<and> b64_law (env_deps E) \<and> ed_slice_law (env_deps E)
     \<and> ed_sign_law (env_deps E) \<and> resolve_payload E raw_json start = None"
  using chain_diverges chain_laws demo_laws(1)[of "[]"]
  by (intro exI[of _ chain_env] exI[of _ "[0]"])
     (simp add: chain_env_def chain_deps_def sha256_law_def)

text \<open>
  C38. One honest mirror is enough for a pinned payload: if one of the URLs serves bytes with the
  pinned digest in every state, admission succeeds with bytes of that digest, whatever the other
  mirrors answer.
\<close>

theorem one_honest_mirror_suffices:
  assumes "payload_allowed (env_deps E) Stage1 p" and "p_sha256 p = Some pin"
    and "u \<in> set (urls (p_url p))" and "serves E u b" and "matches_pin E pin b"
  shows "\<exists>mode binary w'. admission (env_deps E) p Stage1 = Inr mode
    \<and> admit_payload E (urls (p_url p)) mode w = (Inr (binary, None), w') \<and> matches_pin E pin binary"
  using admit_payload_honest_pin[OF assms(3-5), of w] assms(1,2)
  by (simp add: admission_Inr_iff mode_of_def)

theorem one_honest_mirror_suffices_witness:
  "\<exists>mode binary w'. admission (env_deps pinned_env) pinned_payload Stage1 = Inr mode
    \<and> admit_payload pinned_env (urls (p_url pinned_payload)) mode start = (Inr (binary, None), w')
    \<and> matches_pin pinned_env (hex_lower (pad 32 demo_binary)) binary"
proof (rule one_honest_mirror_suffices)
  show "p_sha256 pinned_payload = Some (hex_lower (pad 32 demo_binary))" by (simp add: pinned_payload_def)
  show "''http://h/p'' \<in> set (urls (p_url pinned_payload))" by (simp add: pinned_payload_def)
  show "serves pinned_env ''http://h/p'' demo_binary"
    by (simp add: serves_def pinned_env_def demo_env_def demo_site_def get_request_def)
  show "matches_pin pinned_env (hex_lower (pad 32 demo_binary)) demo_binary" by code_simp
  have "is_ok (admission (env_deps pinned_env) pinned_payload Stage1)" by code_simp
  then show "payload_allowed (env_deps pinned_env) Stage1 pinned_payload"
    by (auto simp: is_ok_iff admission_Inr_iff)
qed

text \<open>
  The same for a signed payload: one mirror that serves bytes, and whose first signature URL
  serves a signature of them that verifies, is enough; what is admitted is signed by the pinned key.
\<close>

theorem one_honest_signed_mirror_suffices:
  assumes "payload_allowed (env_deps E) Stage1 p" and "p_ed25519 p = Some pk" and "p_args_url p = None"
    and "u \<in> set (urls (p_url p))" and "serves E u b" and "first_sig_url E u (p_sig_url p) b s"
    and "serves E s sig" and "verify (env_deps E) pk Stage2Payload b sig = Inr ()"
  shows "\<exists>mode binary w'. admission (env_deps E) p Stage1 = Inr mode
    \<and> admit_payload E (urls (p_url p)) mode w = (Inr (binary, None), w') \<and> signed_by E pk Stage2Payload binary"
proof -
  have "p_sha256 p = None" using assms(1,2) by (auto simp: payload_allowed_def)
  then show ?thesis
    using admit_payload_honest_signed[OF assms(4-8), of "p_args_sig_url p" w] assms(1-3)
    by (simp add: admission_Inr_iff mode_of_def)
qed

theorem one_honest_signed_mirror_suffices_witness:
  "\<exists>mode binary w'. admission (env_deps delegating_env) signed_payload Stage1 = Inr mode
    \<and> admit_payload delegating_env [''http://down/p'', ''http://h/p''] mode start = (Inr (binary, None), w')
    \<and> signed_by delegating_env demo_key Stage2Payload binary"
proof -
  have "is_ok (admission (env_deps delegating_env) signed_payload Stage1)" by code_simp
  then have allowed: "payload_allowed (env_deps delegating_env) Stage1 signed_payload"
    by (auto simp: is_ok_iff admission_Inr_iff)
  have served: "serves delegating_env ''http://h/p'' demo_binary"
    "serves delegating_env ''http://h/p.sig'' (demo_sig Stage2Payload demo_binary)"
    by (simp_all add: serves_def delegating_env_def demo_env_def demo_site_def get_request_def)
  have good: "verify (env_deps delegating_env) demo_key Stage2Payload demo_binary
      (demo_sig Stage2Payload demo_binary) = Inr ()" by code_simp
  have "first_sig_url delegating_env ''http://h/p'' (p_sig_url signed_payload) demo_binary ''http://h/p.sig''"
    by (simp add: first_sig_url_def signed_payload_def)
  from one_honest_signed_mirror_suffices[OF allowed _ _ _ served(1) this served(2) good, of start] show ?thesis
    by (simp add: signed_payload_def)
qed

section \<open>stage1: merging a manifest\<close>



text \<open>
  The manifest wins. A path of keys that ends in a leaf (anything but an object) in a merged
  manifest ends in the same leaf in the result, whatever the document had there.
\<close>

theorem manifest_wins_at_leaves:
  assumes "wf_json manifest" and "get_path manifest ks = Some leaf" and "\<not> is_object leaf"
  shows "get_path (deep_merge doc manifest) ks = Some leaf"
  using assms by (rule overlay_leaf_wins)

theorem manifest_wins_at_leaves_witness:
  "get_path (deep_merge (JObj [(''a'', JObj [(''b'', JStr ''operator''), (''c'', JNull)])])
                        (JObj [(''a'', JObj [(''b'', JStr ''release'')])])) [''a'', ''b'']
   = Some (JStr ''release'')"
  by (rule manifest_wins_at_leaves) simp_all

text \<open>
  The operator's own keys survive. A path whose value the document has, and which leaves the
  manifest at an absent key, keeps the document's value.
\<close>

theorem operator_keys_survive:
  assumes "wf_json manifest" and "untouched manifest ks" and "get_path doc ks = Some v"
  shows "get_path (deep_merge doc manifest) ks = Some v"
  using base_survives[OF assms(1,2)] assms(3) by simp

theorem operator_keys_survive_witness:
  "get_path (deep_merge (JObj [(''a'', JObj [(''b'', JStr ''operator''), (''c'', JNull)])])
                        (JObj [(''a'', JObj [(''b'', JStr ''release'')])])) [''a'', ''c'']
   = Some JNull"
  by (rule operator_keys_survive) simp_all

section \<open>metadata: admission rules\<close>


text \<open>
  The http-only profile of stage0 admits nothing that the profile of stage1 refuses, and gives
  the same mode; an \<open>https\<close> URL is refused by it.
\<close>

theorem stage0_profile_is_stricter:
  assumes "admission D p Stage0 = Inr mode"
  shows "admission D p Stage1 = Inr mode \<and> (\<forall>u \<in> set (urls (p_url p)). \<exists>r. u = ''http://'' @ r)"
  using assms
  by (auto simp: admission_Inr_iff payload_allowed_mono)
     (auto simp: payload_allowed_def list_allowed_def url_allowed_def)

theorem stage0_profile_is_stricter_witness:
  "admission (demo_deps []) pinned_payload Stage1 = Inr (Admit_Sha256 (hex_lower (pad 32 demo_binary)))"
proof -
  have "map_err meta_error_text (admission (demo_deps []) pinned_payload Stage0)
      = Inr (Admit_Sha256 (hex_lower (pad 32 demo_binary)))" by code_simp
  then have "admission (demo_deps []) pinned_payload Stage0 = Inr (Admit_Sha256 (hex_lower (pad 32 demo_binary)))"
    by (simp add: map_err_Inr_iff)
  from stage0_profile_is_stricter[OF this] show ?thesis by simp
qed

section \<open>metadata: the wire format\<close>

text \<open>
  C18. Every user-data document survives the wire: what \<open>serde_json::to_value\<close> writes is a
  well-formed value without floats, and the reader gives the document back, field for field.
\<close>

theorem user_data_roundtrip:
  "de_user_data (ser_user_data u) = Some u \<and> wf_json (ser_user_data u) \<and> no_float (ser_user_data u)"
  using user_data_wire.de_ser user_data_wire.ser_wf user_data_wire.ser_no_float by blast

text \<open>
  Payload or manifest. When a value has both variant keys, the manifest is taken: the objects of
  a value are sorted and \<open>manifest\<close> comes first. A manifest merged over a consumed pointer that
  brings both keys therefore delegates again.
\<close>

theorem manifest_variant_comes_first:
  assumes "wf_json (JObj e)" and "bt_get e ''manifest'' = Some m" and "de_arch_config (JObj e) = Some ac"
  shows "\<exists>r. de_manifest_ref m = Some r \<and> ac_entry ac = Manifest_Entry r"
  using assms
  by (auto simp: de_arch_config_value de_variant_def bind_eq_Some_conv split: option.splits)

theorem manifest_variant_comes_first_witness:
  "\<exists>ac r. de_arch_config (JObj [(''manifest'', ser_manifest_ref demo_hop), (''payload'', ser_payload pinned_payload)]) = Some ac
     \<and> ac_entry ac = Manifest_Entry r \<and> de_manifest_ref (ser_manifest_ref demo_hop) = Some r"
proof -
  let ?e = "[(''manifest'', ser_manifest_ref demo_hop), (''payload'', ser_payload pinned_payload)]"
  have wf: "wf_json (JObj ?e)"
    by (simp add: manifest_ref_wire.ser_wf payload_wire.ser_wf less_char_def)
  moreover obtain ac where ac: "de_arch_config (JObj ?e) = Some ac"
    using wf by (auto simp: de_arch_config_value de_variant_def or_default_def ref_facts)
  ultimately show ?thesis using manifest_variant_comes_first[OF wf _ ac] by fastforce
qed

section \<open>ed25519-sign\<close>

text \<open>
  Sign, then verify. Whatever \<open>sign\<close> returns for a PEM key verifies under the public key it
  returns, for the same domain and message.
\<close>

theorem signatures_verify:
  assumes "b64_law D" and "ed_slice_law D" and "ed_sign_law D" and "sign D pem d msg = Inr s"
  shows "verify D (pubkey_b64 s) d msg (signature s) = Inr ()"
  using assms by (rule verify_signed)

theorem signatures_verify_witness:
  "\<exists>s. sign (demo_deps []) (pem_from_seed (demo_deps []) demo_seed) Stage2Payload demo_binary = Inr s
     \<and> verify (demo_deps []) (pubkey_b64 s) Stage2Payload demo_binary (signature s) = Inr ()"
proof -
  obtain s where s: "sign (demo_deps []) (pem_from_seed (demo_deps []) demo_seed) Stage2Payload demo_binary = Inr s"
    by (simp add: sign_def seed_of_pem demo_laws demo_seed_def)
  with signatures_verify[OF demo_laws(3-5) s] show ?thesis by blast
qed

text \<open>
  A seed survives its PEM form: the file that \<open>pem_from_seed\<close> writes reads back as the seed, and
  signing with it gives the public key \<open>pubkey_b64_from_seed\<close> shows.
\<close>

theorem pem_roundtrip:
  assumes "b64_law D" and "length seed = 32"
  shows "seed_from_pkcs8_pem D (pem_from_seed D seed) = Inr seed
    \<and> sign D (pem_from_seed D seed) d msg = Inr \<lparr>signature = ed_sign D seed (preimage D d msg),
         pubkey_b64 = pubkey_b64_from_seed D seed\<rparr>"
  using seed_of_pem[OF assms] by (simp add: sign_def pubkey_b64_from_seed_def)

theorem pem_roundtrip_witness:
  "seed_from_pkcs8_pem (demo_deps []) (pem_from_seed (demo_deps []) demo_seed) = Inr demo_seed"
  using pem_roundtrip[OF demo_laws(3), of demo_seed] by (simp add: demo_seed_def)

text \<open>
  Domain separation. Where SHA-256 keeps the six tags apart, two signed preimages are equal only
  for the same domain and messages of the same digest.
\<close>

theorem domains_are_separated:
  assumes "sha256_law D" and "tags_separate D"
  shows "preimage D d m = preimage D e n \<longleftrightarrow> d = e \<and> sha256_digest D m = sha256_digest D n"
  using assms by (rule preimage_eq_iff)

theorem domains_are_separated_witness:
  "preimage (demo_deps []) Stage2Payload demo_binary \<noteq> preimage (demo_deps []) Stage2Manifest demo_binary"
  using domains_are_separated[OF demo_laws(1)[of "[]"] demo_tags[of "[]"], of Stage2Payload demo_binary Stage2Manifest demo_binary]
  by simp

end
